(* ===== verification/Go_Prelude.thy ===== *)
theory Go_Prelude
  imports "HOL-Library.Word" "HOL-Library.Sublist"
begin

text \<open>
  What every component of transport-lib shares: Go's error values, result and outcome
  types, contexts, the machine integers, and two interfaces that recur all over the
  library, stated as locales:

  \<^item> \<open>defaulting\<close>: a function that fills the unset fields of a configuration or a message
    (every \<open>Defaults\<close>, \<open>ApplyDefaults\<close> and \<open>Normalize...\<close> function of the repository);
  \<^item> \<open>once_guarded\<close>: an operation run under a \<open>sync.Once\<close> (\<open>Close\<close>, \<open>Start\<close>,
    \<open>Delivery.Ack\<close>).

  A Go pointer that may be nil is an \<open>option\<close>, a Go map that may be nil is an \<open>option\<close> of a
  HOL map, and a Go string is a \<open>string\<close>, a list of bytes.
\<close>

section \<open>Theorem collections\<close>

named_theorems defaulting_defs "unfolding rules of the default-filling functions"
named_theorems wellformed_defs "unfolding rules of the well-formedness predicates"
named_theorems once_defs "unfolding rules of the operations guarded by sync.Once"

section \<open>Integers\<close>

type_synonym i64 = "64 word"
type_synonym i32 = "32 word"
type_synonym u32 = "32 word"

lemma sint_of_int_i64:
  assumes "- (2 ^ 63) \<le> n" and "n < 2 ^ 63"
  shows "sint (word_of_int n :: i64) = n"
proof -
  have "sint (word_of_int n :: i64) = signed_take_bit 63 n"
    by (subst signed_of_int) simp
  also have "\<dots> = n"
    using assms by (intro signed_take_bit_int_eq_self) auto
  finally show ?thesis .
qed

text \<open>A \<open>time.Duration\<close> or an instant where the code only compares and adds: nanoseconds.\<close>

type_synonym nanos = int

abbreviation (input) Nanosecond :: nanos where
  "Nanosecond \<equiv> 1"

abbreviation (input) Millisecond :: nanos where
  "Millisecond \<equiv> 1000000"

abbreviation (input) Second :: nanos where
  "Second \<equiv> 1000000000"

abbreviation (input) Minute :: nanos where
  "Minute \<equiv> 60000000000"

abbreviation (input) Hour :: nanos where
  "Hour \<equiv> 3600000000000"

section \<open>Errors\<close>

text \<open>
  A Go error value. \<open>ErrorsNew\<close> is \<open>errors.New\<close> or \<open>fmt.Errorf\<close> without a wrapped
  error, \<open>ErrWrap\<close> is \<open>fmt.Errorf("prefix: %w", err)\<close>, the next four are sentinel
  values the code compares against or returns, \<open>SecretNotFoundError\<close> is the error type of
  \<open>pkg/config/secrets.go\<close>, and \<open>LibError\<close> is any other error of a library, with its text.
\<close>

datatype go_error =
    ErrorsNew string
  | ErrWrap string go_error
  | RedisNil
  | ContextCanceled
  | DeadlineExceeded
  | OsErrNotExist
  | SecretNotFoundError string
  | LibError string

text \<open>The method \<open>Error()\<close>.\<close>

primrec error_text :: "go_error \<Rightarrow> string" where
  "error_text (ErrorsNew s) = s"
| "error_text (ErrWrap p e) = p @ '': '' @ error_text e"
| "error_text RedisNil = ''redis: nil''"
| "error_text ContextCanceled = ''context canceled''"
| "error_text DeadlineExceeded = ''context deadline exceeded''"
| "error_text OsErrNotExist = ''file does not exist''"
| "error_text (SecretNotFoundError n) = ''required secret not found: '' @ n"
| "error_text (LibError s) = s"

text \<open>\<open>errors.Is\<close> follows the chain of wrapped errors.\<close>

primrec errors_Is :: "go_error \<Rightarrow> go_error \<Rightarrow> bool" where
  "errors_Is (ErrorsNew s) t = (t = ErrorsNew s)"
| "errors_Is (ErrWrap p e) t = (t = ErrWrap p e \<or> errors_Is e t)"
| "errors_Is RedisNil t = (t = RedisNil)"
| "errors_Is ContextCanceled t = (t = ContextCanceled)"
| "errors_Is DeadlineExceeded t = (t = DeadlineExceeded)"
| "errors_Is OsErrNotExist t = (t = OsErrNotExist)"
| "errors_Is (SecretNotFoundError n) t = (t = SecretNotFoundError n)"
| "errors_Is (LibError s) t = (t = LibError s)"

text \<open>Go's pair \<open>(T, error)\<close>, used in the one way the code uses it: an error or a value.\<close>

type_synonym 'a go_result = "go_error + 'a"

text \<open>A call that may also panic.\<close>

datatype 'a outcome = Returns 'a | Panics string

lemma isl_iff_Inl: "isl r \<longleftrightarrow> (\<exists>e. r = Inl e)"
  by (cases r) auto

lemma Inr_projr_iff: "\<not> isl r \<longleftrightarrow> (\<exists>v. r = Inr v)"
  by (cases r) auto

section \<open>Contexts\<close>

text \<open>
  A \<open>context.Context\<close> at the moment a function looks at it: \<open>ctx_err\<close> is \<open>ctx.Err()\<close>,
  which is non-nil exactly when \<open>ctx.Done()\<close> is closed, and \<open>ctx_md\<close> is the outgoing
  gRPC metadata it carries.
\<close>

record go_context =
  ctx_err :: "go_error option"
  ctx_md :: "string \<rightharpoonup> string"

definition Background :: go_context where
  "Background = \<lparr>ctx_err = None, ctx_md = Map.empty\<rparr>"

definition ctx_done :: "go_context \<Rightarrow> bool" where
  "ctx_done ctx = (ctx_err ctx \<noteq> None)"

text \<open>The derived context of \<open>context.WithCancel\<close> or \<open>WithTimeout\<close> after its cancel function
  has been called: it keeps an error it already had, and is cancelled otherwise.\<close>

definition ctx_cancelled :: "go_context \<Rightarrow> go_context" where
  "ctx_cancelled ctx =
     ctx\<lparr>ctx_err := (case ctx_err ctx of None \<Rightarrow> Some ContextCanceled | Some e \<Rightarrow> Some e)\<rparr>"

lemma ctx_done_cancelled [simp]: "ctx_done (ctx_cancelled ctx)"
  by (simp add: ctx_done_def ctx_cancelled_def split: option.split)

lemma ctx_done_Background [simp]: "\<not> ctx_done Background"
  by (simp add: ctx_done_def Background_def)

text \<open>\<open>if ctx == nil { ctx = context.Background() }\<close>\<close>

definition ctx_or_background :: "go_context option \<Rightarrow> go_context" where
  "ctx_or_background c = (case c of None \<Rightarrow> Background | Some ctx \<Rightarrow> ctx)"

section \<open>Filling defaults\<close>

text \<open>
  \<open>if v == "" { v = d }\<close> and \<open>if v <= 0 { v = d }\<close>, the two shapes nearly all default
  rules of the repository have.
\<close>

definition default_str :: "string \<Rightarrow> string \<Rightarrow> string" where
  "default_str d v = (if v = '''' then d else v)"

definition default_pos :: "int \<Rightarrow> int \<Rightarrow> int" where
  "default_pos d v = (if v \<le> 0 then d else v)"

lemma default_str_idem [simp]: "d \<noteq> '''' \<Longrightarrow> default_str d (default_str d v) = default_str d v"
  by (simp add: default_str_def)

lemma default_str_nonempty [simp]: "d \<noteq> '''' \<Longrightarrow> default_str d v \<noteq> ''''"
  by (simp add: default_str_def)

lemma default_str_id [simp]: "v \<noteq> '''' \<Longrightarrow> default_str d v = v"
  by (simp add: default_str_def)

lemma default_pos_pos [simp]: "0 < d \<Longrightarrow> 0 < default_pos d v"
  by (simp add: default_pos_def)

lemma default_pos_id [simp]: "0 < v \<Longrightarrow> default_pos d v = v"
  by (simp add: default_pos_def)

text \<open>
  The contract of a default-filling function. \<open>p\<close> is what it fills with beyond constants (the
  fresh identifier and the clock reading of a message, nothing for a configuration), \<open>ok\<close>
  says that these are usable. The result is complete, and a complete value is left alone,
  whatever it would be filled with. Everything a caller relies on follows from these laws.
\<close>

locale defaulting =
  fixes ok :: "'p \<Rightarrow> bool"
    and fill :: "'p \<Rightarrow> 'c \<Rightarrow> 'c"
    and complete :: "'c \<Rightarrow> bool"
  assumes fill_complete: "ok p \<Longrightarrow> complete (fill p c)"
    and fill_keeps: "complete c \<Longrightarrow> fill p c = c"
begin

lemma fill_twice: "ok p \<Longrightarrow> fill q (fill p c) = fill p c"
  by (rule fill_keeps [OF fill_complete])

lemma fixed_iff_complete: "ok p \<Longrightarrow> fill p c = c \<longleftrightarrow> complete c"
  using fill_complete [of p c] fill_keeps [of c p] by metis

lemma fill_iterate: "ok p \<Longrightarrow> (fill q ^^ n) (fill p c) = fill p c"
  by (induction n) (simp_all add: fill_keeps fill_complete)

end

section \<open>Operations guarded by sync.Once\<close>

text \<open>
  \<open>done\<close> reads the \<open>sync.Once\<close>, \<open>op\<close> is the whole guarded method and returns the new state
  and what the method returns. The method sets the flag, and with the flag set it changes
  nothing.
\<close>

locale once_guarded =
  fixes "done" :: "'s \<Rightarrow> bool"
    and op :: "'s \<Rightarrow> 's \<times> 'r"
  assumes op_done: "done (fst (op s))"
    and done_noop: "done s \<Longrightarrow> fst (op s) = s"
begin

lemma second_call_noop: "fst (op (fst (op s))) = fst (op s)"
  by (rule done_noop [OF op_done])

lemma calls_after_first: "((\<lambda>s. fst (op s)) ^^ Suc n) s = fst (op s)"
  by (induction n) (simp_all add: second_call_noop)

lemma repeated_calls_done: "done (((\<lambda>s. fst (op s)) ^^ Suc n) s)"
  by (simp only: calls_after_first op_done)

end

end
