(* ===== verification/Bridgepb.thy ===== *)
theory Bridgepb
  imports Go_Prelude
begin

text \<open>
  The generated protobuf types of \<open>gen/go/bridge/v1/bridge.pb.go\<close>: the messages of
  \<open>proto/bridge/v1/bridge.proto\<close> as records with the fields of the Go structs (less the
  runtime's bookkeeping fields \<open>state\<close>, \<open>unknownFields\<close> and \<open>sizeCache\<close>), the two oneofs as
  datatypes, the value \<open>Reset\<close> leaves behind, and the nil-safe getters.

  A message pointer is an \<open>option\<close>. The values inside a \<open>structpb.Struct\<close> are a type parameter
  \<open>'v\<close>: no code of the repository looks at them. The protobuf runtime (reflection,
  serialisation, descriptors) is not part of the repository and is not modelled.
\<close>

section \<open>Well-known types\<close>

type_synonym 'v pb_struct = "string \<rightharpoonup> 'v"

record pb_timestamp =
  ts_seconds :: i64
  ts_nanos :: i32

section \<open>Messages\<close>

subsection \<open>TextPayload\<close>

record TextPayload =
  tp_Content :: "string"
  tp_MimeType :: "string"

definition TextPayload_Reset :: "TextPayload" where
  "TextPayload_Reset = \<lparr>tp_Content = '''', tp_MimeType = ''''\<rparr>"

definition TextPayload_GetContent :: "TextPayload option \<Rightarrow> string" where
  "TextPayload_GetContent x = (case x of Some m \<Rightarrow> tp_Content m | None \<Rightarrow> '''')"

definition TextPayload_GetMimeType :: "TextPayload option \<Rightarrow> string" where
  "TextPayload_GetMimeType x = (case x of Some m \<Rightarrow> tp_MimeType m | None \<Rightarrow> '''')"

subsection \<open>AudioPayload\<close>

record AudioPayload =
  ap_Codec :: "string"
  ap_Seq :: "i64"
  ap_Data :: "string"
  ap_IsLast :: "bool"

definition AudioPayload_Reset :: "AudioPayload" where
  "AudioPayload_Reset = \<lparr>ap_Codec = '''', ap_Seq = 0, ap_Data = '''', ap_IsLast = False\<rparr>"

definition AudioPayload_GetCodec :: "AudioPayload option \<Rightarrow> string" where
  "AudioPayload_GetCodec x = (case x of Some m \<Rightarrow> ap_Codec m | None \<Rightarrow> '''')"

definition AudioPayload_GetSeq :: "AudioPayload option \<Rightarrow> i64" where
  "AudioPayload_GetSeq x = (case x of Some m \<Rightarrow> ap_Seq m | None \<Rightarrow> 0)"

definition AudioPayload_GetData :: "AudioPayload option \<Rightarrow> string" where
  "AudioPayload_GetData x = (case x of Some m \<Rightarrow> ap_Data m | None \<Rightarrow> '''')"

definition AudioPayload_GetIsLast :: "AudioPayload option \<Rightarrow> bool" where
  "AudioPayload_GetIsLast x = (case x of Some m \<Rightarrow> ap_IsLast m | None \<Rightarrow> False)"

subsection \<open>Payload\<close>

record Payload =
  pl_Text :: "TextPayload option"
  pl_Audio :: "AudioPayload option"

definition Payload_Reset :: "Payload" where
  "Payload_Reset = \<lparr>pl_Text = None, pl_Audio = None\<rparr>"

definition Payload_GetText :: "Payload option \<Rightarrow> TextPayload option" where
  "Payload_GetText x = (case x of Some m \<Rightarrow> pl_Text m | None \<Rightarrow> None)"

definition Payload_GetAudio :: "Payload option \<Rightarrow> AudioPayload option" where
  "Payload_GetAudio x = (case x of Some m \<Rightarrow> pl_Audio m | None \<Rightarrow> None)"

subsection \<open>ErrorPayload\<close>

record ErrorPayload =
  ep_Code :: "i32"
  ep_ErrorCode :: "string"
  ep_Message :: "string"
  ep_Details :: "string"

definition ErrorPayload_Reset :: "ErrorPayload" where
  "ErrorPayload_Reset = \<lparr>ep_Code = 0, ep_ErrorCode = '''', ep_Message = '''', ep_Details = ''''\<rparr>"

definition ErrorPayload_GetCode :: "ErrorPayload option \<Rightarrow> i32" where
  "ErrorPayload_GetCode x = (case x of Some m \<Rightarrow> ep_Code m | None \<Rightarrow> 0)"

definition ErrorPayload_GetErrorCode :: "ErrorPayload option \<Rightarrow> string" where
  "ErrorPayload_GetErrorCode x = (case x of Some m \<Rightarrow> ep_ErrorCode m | None \<Rightarrow> '''')"

definition ErrorPayload_GetMessage :: "ErrorPayload option \<Rightarrow> string" where
  "ErrorPayload_GetMessage x = (case x of Some m \<Rightarrow> ep_Message m | None \<Rightarrow> '''')"

definition ErrorPayload_GetDetails :: "ErrorPayload option \<Rightarrow> string" where
  "ErrorPayload_GetDetails x = (case x of Some m \<Rightarrow> ep_Details m | None \<Rightarrow> '''')"

subsection \<open>Message\<close>

record 'v Message =
  msg_Version :: "string"
  msg_Kind :: "string"
  msg_Action :: "string"
  msg_RequestId :: "string"
  msg_ConversationId :: "string"
  msg_Payload :: "Payload option"
  msg_Metadata :: "'v pb_struct option"
  msg_Error :: "ErrorPayload option"
  msg_Timestamp :: "pb_timestamp option"
  msg_Extras :: "'v pb_struct option"

definition Message_Reset :: "'v Message" where
  "Message_Reset = \<lparr>msg_Version = '''', msg_Kind = '''', msg_Action = '''', msg_RequestId = '''', msg_ConversationId = '''', msg_Payload = None, msg_Metadata = None, msg_Error = None, msg_Timestamp = None, msg_Extras = None\<rparr>"

definition Message_GetVersion :: "'v Message option \<Rightarrow> string" where
  "Message_GetVersion x = (case x of Some m \<Rightarrow> msg_Version m | None \<Rightarrow> '''')"

definition Message_GetKind :: "'v Message option \<Rightarrow> string" where
  "Message_GetKind x = (case x of Some m \<Rightarrow> msg_Kind m | None \<Rightarrow> '''')"

definition Message_GetAction :: "'v Message option \<Rightarrow> string" where
  "Message_GetAction x = (case x of Some m \<Rightarrow> msg_Action m | None \<Rightarrow> '''')"

definition Message_GetRequestId :: "'v Message option \<Rightarrow> string" where
  "Message_GetRequestId x = (case x of Some m \<Rightarrow> msg_RequestId m | None \<Rightarrow> '''')"

definition Message_GetConversationId :: "'v Message option \<Rightarrow> string" where
  "Message_GetConversationId x = (case x of Some m \<Rightarrow> msg_ConversationId m | None \<Rightarrow> '''')"

definition Message_GetPayload :: "'v Message option \<Rightarrow> Payload option" where
  "Message_GetPayload x = (case x of Some m \<Rightarrow> msg_Payload m | None \<Rightarrow> None)"

definition Message_GetMetadata :: "'v Message option \<Rightarrow> 'v pb_struct option" where
  "Message_GetMetadata x = (case x of Some m \<Rightarrow> msg_Metadata m | None \<Rightarrow> None)"

definition Message_GetError :: "'v Message option \<Rightarrow> ErrorPayload option" where
  "Message_GetError x = (case x of Some m \<Rightarrow> msg_Error m | None \<Rightarrow> None)"

definition Message_GetTimestamp :: "'v Message option \<Rightarrow> pb_timestamp option" where
  "Message_GetTimestamp x = (case x of Some m \<Rightarrow> msg_Timestamp m | None \<Rightarrow> None)"

definition Message_GetExtras :: "'v Message option \<Rightarrow> 'v pb_struct option" where
  "Message_GetExtras x = (case x of Some m \<Rightarrow> msg_Extras m | None \<Rightarrow> None)"

subsection \<open>TransportEnvelope\<close>

record 'v TransportEnvelope =
  env_ConnectionId :: "string"
  env_UserId :: "i64"
  env_NodeId :: "string"
  env_Message :: "'v Message option"
  env_TraceId :: "string"
  env_Attributes :: "(string \<rightharpoonup> string) option"
  env_CreatedAt :: "pb_timestamp option"
  env_TargetConnectionIds :: "string list"
  env_TargetUserIds :: "i64 list"
  env_Namespace :: "string"
  env_EnvelopeVersion :: "string"
  env_SlotId :: "u32"
  env_SlotGeneration :: "u32"
  env_NfcSequence :: "string"

definition TransportEnvelope_Reset :: "'v TransportEnvelope" where
  "TransportEnvelope_Reset = \<lparr>env_ConnectionId = '''', env_UserId = 0, env_NodeId = '''', env_Message = None, env_TraceId = '''', env_Attributes = None, env_CreatedAt = None, env_TargetConnectionIds = [], env_TargetUserIds = [], env_Namespace = '''', env_EnvelopeVersion = '''', env_SlotId = 0, env_SlotGeneration = 0, env_NfcSequence = ''''\<rparr>"

definition TransportEnvelope_GetConnectionId :: "'v TransportEnvelope option \<Rightarrow> string" where
  "TransportEnvelope_GetConnectionId x = (case x of Some m \<Rightarrow> env_ConnectionId m | None \<Rightarrow> '''')"

definition TransportEnvelope_GetUserId :: "'v TransportEnvelope option \<Rightarrow> i64" where
  "TransportEnvelope_GetUserId x = (case x of Some m \<Rightarrow> env_UserId m | None \<Rightarrow> 0)"

definition TransportEnvelope_GetNodeId :: "'v TransportEnvelope option \<Rightarrow> string" where
  "TransportEnvelope_GetNodeId x = (case x of Some m \<Rightarrow> env_NodeId m | None \<Rightarrow> '''')"

definition TransportEnvelope_GetMessage :: "'v TransportEnvelope option \<Rightarrow> 'v Message option" where
  "TransportEnvelope_GetMessage x = (case x of Some m \<Rightarrow> env_Message m | None \<Rightarrow> None)"

definition TransportEnvelope_GetTraceId :: "'v TransportEnvelope option \<Rightarrow> string" where
  "TransportEnvelope_GetTraceId x = (case x of Some m \<Rightarrow> env_TraceId m | None \<Rightarrow> '''')"

definition TransportEnvelope_GetAttributes :: "'v TransportEnvelope option \<Rightarrow> (string \<rightharpoonup> string) option" where
  "TransportEnvelope_GetAttributes x = (case x of Some m \<Rightarrow> env_Attributes m | None \<Rightarrow> None)"

definition TransportEnvelope_GetCreatedAt :: "'v TransportEnvelope option \<Rightarrow> pb_timestamp option" where
  "TransportEnvelope_GetCreatedAt x = (case x of Some m \<Rightarrow> env_CreatedAt m | None \<Rightarrow> None)"

definition TransportEnvelope_GetTargetConnectionIds :: "'v TransportEnvelope option \<Rightarrow> string list" where
  "TransportEnvelope_GetTargetConnectionIds x = (case x of Some m \<Rightarrow> env_TargetConnectionIds m | None \<Rightarrow> [])"

definition TransportEnvelope_GetTargetUserIds :: "'v TransportEnvelope option \<Rightarrow> i64 list" where
  "TransportEnvelope_GetTargetUserIds x = (case x of Some m \<Rightarrow> env_TargetUserIds m | None \<Rightarrow> [])"

definition TransportEnvelope_GetNamespace :: "'v TransportEnvelope option \<Rightarrow> string" where
  "TransportEnvelope_GetNamespace x = (case x of Some m \<Rightarrow> env_Namespace m | None \<Rightarrow> '''')"

definition TransportEnvelope_GetEnvelopeVersion :: "'v TransportEnvelope option \<Rightarrow> string" where
  "TransportEnvelope_GetEnvelopeVersion x = (case x of Some m \<Rightarrow> env_EnvelopeVersion m | None \<Rightarrow> '''')"

definition TransportEnvelope_GetSlotId :: "'v TransportEnvelope option \<Rightarrow> u32" where
  "TransportEnvelope_GetSlotId x = (case x of Some m \<Rightarrow> env_SlotId m | None \<Rightarrow> 0)"

definition TransportEnvelope_GetSlotGeneration :: "'v TransportEnvelope option \<Rightarrow> u32" where
  "TransportEnvelope_GetSlotGeneration x = (case x of Some m \<Rightarrow> env_SlotGeneration m | None \<Rightarrow> 0)"

definition TransportEnvelope_GetNfcSequence :: "'v TransportEnvelope option \<Rightarrow> string" where
  "TransportEnvelope_GetNfcSequence x = (case x of Some m \<Rightarrow> env_NfcSequence m | None \<Rightarrow> '''')"

subsection \<open>RegisterFrame\<close>

record RegisterFrame =
  reg_NodeId :: "string"
  reg_Namespace :: "string"
  reg_SupportedVersions :: "string list"
  reg_BridgeVersion :: "string"

definition RegisterFrame_Reset :: "RegisterFrame" where
  "RegisterFrame_Reset = \<lparr>reg_NodeId = '''', reg_Namespace = '''', reg_SupportedVersions = [], reg_BridgeVersion = ''''\<rparr>"

definition RegisterFrame_GetNodeId :: "RegisterFrame option \<Rightarrow> string" where
  "RegisterFrame_GetNodeId x = (case x of Some m \<Rightarrow> reg_NodeId m | None \<Rightarrow> '''')"

definition RegisterFrame_GetNamespace :: "RegisterFrame option \<Rightarrow> string" where
  "RegisterFrame_GetNamespace x = (case x of Some m \<Rightarrow> reg_Namespace m | None \<Rightarrow> '''')"

definition RegisterFrame_GetSupportedVersions :: "RegisterFrame option \<Rightarrow> string list" where
  "RegisterFrame_GetSupportedVersions x = (case x of Some m \<Rightarrow> reg_SupportedVersions m | None \<Rightarrow> [])"

definition RegisterFrame_GetBridgeVersion :: "RegisterFrame option \<Rightarrow> string" where
  "RegisterFrame_GetBridgeVersion x = (case x of Some m \<Rightarrow> reg_BridgeVersion m | None \<Rightarrow> '''')"

subsection \<open>IngressFrame\<close>

record 'v IngressFrame =
  ing_Envelope :: "'v TransportEnvelope option"

definition IngressFrame_Reset :: "'v IngressFrame" where
  "IngressFrame_Reset = \<lparr>ing_Envelope = None\<rparr>"

definition IngressFrame_GetEnvelope :: "'v IngressFrame option \<Rightarrow> 'v TransportEnvelope option" where
  "IngressFrame_GetEnvelope x = (case x of Some m \<Rightarrow> ing_Envelope m | None \<Rightarrow> None)"

subsection \<open>DeliverFrame\<close>

record 'v DeliverFrame =
  dlv_Envelope :: "'v TransportEnvelope option"

definition DeliverFrame_Reset :: "'v DeliverFrame" where
  "DeliverFrame_Reset = \<lparr>dlv_Envelope = None\<rparr>"

definition DeliverFrame_GetEnvelope :: "'v DeliverFrame option \<Rightarrow> 'v TransportEnvelope option" where
  "DeliverFrame_GetEnvelope x = (case x of Some m \<Rightarrow> dlv_Envelope m | None \<Rightarrow> None)"

subsection \<open>BroadcastFrame\<close>

record 'v BroadcastFrame =
  bc_Envelope :: "'v TransportEnvelope option"
  bc_BroadcastId :: "string"

definition BroadcastFrame_Reset :: "'v BroadcastFrame" where
  "BroadcastFrame_Reset = \<lparr>bc_Envelope = None, bc_BroadcastId = ''''\<rparr>"

definition BroadcastFrame_GetEnvelope :: "'v BroadcastFrame option \<Rightarrow> 'v TransportEnvelope option" where
  "BroadcastFrame_GetEnvelope x = (case x of Some m \<Rightarrow> bc_Envelope m | None \<Rightarrow> None)"

definition BroadcastFrame_GetBroadcastId :: "'v BroadcastFrame option \<Rightarrow> string" where
  "BroadcastFrame_GetBroadcastId x = (case x of Some m \<Rightarrow> bc_BroadcastId m | None \<Rightarrow> '''')"

subsection \<open>AckFrame\<close>

record AckFrame =
  ack_MessageId :: "string"
  ack_BroadcastId :: "string"

definition AckFrame_Reset :: "AckFrame" where
  "AckFrame_Reset = \<lparr>ack_MessageId = '''', ack_BroadcastId = ''''\<rparr>"

definition AckFrame_GetMessageId :: "AckFrame option \<Rightarrow> string" where
  "AckFrame_GetMessageId x = (case x of Some m \<Rightarrow> ack_MessageId m | None \<Rightarrow> '''')"

definition AckFrame_GetBroadcastId :: "AckFrame option \<Rightarrow> string" where
  "AckFrame_GetBroadcastId x = (case x of Some m \<Rightarrow> ack_BroadcastId m | None \<Rightarrow> '''')"

subsection \<open>HeartbeatFrame\<close>

record HeartbeatFrame =
  hb_Nonce :: "string"

definition HeartbeatFrame_Reset :: "HeartbeatFrame" where
  "HeartbeatFrame_Reset = \<lparr>hb_Nonce = ''''\<rparr>"

definition HeartbeatFrame_GetNonce :: "HeartbeatFrame option \<Rightarrow> string" where
  "HeartbeatFrame_GetNonce x = (case x of Some m \<Rightarrow> hb_Nonce m | None \<Rightarrow> '''')"

subsection \<open>StreamRequest\<close>

text \<open>The oneof; a nil interface is \<open>None\<close> and each arm holds a pointer.\<close>

datatype 'v StreamRequest_Payload =
    StreamRequest_Register "RegisterFrame option"
  | StreamRequest_Ingress "'v IngressFrame option"
  | StreamRequest_Ack "AckFrame option"
  | StreamRequest_Heartbeat "HeartbeatFrame option"

record 'v StreamRequest =
  sr_Payload :: "'v StreamRequest_Payload option"

definition StreamRequest_Reset :: "'v StreamRequest" where
  "StreamRequest_Reset = \<lparr>sr_Payload = None\<rparr>"

definition StreamRequest_GetPayload :: "'v StreamRequest option \<Rightarrow> 'v StreamRequest_Payload option" where
  "StreamRequest_GetPayload x = (case x of Some m \<Rightarrow> sr_Payload m | None \<Rightarrow> None)"

definition StreamRequest_GetRegister :: "'v StreamRequest option \<Rightarrow> RegisterFrame option" where
  "StreamRequest_GetRegister x =
     (case StreamRequest_GetPayload x of Some (StreamRequest_Register p) \<Rightarrow> p | _ \<Rightarrow> None)"

definition StreamRequest_GetIngress :: "'v StreamRequest option \<Rightarrow> 'v IngressFrame option" where
  "StreamRequest_GetIngress x =
     (case StreamRequest_GetPayload x of Some (StreamRequest_Ingress p) \<Rightarrow> p | _ \<Rightarrow> None)"

definition StreamRequest_GetAck :: "'v StreamRequest option \<Rightarrow> AckFrame option" where
  "StreamRequest_GetAck x =
     (case StreamRequest_GetPayload x of Some (StreamRequest_Ack p) \<Rightarrow> p | _ \<Rightarrow> None)"

definition StreamRequest_GetHeartbeat :: "'v StreamRequest option \<Rightarrow> HeartbeatFrame option" where
  "StreamRequest_GetHeartbeat x =
     (case StreamRequest_GetPayload x of Some (StreamRequest_Heartbeat p) \<Rightarrow> p | _ \<Rightarrow> None)"

subsection \<open>StreamResponse\<close>

text \<open>The oneof; a nil interface is \<open>None\<close> and each arm holds a pointer.\<close>

datatype 'v StreamResponse_Payload =
    StreamResponse_Deliver "'v DeliverFrame option"
  | StreamResponse_Broadcast "'v BroadcastFrame option"
  | StreamResponse_Heartbeat "HeartbeatFrame option"

record 'v StreamResponse =
  sp_Payload :: "'v StreamResponse_Payload option"

definition StreamResponse_Reset :: "'v StreamResponse" where
  "StreamResponse_Reset = \<lparr>sp_Payload = None\<rparr>"

definition StreamResponse_GetPayload :: "'v StreamResponse option \<Rightarrow> 'v StreamResponse_Payload option" where
  "StreamResponse_GetPayload x = (case x of Some m \<Rightarrow> sp_Payload m | None \<Rightarrow> None)"

definition StreamResponse_GetDeliver :: "'v StreamResponse option \<Rightarrow> 'v DeliverFrame option" where
  "StreamResponse_GetDeliver x =
     (case StreamResponse_GetPayload x of Some (StreamResponse_Deliver p) \<Rightarrow> p | _ \<Rightarrow> None)"

definition StreamResponse_GetBroadcast :: "'v StreamResponse option \<Rightarrow> 'v BroadcastFrame option" where
  "StreamResponse_GetBroadcast x =
     (case StreamResponse_GetPayload x of Some (StreamResponse_Broadcast p) \<Rightarrow> p | _ \<Rightarrow> None)"

definition StreamResponse_GetHeartbeat :: "'v StreamResponse option \<Rightarrow> HeartbeatFrame option" where
  "StreamResponse_GetHeartbeat x =
     (case StreamResponse_GetPayload x of Some (StreamResponse_Heartbeat p) \<Rightarrow> p | _ \<Rightarrow> None)"

section \<open>A nil message reads as the zero message\<close>

lemmas reset_defs =
  TextPayload_Reset_def
  AudioPayload_Reset_def
  Payload_Reset_def
  ErrorPayload_Reset_def
  Message_Reset_def
  TransportEnvelope_Reset_def
  RegisterFrame_Reset_def
  IngressFrame_Reset_def
  DeliverFrame_Reset_def
  BroadcastFrame_Reset_def
  AckFrame_Reset_def
  HeartbeatFrame_Reset_def
  StreamRequest_Reset_def
  StreamResponse_Reset_def

lemmas getter_defs =
  TextPayload_GetContent_def
  TextPayload_GetMimeType_def
  AudioPayload_GetCodec_def
  AudioPayload_GetSeq_def
  AudioPayload_GetData_def
  AudioPayload_GetIsLast_def
  Payload_GetText_def
  Payload_GetAudio_def
  ErrorPayload_GetCode_def
  ErrorPayload_GetErrorCode_def
  ErrorPayload_GetMessage_def
  ErrorPayload_GetDetails_def
  Message_GetVersion_def
  Message_GetKind_def
  Message_GetAction_def
  Message_GetRequestId_def
  Message_GetConversationId_def
  Message_GetPayload_def
  Message_GetMetadata_def
  Message_GetError_def
  Message_GetTimestamp_def
  Message_GetExtras_def
  TransportEnvelope_GetConnectionId_def
  TransportEnvelope_GetUserId_def
  TransportEnvelope_GetNodeId_def
  TransportEnvelope_GetMessage_def
  TransportEnvelope_GetTraceId_def
  TransportEnvelope_GetAttributes_def
  TransportEnvelope_GetCreatedAt_def
  TransportEnvelope_GetTargetConnectionIds_def
  TransportEnvelope_GetTargetUserIds_def
  TransportEnvelope_GetNamespace_def
  TransportEnvelope_GetEnvelopeVersion_def
  TransportEnvelope_GetSlotId_def
  TransportEnvelope_GetSlotGeneration_def
  TransportEnvelope_GetNfcSequence_def
  RegisterFrame_GetNodeId_def
  RegisterFrame_GetNamespace_def
  RegisterFrame_GetSupportedVersions_def
  RegisterFrame_GetBridgeVersion_def
  IngressFrame_GetEnvelope_def
  DeliverFrame_GetEnvelope_def
  BroadcastFrame_GetEnvelope_def
  BroadcastFrame_GetBroadcastId_def
  AckFrame_GetMessageId_def
  AckFrame_GetBroadcastId_def
  HeartbeatFrame_GetNonce_def
  StreamRequest_GetPayload_def
  StreamRequest_GetRegister_def
  StreamRequest_GetIngress_def
  StreamRequest_GetAck_def
  StreamRequest_GetHeartbeat_def
  StreamResponse_GetPayload_def
  StreamResponse_GetDeliver_def
  StreamResponse_GetBroadcast_def
  StreamResponse_GetHeartbeat_def

text \<open>
  The getters of a nil pointer return what they return for a freshly reset message, for every
  field of every message.
\<close>

lemma nil_reads_as_reset:
  "TextPayload_GetContent None = TextPayload_GetContent (Some TextPayload_Reset)
   \<and> TextPayload_GetMimeType None = TextPayload_GetMimeType (Some TextPayload_Reset)
   \<and> AudioPayload_GetCodec None = AudioPayload_GetCodec (Some AudioPayload_Reset)
   \<and> AudioPayload_GetSeq None = AudioPayload_GetSeq (Some AudioPayload_Reset)
   \<and> AudioPayload_GetData None = AudioPayload_GetData (Some AudioPayload_Reset)
   \<and> AudioPayload_GetIsLast None = AudioPayload_GetIsLast (Some AudioPayload_Reset)
   \<and> Payload_GetText None = Payload_GetText (Some Payload_Reset)
   \<and> Payload_GetAudio None = Payload_GetAudio (Some Payload_Reset)
   \<and> ErrorPayload_GetCode None = ErrorPayload_GetCode (Some ErrorPayload_Reset)
   \<and> ErrorPayload_GetErrorCode None = ErrorPayload_GetErrorCode (Some ErrorPayload_Reset)
   \<and> ErrorPayload_GetMessage None = ErrorPayload_GetMessage (Some ErrorPayload_Reset)
   \<and> ErrorPayload_GetDetails None = ErrorPayload_GetDetails (Some ErrorPayload_Reset)
   \<and> Message_GetVersion None = Message_GetVersion (Some Message_Reset)
   \<and> Message_GetKind None = Message_GetKind (Some Message_Reset)
   \<and> Message_GetAction None = Message_GetAction (Some Message_Reset)
   \<and> Message_GetRequestId None = Message_GetRequestId (Some Message_Reset)
   \<and> Message_GetConversationId None = Message_GetConversationId (Some Message_Reset)
   \<and> Message_GetPayload None = Message_GetPayload (Some Message_Reset)
   \<and> Message_GetMetadata None = Message_GetMetadata (Some Message_Reset)
   \<and> Message_GetError None = Message_GetError (Some Message_Reset)
   \<and> Message_GetTimestamp None = Message_GetTimestamp (Some Message_Reset)
   \<and> Message_GetExtras None = Message_GetExtras (Some Message_Reset)
   \<and> TransportEnvelope_GetConnectionId None = TransportEnvelope_GetConnectionId (Some TransportEnvelope_Reset)
   \<and> TransportEnvelope_GetUserId None = TransportEnvelope_GetUserId (Some TransportEnvelope_Reset)
   \<and> TransportEnvelope_GetNodeId None = TransportEnvelope_GetNodeId (Some TransportEnvelope_Reset)
   \<and> TransportEnvelope_GetMessage None = TransportEnvelope_GetMessage (Some TransportEnvelope_Reset)
   \<and> TransportEnvelope_GetTraceId None = TransportEnvelope_GetTraceId (Some TransportEnvelope_Reset)
   \<and> TransportEnvelope_GetAttributes None = TransportEnvelope_GetAttributes (Some TransportEnvelope_Reset)
   \<and> TransportEnvelope_GetCreatedAt None = TransportEnvelope_GetCreatedAt (Some TransportEnvelope_Reset)
   \<and> TransportEnvelope_GetTargetConnectionIds None = TransportEnvelope_GetTargetConnectionIds (Some TransportEnvelope_Reset)
   \<and> TransportEnvelope_GetTargetUserIds None = TransportEnvelope_GetTargetUserIds (Some TransportEnvelope_Reset)
   \<and> TransportEnvelope_GetNamespace None = TransportEnvelope_GetNamespace (Some TransportEnvelope_Reset)
   \<and> TransportEnvelope_GetEnvelopeVersion None = TransportEnvelope_GetEnvelopeVersion (Some TransportEnvelope_Reset)
   \<and> TransportEnvelope_GetSlotId None = TransportEnvelope_GetSlotId (Some TransportEnvelope_Reset)
   \<and> TransportEnvelope_GetSlotGeneration None = TransportEnvelope_GetSlotGeneration (Some TransportEnvelope_Reset)
   \<and> TransportEnvelope_GetNfcSequence None = TransportEnvelope_GetNfcSequence (Some TransportEnvelope_Reset)
   \<and> RegisterFrame_GetNodeId None = RegisterFrame_GetNodeId (Some RegisterFrame_Reset)
   \<and> RegisterFrame_GetNamespace None = RegisterFrame_GetNamespace (Some RegisterFrame_Reset)
   \<and> RegisterFrame_GetSupportedVersions None = RegisterFrame_GetSupportedVersions (Some RegisterFrame_Reset)
   \<and> RegisterFrame_GetBridgeVersion None = RegisterFrame_GetBridgeVersion (Some RegisterFrame_Reset)
   \<and> IngressFrame_GetEnvelope None = IngressFrame_GetEnvelope (Some IngressFrame_Reset)
   \<and> DeliverFrame_GetEnvelope None = DeliverFrame_GetEnvelope (Some DeliverFrame_Reset)
   \<and> BroadcastFrame_GetEnvelope None = BroadcastFrame_GetEnvelope (Some BroadcastFrame_Reset)
   \<and> BroadcastFrame_GetBroadcastId None = BroadcastFrame_GetBroadcastId (Some BroadcastFrame_Reset)
   \<and> AckFrame_GetMessageId None = AckFrame_GetMessageId (Some AckFrame_Reset)
   \<and> AckFrame_GetBroadcastId None = AckFrame_GetBroadcastId (Some AckFrame_Reset)
   \<and> HeartbeatFrame_GetNonce None = HeartbeatFrame_GetNonce (Some HeartbeatFrame_Reset)
   \<and> StreamRequest_GetPayload None = StreamRequest_GetPayload (Some StreamRequest_Reset)
   \<and> StreamRequest_GetRegister None = StreamRequest_GetRegister (Some StreamRequest_Reset)
   \<and> StreamRequest_GetIngress None = StreamRequest_GetIngress (Some StreamRequest_Reset)
   \<and> StreamRequest_GetAck None = StreamRequest_GetAck (Some StreamRequest_Reset)
   \<and> StreamRequest_GetHeartbeat None = StreamRequest_GetHeartbeat (Some StreamRequest_Reset)
   \<and> StreamResponse_GetPayload None = StreamResponse_GetPayload (Some StreamResponse_Reset)
   \<and> StreamResponse_GetDeliver None = StreamResponse_GetDeliver (Some StreamResponse_Reset)
   \<and> StreamResponse_GetBroadcast None = StreamResponse_GetBroadcast (Some StreamResponse_Reset)
   \<and> StreamResponse_GetHeartbeat None = StreamResponse_GetHeartbeat (Some StreamResponse_Reset)"
  by (simp add: getter_defs reset_defs)

text \<open>
  The oneof holds one arm: at most one of its four getters is non-nil, and a getter that is
  non-nil says which arm is set.
\<close>

lemma StreamRequest_one_arm:
  "(StreamRequest_GetRegister x = Some r) = (StreamRequest_GetPayload x = Some (StreamRequest_Register (Some r)))"
  "(StreamRequest_GetIngress x = Some i) = (StreamRequest_GetPayload x = Some (StreamRequest_Ingress (Some i)))"
  "(StreamRequest_GetAck x = Some a) = (StreamRequest_GetPayload x = Some (StreamRequest_Ack (Some a)))"
  "(StreamRequest_GetHeartbeat x = Some h) = (StreamRequest_GetPayload x = Some (StreamRequest_Heartbeat (Some h)))"
  by (auto simp: getter_defs split: option.splits StreamRequest_Payload.splits)

end
