(* ===== verification/Go_Strings.thy ===== *)
theory Go_Strings
  imports Go_Prelude
begin

text \<open>
  The functions of Go's standard packages \<open>strings\<close> and \<open>fmt\<close> that the library calls, on
  byte strings: \<open>strings.TrimSpace\<close>, \<open>strings.Contains\<close> and the decimal rendering \<open>%d\<close> of an
  integer. \<open>TrimSpace\<close> removes Unicode white space, so its model works on the UTF-8 encodings
  of the white-space code points.
\<close>

section \<open>strings.TrimSpace\<close>

text \<open>The UTF-8 encodings of the code points \<open>unicode.IsSpace\<close> accepts: the six ASCII ones,
  U+0085, U+00A0, U+1680, U+2000 to U+200A, U+2028, U+2029, U+202F, U+205F and U+3000.\<close>

definition space_encodings :: "string list" where
  "space_encodings =
     map (map char_of)
      ([[9], [10], [11], [12], [13], [32], [194, 133], [194, 160], [225, 154, 128]] @
       map (\<lambda>b. [226, 128, b]) [128, 129, 130, 131, 132, 133, 134, 135, 136, 137, 138] @
       [[226, 128, 168], [226, 128, 169], [226, 128, 175], [226, 129, 159],
        [227, 128, 128 :: nat]])"

lemma space_encodings_nonempty: "w \<in> set space_encodings \<Longrightarrow> w \<noteq> []"
  by (auto simp: space_encodings_def)

text \<open>One white-space code point off the front, if there is one.\<close>

definition strip_space :: "string \<Rightarrow> string option" where
  "strip_space s =
     (case find (\<lambda>w. prefix w s) space_encodings of
        None \<Rightarrow> None
      | Some w \<Rightarrow> Some (drop (length w) s))"

lemma strip_space_shorter: "strip_space s = Some t \<Longrightarrow> length t < length s"
  by (auto simp: strip_space_def find_Some_iff split: option.splits
      dest!: space_encodings_nonempty [OF nth_mem] prefix_length_le)
     (metis diff_less length_greater_0_conv less_le_trans)

function trim_left :: "string \<Rightarrow> string" where
  "trim_left s = (case strip_space s of None \<Rightarrow> s | Some t \<Rightarrow> trim_left t)"
  by pat_completeness auto
termination
  by (relation "measure length") (auto simp: strip_space_shorter)

declare trim_left.simps [simp del]

text \<open>One white-space code point off the end. The last code point of a string is found by
  looking back to its lead byte, so a suffix that is one of the encodings is that code point.\<close>

definition strip_space_end :: "string \<Rightarrow> string option" where
  "strip_space_end s =
     (case find (\<lambda>w. suffix w s) space_encodings of
        None \<Rightarrow> None
      | Some w \<Rightarrow> Some (take (length s - length w) s))"

lemma strip_space_end_shorter: "strip_space_end s = Some t \<Longrightarrow> length t < length s"
  by (auto simp: strip_space_end_def find_Some_iff split: option.splits
      dest!: space_encodings_nonempty [OF nth_mem] suffix_length_le)
     (metis diff_less length_greater_0_conv less_le_trans min.absorb4 min.commute)

function trim_right :: "string \<Rightarrow> string" where
  "trim_right s = (case strip_space_end s of None \<Rightarrow> s | Some t \<Rightarrow> trim_right t)"
  by pat_completeness auto
termination
  by (relation "measure length") (auto simp: strip_space_end_shorter)

declare trim_right.simps [simp del]

definition TrimSpace :: "string \<Rightarrow> string" where
  "TrimSpace s = trim_right (trim_left s)"

text \<open>A string is blank when \<open>strings.TrimSpace\<close> leaves nothing of it.\<close>

definition blank :: "string \<Rightarrow> bool" where
  "blank s = (TrimSpace s = '''')"

lemma strip_space_Nil [simp]: "strip_space [] = None"
  by (auto simp: strip_space_def find_None_iff space_encodings_nonempty split: option.splits)
     (metis find_Some_iff nth_mem space_encodings_nonempty)

lemma strip_space_end_Nil [simp]: "strip_space_end [] = None"
  by (auto simp: strip_space_end_def find_None_iff space_encodings_nonempty split: option.splits)
     (metis find_Some_iff nth_mem space_encodings_nonempty)

lemma trim_left_Nil [simp]: "trim_left [] = []"
  by (subst trim_left.simps) simp

lemma trim_right_Nil [simp]: "trim_right [] = []"
  by (subst trim_right.simps) simp

lemma trim_left_stripped: "strip_space (trim_left s) = None"
proof (induction s rule: trim_left.induct)
  case (1 s)
  then show ?case
    by (cases "strip_space s") (simp_all add: trim_left.simps [of s])
qed

lemma trim_right_stripped: "strip_space_end (trim_right s) = None"
proof (induction s rule: trim_right.induct)
  case (1 s)
  then show ?case
    by (cases "strip_space_end s") (simp_all add: trim_right.simps [of s])
qed

lemma trim_right_prefix: "prefix (trim_right s) s"
proof (induction s rule: trim_right.induct)
  case (1 s)
  show ?case
  proof (cases "strip_space_end s")
    case None
    then show ?thesis by (simp add: trim_right.simps [of s])
  next
    case (Some t)
    then have "prefix t s"
      by (auto simp: strip_space_end_def take_is_prefix split: option.splits)
    with 1 Some show ?thesis
      by (auto simp: trim_right.simps [of s] intro: prefix_order.trans)
  qed
qed

lemma strip_space_None_prefix:
  assumes "strip_space s = None" and "prefix p s"
  shows "strip_space p = None"
  using assms
  by (auto simp: strip_space_def find_None_iff split: option.splits)

text \<open>\<open>TrimSpace\<close> leaves no white space at either end, and a second call changes nothing.\<close>

lemma TrimSpace_stripped:
  "strip_space (TrimSpace s) = None \<and> strip_space_end (TrimSpace s) = None"
  unfolding TrimSpace_def
  using strip_space_None_prefix [OF trim_left_stripped trim_right_prefix] trim_right_stripped
  by blast

lemma TrimSpace_id: "strip_space s = None \<Longrightarrow> strip_space_end s = None \<Longrightarrow> TrimSpace s = s"
  by (simp add: TrimSpace_def trim_left.simps [of s] trim_right.simps [of s])

lemma TrimSpace_idem [simp]: "TrimSpace (TrimSpace s) = TrimSpace s"
  using TrimSpace_id TrimSpace_stripped by blast

lemma TrimSpace_Nil [simp]: "TrimSpace [] = []"
  by (simp add: TrimSpace_def)

section \<open>strings.Contains\<close>

definition strings_Contains :: "string \<Rightarrow> string \<Rightarrow> bool" where
  "strings_Contains s sub = sublist sub s"

lemma strings_Contains_append: "strings_Contains t sub \<Longrightarrow> strings_Contains (s @ t) sub"
  by (auto simp: strings_Contains_def sublist_def) (metis append.assoc)

section \<open>Decimal rendering of an integer\<close>

definition digit_char :: "nat \<Rightarrow> char" where
  "digit_char d = char_of (48 + d)"

fun string_of_nat :: "nat \<Rightarrow> string" where
  "string_of_nat n =
     (if n < 10 then [digit_char n] else string_of_nat (n div 10) @ [digit_char (n mod 10)])"

declare string_of_nat.simps [simp del]

text \<open>\<open>fmt.Sprintf("%d", v)\<close>\<close>

definition string_of_int :: "int \<Rightarrow> string" where
  "string_of_int v =
     (if v < 0 then CHR ''-'' # string_of_nat (nat (- v)) else string_of_nat (nat v))"

text \<open>Reading the rendering back; the inverse that shows distinct integers render apart.\<close>

definition nat_of_string :: "string \<Rightarrow> nat" where
  "nat_of_string s = foldl (\<lambda>a c. 10 * a + (of_char c - 48)) 0 s"

definition int_of_string :: "string \<Rightarrow> int" where
  "int_of_string s =
     (case s of [] \<Rightarrow> 0
      | c # cs \<Rightarrow> if c = CHR ''-'' then - int (nat_of_string cs) else int (nat_of_string s))"

lemma of_char_digit: "d < 10 \<Longrightarrow> (of_char (digit_char d) :: nat) = 48 + d"
  by (simp add: digit_char_def)

lemma nat_of_string_of_nat: "nat_of_string (string_of_nat n) = n"
proof (induction n rule: string_of_nat.induct)
  case (1 n)
  then show ?case
    by (cases "n < 10")
       (simp_all add: string_of_nat.simps [of n] nat_of_string_def of_char_digit)
qed

lemma string_of_nat_nonempty [simp]: "string_of_nat n \<noteq> []"
  by (simp add: string_of_nat.simps [of n])

lemma digit_char_not_minus: "d < 10 \<Longrightarrow> digit_char d \<noteq> CHR ''-''"
proof
  assume "d < 10" and "digit_char d = CHR ''-''"
  then have "(of_char (CHR ''-'') :: nat) = 48 + d" using of_char_digit [of d] by simp
  then show False by simp
qed

lemma string_of_nat_hd: "hd (string_of_nat n) \<noteq> CHR ''-''"
proof (induction n rule: string_of_nat.induct)
  case (1 n)
  then show ?case
    by (cases "n < 10") (simp_all add: string_of_nat.simps [of n] digit_char_not_minus)
qed

lemma int_of_string_of_int [simp]: "int_of_string (string_of_int v) = v"
proof (cases "v < 0")
  case True
  then show ?thesis
    by (simp add: int_of_string_def string_of_int_def nat_of_string_of_nat)
next
  case False
  obtain c cs where cs: "string_of_nat (nat v) = c # cs"
    by (cases "string_of_nat (nat v)") auto
  with string_of_nat_hd [of "nat v"] have "c \<noteq> CHR ''-''" by simp
  with False cs show ?thesis
    using nat_of_string_of_nat [of "nat v"]
    by (simp add: int_of_string_def string_of_int_def)
qed

lemma string_of_int_inj [simp]: "string_of_int a = string_of_int b \<longleftrightarrow> a = b"
  by (metis int_of_string_of_int)

lemma string_of_int_nonempty [simp]: "string_of_int v \<noteq> []"
  by (simp add: string_of_int_def)

section \<open>ASCII\<close>

definition ascii :: "string \<Rightarrow> bool" where
  "ascii s = list_all (\<lambda>c. (of_char c :: nat) < 128) s"

lemma ascii_simps [simp]:
  "ascii []"
  "ascii (c # s) \<longleftrightarrow> (of_char c :: nat) < 128 \<and> ascii s"
  "ascii (s @ t) \<longleftrightarrow> ascii s \<and> ascii t"
  by (simp_all add: ascii_def)

lemma ascii_string_of_nat [simp]: "ascii (string_of_nat n)"
proof (induction n rule: string_of_nat.induct)
  case (1 n)
  then show ?case
    by (cases "n < 10") (simp_all add: string_of_nat.simps [of n] of_char_digit)
qed

lemma ascii_string_of_int [simp]: "ascii (string_of_int v)"
  by (simp add: string_of_int_def)

section \<open>strings.ToUpper and strings.ToLower\<close>

text \<open>
  The results are only compared with ASCII names. The letters outside ASCII that map into ASCII
  are the long s and the dotless i (upper), the dotted I and the Kelvin sign (lower), written out
  in UTF-8; every other one maps to something outside ASCII and is left as it is.
\<close>

definition upper_char :: "char \<Rightarrow> char" where
  "upper_char c =
     (let n = of_char c :: nat in if 97 \<le> n \<and> n \<le> 122 then char_of (n - 32) else c)"

definition lower_char :: "char \<Rightarrow> char" where
  "lower_char c =
     (let n = of_char c :: nat in if 65 \<le> n \<and> n \<le> 90 then char_of (n + 32) else c)"

fun ToUpper :: "string \<Rightarrow> string" where
  "ToUpper [] = []"
| "ToUpper (c # s) =
     (if take 2 (c # s) = [CHR 0xC5, CHR 0xBF] then CHR ''S'' # ToUpper (drop 1 s)
      else if take 2 (c # s) = [CHR 0xC4, CHR 0xB1] then CHR ''I'' # ToUpper (drop 1 s)
      else upper_char c # ToUpper s)"

fun ToLower :: "string \<Rightarrow> string" where
  "ToLower [] = []"
| "ToLower (c # s) =
     (if take 2 (c # s) = [CHR 0xC4, CHR 0xB0] then CHR ''i'' # ToLower (drop 1 s)
      else if take 3 (c # s) = [CHR 0xE2, CHR 0x84, CHR 0xAA] then CHR ''k'' # ToLower (drop 2 s)
      else lower_char c # ToLower s)"

end
