(* ===== verification/Envelope.thy ===== *)
theory Envelope
  imports Bridgepb Go_Strings
begin

text \<open>
  \<open>pkg/envelope/envelope.go\<close>: filling the defaults of a message and of an envelope,
  validating what a client sends, and the trace and slot helpers. A function that mutates
  through a pointer takes the pointer (an \<open>option\<close>) and returns it updated. The fresh
  identifier of \<open>uuid.NewString\<close> and the reading of \<open>timestamppb.Now\<close> are arguments.
\<close>

section \<open>Timestamps\<close>

text \<open>
  \<open>t.AsTime().IsZero()\<close>: \<open>AsTime\<close> is \<open>time.Unix(seconds, nanos)\<close>, which carries nanoseconds
  outside \<open>[0, 10^9)\<close> into the seconds, and the zero time is 1 January of the year 1.
\<close>

definition ts_IsZero :: "pb_timestamp \<Rightarrow> bool" where
  "ts_IsZero t =
     (let n = sint (ts_nanos t)
      in ts_seconds t + word_of_int (n div 1000000000) + 62135596800 = 0 \<and> n mod 1000000000 = 0)"

definition ts_unset :: "pb_timestamp option \<Rightarrow> bool" where
  "ts_unset t = (case t of None \<Rightarrow> True | Some t \<Rightarrow> ts_IsZero t)"

lemma ts_unset_simps [simp]: "ts_unset None" "ts_unset (Some t) = ts_IsZero t"
  by (simp_all add: ts_unset_def)

section \<open>Operations\<close>

definition Version :: string where
  "Version = ''2025-01''"

definition NormalizeMessage ::
  "string \<times> pb_timestamp \<Rightarrow> 'v Message option \<Rightarrow> 'v Message option" where
  "NormalizeMessage p msg =
     (case msg of
        None \<Rightarrow> None
      | Some m \<Rightarrow>
          (let m = (if msg_Version m = '''' then m\<lparr>msg_Version := Version\<rparr> else m);
               m = (if msg_RequestId m = '''' then m\<lparr>msg_RequestId := fst p\<rparr> else m);
               m = (if msg_Metadata m = None then m\<lparr>msg_Metadata := Some Map.empty\<rparr> else m);
               m = (if ts_unset (msg_Timestamp m) then m\<lparr>msg_Timestamp := Some (snd p)\<rparr> else m)
           in Some m))"

definition ValidateIngress :: "'v Message option \<Rightarrow> go_error option" where
  "ValidateIngress msg =
     (case msg of
        None \<Rightarrow> Some (ErrorsNew ''message is nil'')
      | Some m \<Rightarrow>
          if msg_Kind m \<noteq> ''request'' \<and> msg_Kind m \<noteq> ''''
          then Some (ErrorsNew ''only request kind allowed'')
          else if TrimSpace (msg_Action m) = ''''
          then Some (ErrorsNew ''action is required'')
          else
            (let payload = Message_GetPayload msg
             in if payload = None \<or> Payload_GetText payload = None \<and> Payload_GetAudio payload = None
                then Some (ErrorsNew ''payload is required'')
                else None))"

definition NormalizeEnvelope ::
  "string \<times> pb_timestamp \<Rightarrow> 'v TransportEnvelope option \<Rightarrow> 'v TransportEnvelope option" where
  "NormalizeEnvelope p env =
     (case env of
        None \<Rightarrow> None
      | Some e \<Rightarrow>
          (let e = e\<lparr>env_Message := NormalizeMessage p (env_Message e)\<rparr>;
               e = (if env_Attributes e = None then e\<lparr>env_Attributes := Some Map.empty\<rparr> else e);
               e = (if ts_unset (env_CreatedAt e) then e\<lparr>env_CreatedAt := Some (snd p)\<rparr> else e);
               e = (if env_EnvelopeVersion e = '''' then e\<lparr>env_EnvelopeVersion := Version\<rparr> else e)
           in Some e))"

definition StampTrace ::
  "'v TransportEnvelope option \<Rightarrow> string \<Rightarrow> 'v TransportEnvelope option" where
  "StampTrace env traceID =
     (case env of
        None \<Rightarrow> None
      | Some e \<Rightarrow>
          if traceID = '''' then Some e
          else
            (let e = e\<lparr>env_TraceId := traceID\<rparr>;
                 attrs = (case env_Attributes e of None \<Rightarrow> Map.empty | Some a \<Rightarrow> a)
             in Some (e\<lparr>env_Attributes := Some (attrs(''trace_id'' \<mapsto> traceID))\<rparr>)))"

definition SetSlot ::
  "'v TransportEnvelope option \<Rightarrow> u32 \<Rightarrow> u32 \<Rightarrow> 'v TransportEnvelope option" where
  "SetSlot env slotID generation =
     (case env of
        None \<Rightarrow> None
      | Some e \<Rightarrow> Some (e\<lparr>env_SlotId := slotID, env_SlotGeneration := generation\<rparr>))"

definition GetSlot :: "'v TransportEnvelope option \<Rightarrow> u32 \<times> u32" where
  "GetSlot env =
     (case env of
        None \<Rightarrow> (0, 0)
      | Some e \<Rightarrow> (TransportEnvelope_GetSlotId env, TransportEnvelope_GetSlotGeneration env))"

section \<open>What the operations establish\<close>

text \<open>A message or envelope whose defaults are all set; a nil one has none to set.\<close>

definition message_complete :: "'v Message option \<Rightarrow> bool" where
  "message_complete msg =
     (case msg of
        None \<Rightarrow> True
      | Some m \<Rightarrow> msg_Version m \<noteq> '''' \<and> msg_RequestId m \<noteq> '''' \<and> msg_Metadata m \<noteq> None \<and>
          \<not> ts_unset (msg_Timestamp m))"

definition envelope_complete :: "'v TransportEnvelope option \<Rightarrow> bool" where
  "envelope_complete env =
     (case env of
        None \<Rightarrow> True
      | Some e \<Rightarrow> message_complete (env_Message e) \<and> env_Attributes e \<noteq> None \<and>
          \<not> ts_unset (env_CreatedAt e) \<and> env_EnvelopeVersion e \<noteq> '''')"

text \<open>What \<open>uuid.NewString\<close> and \<open>timestamppb.Now\<close> return is usable: a non-empty identifier and a
  clock that does not read the zero time.\<close>

definition stamp_ok :: "string \<times> pb_timestamp \<Rightarrow> bool" where
  "stamp_ok p = (fst p \<noteq> '''' \<and> \<not> ts_IsZero (snd p))"

lemmas [wellformed_defs] = message_complete_def envelope_complete_def stamp_ok_def

lemmas [defaulting_defs] = NormalizeMessage_def NormalizeEnvelope_def Let_def

lemma Version_nonempty [simp]: "Version \<noteq> ''''"
  by (simp add: Version_def)

lemma NormalizeMessage_complete: "stamp_ok p \<Longrightarrow> message_complete (NormalizeMessage p msg)"
  by (cases msg) (simp_all add: defaulting_defs wellformed_defs)

lemma NormalizeMessage_keeps: "message_complete msg \<Longrightarrow> NormalizeMessage p msg = msg"
  by (cases msg) (simp_all add: defaulting_defs wellformed_defs)

interpretation norm_message: defaulting stamp_ok NormalizeMessage message_complete
  by unfold_locales (fact NormalizeMessage_complete NormalizeMessage_keeps)+

interpretation norm_envelope: defaulting stamp_ok NormalizeEnvelope envelope_complete
proof unfold_locales
  fix p and env :: "'v TransportEnvelope option"
  show "stamp_ok p \<Longrightarrow> envelope_complete (NormalizeEnvelope p env)"
    by (cases env)
       (simp_all add: NormalizeEnvelope_def envelope_complete_def Let_def stamp_ok_def
          NormalizeMessage_complete)
  show "envelope_complete env \<Longrightarrow> NormalizeEnvelope p env = env"
    by (cases env)
       (simp_all add: NormalizeEnvelope_def envelope_complete_def Let_def NormalizeMessage_keeps)
qed

text \<open>The fields a client or the router decides are never touched by the defaults.\<close>

lemma NormalizeMessage_frame:
  "NormalizeMessage p (Some m) = Some m' \<Longrightarrow>
     msg_Kind m' = msg_Kind m \<and> msg_Action m' = msg_Action m \<and> msg_Payload m' = msg_Payload m \<and>
     msg_ConversationId m' = msg_ConversationId m \<and> msg_Error m' = msg_Error m \<and>
     msg_Extras m' = msg_Extras m"
  by (auto simp: defaulting_defs)

lemma NormalizeMessage_Some: "\<exists>m'. NormalizeMessage p (Some m) = Some m'"
  by (simp add: NormalizeMessage_def Let_def)

lemma NormalizeEnvelope_Some: "\<exists>e'. NormalizeEnvelope p (Some e) = Some e'"
  by (simp add: NormalizeEnvelope_def Let_def)

lemma NormalizeEnvelope_fields:
  "NormalizeEnvelope p (Some e) = Some e' \<Longrightarrow>
     env_Message e' = NormalizeMessage p (env_Message e) \<and>
     env_ConnectionId e' = env_ConnectionId e \<and> env_UserId e' = env_UserId e \<and>
     env_NodeId e' = env_NodeId e \<and> env_TraceId e' = env_TraceId e \<and>
     env_TargetConnectionIds e' = env_TargetConnectionIds e \<and>
     env_TargetUserIds e' = env_TargetUserIds e \<and> env_Namespace e' = env_Namespace e \<and>
     env_SlotId e' = env_SlotId e \<and> env_SlotGeneration e' = env_SlotGeneration e \<and>
     env_NfcSequence e' = env_NfcSequence e"
  by (auto simp: NormalizeEnvelope_def Let_def)

text \<open>The request identifier of a normalized message, which acknowledgements refer to.\<close>

lemma NormalizeMessage_request_id:
  "Message_GetRequestId (NormalizeMessage p (Some m)) =
     (if msg_RequestId m = '''' then fst p else msg_RequestId m)"
  by (simp add: NormalizeMessage_def Message_GetRequestId_def Let_def)

text \<open>What ingress validation accepts.\<close>

definition ingress_ok :: "'v Message option \<Rightarrow> bool" where
  "ingress_ok msg =
     (case msg of
        None \<Rightarrow> False
      | Some m \<Rightarrow> msg_Kind m \<in> {''request'', ''''} \<and> \<not> blank (msg_Action m) \<and>
          (case msg_Payload m of None \<Rightarrow> False | Some pl \<Rightarrow> pl_Text pl \<noteq> None \<or> pl_Audio pl \<noteq> None))"

lemma ValidateIngress_cases:
  "ValidateIngress msg = None \<longleftrightarrow> ingress_ok msg"
  by (auto simp: ValidateIngress_def ingress_ok_def blank_def Message_GetPayload_def
      Payload_GetText_def Payload_GetAudio_def split: option.splits)

lemma ValidateIngress_depends:
  "msg_Kind m' = msg_Kind m \<Longrightarrow> msg_Action m' = msg_Action m \<Longrightarrow> msg_Payload m' = msg_Payload m \<Longrightarrow>
     ValidateIngress (Some m') = ValidateIngress (Some m)"
  by (simp add: ValidateIngress_def Message_GetPayload_def)

text \<open>The two places an envelope keeps its trace identifier agree.\<close>

definition trace_consistent :: "'v TransportEnvelope option \<Rightarrow> bool" where
  "trace_consistent env =
     (case env of
        None \<Rightarrow> True
      | Some e \<Rightarrow> env_TraceId e = '''' \<or>
          (case env_Attributes e of None \<Rightarrow> False
           | Some a \<Rightarrow> a ''trace_id'' = Some (env_TraceId e)))"

lemma StampTrace_consistent:
  "trace_consistent env \<or> traceID \<noteq> '''' \<Longrightarrow> trace_consistent (StampTrace env traceID)"
  by (cases env) (auto simp: trace_consistent_def StampTrace_def Let_def)

lemma NormalizeEnvelope_trace: "trace_consistent env \<Longrightarrow> trace_consistent (NormalizeEnvelope p env)"
  by (cases env) (auto simp: trace_consistent_def NormalizeEnvelope_def Let_def split: option.splits)

end
