(* ===== verification/Server.thy ===== *)
theory Server
  imports Envelope
begin

text \<open>
  \<open>pkg/bridge/server.go\<close> and the server side of \<open>pkg/bridge/bridge.go\<close>: a session's sending
  methods, the stream loop that drives the handler, and the server's own life cycle.

  The handler is the application's (the interface \<open>Handler\<close>) and the gRPC stream is the
  library's, so both are arguments. \<open>'w\<close> is the state both act on (the application's own
  state, the peer at the other end). What the loop receives is a list: the requests \<open>Recv\<close>
  returns before it returns an error, and that error.
\<close>

section \<open>Options, metadata and acknowledgements (bridge.go)\<close>

record RegisterMeta =
  rm_NodeID :: string
  rm_Namespace :: string
  rm_Version :: string

record Ack =
  ak_MessageID :: string
  ak_BroadcastID :: string
  ak_Status :: string
  ak_Reason :: string

record Options =
  o_Address :: string
  o_Namespace :: string
  o_NodeID :: string
  o_DeliverBuffer :: int
  o_BroadcastBuffer :: int
  o_DialTimeout :: i64
  o_HeartbeatInterval :: i64
  o_ReconnectBackoff :: i64
  o_MaxReconnectBackoff :: i64
  o_TLSCertFile :: string
  o_TLSKeyFile :: string
  o_Insecure :: bool
  o_Metadata :: "(string \<times> string) list"
  o_SupportedVersions :: "string list"
  o_BridgeVersion :: string
  o_EnableBackpressure :: bool
  o_MaxInFlightDeliver :: int
  o_GracefulShutdownTimeout :: i64

section \<open>Sessions\<close>

text \<open>\<open>stream.Send\<close> of the server side of a gRPC stream, which the peer observes.\<close>

type_synonym ('v, 'w) server_send = "'v StreamResponse \<Rightarrow> 'w \<Rightarrow> 'w \<times> go_error option"

record ('v, 'w) session =
  ss_meta :: RegisterMeta
  ss_stream :: "('v, 'w) server_send"

text \<open>\<open>send\<close> holds \<open>sendMu\<close> for one call of \<open>stream.Send\<close>: calls do not overlap.\<close>

definition session_send ::
  "('v, 'w) session \<Rightarrow> 'v StreamResponse \<Rightarrow> 'w \<Rightarrow> 'w \<times> go_error option" where
  "session_send s resp w = ss_stream s resp w"

definition SendDeliver ::
  "('v, 'w) session \<Rightarrow> string \<times> pb_timestamp \<Rightarrow> 'v TransportEnvelope \<Rightarrow> 'w \<Rightarrow> 'w \<times> go_error option" where
  "SendDeliver s p env w =
     (let env' = NormalizeEnvelope p (Some env);
          resp = \<lparr>sp_Payload = Some (StreamResponse_Deliver (Some \<lparr>dlv_Envelope = env'\<rparr>))\<rparr>
      in session_send s resp w)"

definition SendBroadcast ::
  "('v, 'w) session \<Rightarrow> string \<times> pb_timestamp \<Rightarrow> 'v TransportEnvelope \<Rightarrow> 'w \<Rightarrow> 'w \<times> go_error option" where
  "SendBroadcast s p env w =
     (let env' = NormalizeEnvelope p (Some env);
          resp = \<lparr>sp_Payload = Some (StreamResponse_Broadcast
                    (Some (BroadcastFrame_Reset\<lparr>bc_Envelope := env'\<rparr>)))\<rparr>
      in session_send s resp w)"

definition SendHeartbeat ::
  "('v, 'w) session \<Rightarrow> string \<Rightarrow> 'w \<Rightarrow> 'w \<times> go_error option" where
  "SendHeartbeat s nonce w =
     session_send s
       \<lparr>sp_Payload = Some (StreamResponse_Heartbeat (Some \<lparr>hb_Nonce = nonce\<rparr>))\<rparr> w"

definition session_Metadata :: "('v, 'w) session \<Rightarrow> RegisterMeta" where
  "session_Metadata s = ss_meta s"

text \<open>\<open>Close\<close> of a session closes nothing: it reports the state of the stream's context.\<close>

definition session_Close :: "go_context \<Rightarrow> ('v, 'w) session \<Rightarrow> go_error option" where
  "session_Close stream_ctx s = ctx_err stream_ctx"

section \<open>The stream loop\<close>

text \<open>A call of one of the five methods of the interface \<open>Handler\<close>.\<close>

datatype 'v handler_call =
    OnRegister RegisterMeta
  | OnIngress "'v TransportEnvelope"
  | OnAck Ack
  | OnHeartbeat string
  | OnClose

type_synonym ('v, 'w) handler =
  "('v, 'w) session \<Rightarrow> 'v handler_call \<Rightarrow> 'w \<Rightarrow> 'w \<times> go_error option"

text \<open>The \<open>switch\<close> of the loop: the handler method a request leads to, if any.\<close>

definition dispatch :: "'v StreamRequest \<Rightarrow> 'v handler_call option" where
  "dispatch req =
     (case StreamRequest_GetPayload (Some req) of
        Some (StreamRequest_Ingress p) \<Rightarrow>
          (case p of
             None \<Rightarrow> None
           | Some i \<Rightarrow> map_option OnIngress (ing_Envelope i))
      | Some (StreamRequest_Ack p) \<Rightarrow>
          map_option
            (\<lambda>a. OnAck \<lparr>ak_MessageID = ack_MessageId a, ak_BroadcastID = ack_BroadcastId a,
                       ak_Status = '''', ak_Reason = ''''\<rparr>) p
      | Some (StreamRequest_Heartbeat p) \<Rightarrow>
          Some (OnHeartbeat (case p of None \<Rightarrow> '''' | Some h \<Rightarrow> hb_Nonce h))
      | Some (StreamRequest_Register p) \<Rightarrow> None
      | None \<Rightarrow> None)"

text \<open>
  The loop returns the state, the handler calls it made in order, and the error it returns:
  the handler's, or the one \<open>Recv\<close> ended with.
\<close>

fun stream_loop ::
  "('v, 'w) handler \<Rightarrow> ('v, 'w) session \<Rightarrow> 'v StreamRequest list \<Rightarrow> go_error \<Rightarrow> 'w \<Rightarrow>
     'w \<times> 'v handler_call list \<times> go_error" where
  "stream_loop h sess [] recv_err w = (w, [], recv_err)"
| "stream_loop h sess (req # reqs) recv_err w =
     (case dispatch req of
        None \<Rightarrow> stream_loop h sess reqs recv_err w
      | Some c \<Rightarrow>
          (case h sess c w of
             (w', Some e) \<Rightarrow> (w', [c], e)
           | (w', None) \<Rightarrow>
               (let (w'', cs, e) = stream_loop h sess reqs recv_err w' in (w'', c # cs, e))))"

definition register_meta :: "RegisterFrame \<Rightarrow> RegisterMeta" where
  "register_meta reg =
     \<lparr>rm_NodeID = reg_NodeId reg, rm_Namespace = reg_Namespace reg,
      rm_Version = reg_BridgeVersion reg\<rparr>"

definition bridgeService_Stream ::
  "('v, 'w) handler \<Rightarrow> ('v, 'w) server_send \<Rightarrow> 'v StreamRequest list \<Rightarrow> go_error \<Rightarrow> 'w \<Rightarrow>
     'w \<times> 'v handler_call list \<times> go_error" where
  "bridgeService_Stream h stream_Send recvd recv_err w =
     (case recvd of
        [] \<Rightarrow> (w, [], recv_err)
      | first # reqs \<Rightarrow>
          (case StreamRequest_GetRegister (Some first) of
             None \<Rightarrow> (w, [], ErrorsNew ''register frame required'')
           | Some reg \<Rightarrow>
               (let meta = register_meta reg;
                    sess = \<lparr>ss_meta = meta, ss_stream = stream_Send\<rparr>
                in case h sess (OnRegister meta) w of
                     (w1, Some e) \<Rightarrow> (w1, [OnRegister meta], e)
                   | (w1, None) \<Rightarrow>
                       (let (w2, cs, e) = stream_loop h sess reqs recv_err w1;
                            (w3, _) = h sess OnClose w2
                        in (w3, OnRegister meta # cs @ [OnClose], e)))))"

section \<open>The calls a stream makes\<close>

text \<open>The calls the requests of a session ask for, in order.\<close>

definition wanted_calls :: "'v StreamRequest list \<Rightarrow> 'v handler_call list" where
  "wanted_calls reqs = List.map_filter dispatch reqs"

lemma wanted_calls_simps [simp]:
  "wanted_calls [] = []"
  "wanted_calls (r # rs) = (case dispatch r of None \<Rightarrow> wanted_calls rs | Some c \<Rightarrow> c # wanted_calls rs)"
  unfolding wanted_calls_def by (auto simp: map_filter_simps split: option.split)

definition is_frame_call :: "'v handler_call \<Rightarrow> bool" where
  "is_frame_call c = (case c of OnIngress _ \<Rightarrow> True | OnAck _ \<Rightarrow> True | OnHeartbeat _ \<Rightarrow> True | _ \<Rightarrow> False)"

lemma is_frame_call_simps [simp]:
  "\<not> is_frame_call (OnRegister m)" "\<not> is_frame_call OnClose" "is_frame_call (OnIngress e)"
  "is_frame_call (OnAck a)" "is_frame_call (OnHeartbeat n)"
  by (simp_all add: is_frame_call_def)

lemma dispatch_frame_call: "dispatch req = Some c \<Longrightarrow> is_frame_call c"
  by (auto simp: dispatch_def is_frame_call_def
      split: option.splits StreamRequest_Payload.splits)

lemma wanted_calls_frame: "c \<in> set (wanted_calls reqs) \<Longrightarrow> is_frame_call c"
  by (induction reqs) (auto simp: dispatch_frame_call split: option.splits)

lemma stream_loop_prefix:
  "stream_loop h sess reqs err w = (w', cs, e) \<Longrightarrow> prefix cs (wanted_calls reqs)"
  by (induction reqs arbitrary: w w' cs e)
     (fastforce simp: Let_def split: option.splits prod.splits)+

lemma stream_loop_frame:
  "stream_loop h sess reqs err w = (w', cs, e) \<Longrightarrow> c \<in> set cs \<Longrightarrow> is_frame_call c"
  by (meson stream_loop_prefix set_mono_prefix subsetD wanted_calls_frame)

text \<open>A loop whose handler never fails makes every call asked for and ends with \<open>Recv\<close>'s error.\<close>

lemma stream_loop_all:
  assumes "\<And>c w. is_frame_call c \<Longrightarrow> snd (h sess c w) = None"
  shows "fst (snd (stream_loop h sess reqs err w)) = wanted_calls reqs \<and>
         snd (snd (stream_loop h sess reqs err w)) = err"
proof (induction reqs arbitrary: w)
  case Nil
  then show ?case by simp
next
  case (Cons req reqs)
  show ?case
  proof (cases "dispatch req")
    case None
    with Cons show ?thesis by simp
  next
    case (Some c)
    obtain w' where "h sess c w = (w', None)"
      using assms [OF dispatch_frame_call [OF Some], of w] by (cases "h sess c w") simp
    with Some Cons [of w'] show ?thesis by (auto split: prod.splits)
  qed
qed

text \<open>A loop that stops early stopped on the handler's error, at its last call.\<close>

lemma stream_loop_stops:
  "stream_loop h sess reqs err w = (w', cs, e) \<Longrightarrow> cs \<noteq> wanted_calls reqs \<Longrightarrow>
     \<exists>w0. cs \<noteq> [] \<and> h sess (last cs) w0 = (w', Some e)"
proof (induction reqs arbitrary: w w' cs e)
  case Nil
  then show ?case by simp
next
  case (Cons req reqs)
  show ?case
  proof (cases "dispatch req")
    case None
    with Cons show ?thesis by auto
  next
    case (Some c)
    obtain w1 r where hc: "h sess c w = (w1, r)" by fastforce
    show ?thesis
    proof (cases r)
      case None
      obtain w2 cs2 e2 where l: "stream_loop h sess reqs err w1 = (w2, cs2, e2)"
        by (metis prod_cases3)
      with Cons.prems Some hc None have "cs = c # cs2" and "w' = w2" and "e = e2" by auto
      with Cons.IH [OF l] Cons.prems(2) Some show ?thesis by auto
    next
      case (Some err')
      with \<open>dispatch req = Some c\<close> hc Cons.prems(1) show ?thesis by auto
    qed
  qed
qed

section \<open>The server's life cycle\<close>

text \<open>
  \<open>sv_grpcServer\<close> says that the pointer is set, \<open>sv_running\<close> and \<open>sv_open\<close> are the world the
  server acts on: whether the gRPC server accepts calls, and the listeners that are open.
\<close>

record server =
  sv_opts :: Options
  sv_grpcServer :: bool
  sv_lis :: "nat option"
  sv_stopOnce :: bool
  sv_running :: bool
  sv_open :: "nat list"

definition NewServer :: "Options \<Rightarrow> server go_result" where
  "NewServer opts =
     (if o_Address opts = '''' then Inl (ErrorsNew ''server address is required'')
      else Inr \<lparr>sv_opts = opts, sv_grpcServer = False, sv_lis = None, sv_stopOnce = False,
                sv_running = False, sv_open = []\<rparr>)"

text \<open>The transport credentials: none, or TLS with a list of certificates.\<close>

datatype 'c creds = InsecureCreds | TLSCreds "'c list"

definition server_creds ::
  "(string \<Rightarrow> string \<Rightarrow> go_error + 'c) \<Rightarrow> Options \<Rightarrow> 'c creds go_result" where
  "server_creds LoadX509KeyPair opts =
     (if \<not> o_Insecure opts
      then if o_TLSCertFile opts \<noteq> '''' \<and> o_TLSKeyFile opts \<noteq> ''''
           then (case LoadX509KeyPair (o_TLSCertFile opts) (o_TLSKeyFile opts) of
                   Inl e \<Rightarrow> Inl e
                 | Inr cert \<Rightarrow> Inr (TLSCreds [cert]))
           else Inr (TLSCreds [])
      else Inr InsecureCreds)"

text \<open>
  \<open>Serve\<close> up to the call \<open>srv.Serve(lis)\<close>, which blocks: an error it returned before, or the
  credentials it serves with. \<open>Listen\<close> is \<open>net.Listen\<close>.
\<close>

definition server_Serve ::
  "(string \<Rightarrow> go_error + nat) \<Rightarrow> (string \<Rightarrow> string \<Rightarrow> go_error + 'c) \<Rightarrow>
     ('v, 'w) handler option \<Rightarrow> server \<Rightarrow> server \<times> 'c creds go_result" where
  "server_Serve Listen LoadX509KeyPair h s =
     (case h of
        None \<Rightarrow> (s, Inl (ErrorsNew ''handler is required''))
      | Some _ \<Rightarrow>
          (case Listen (o_Address (sv_opts s)) of
             Inl e \<Rightarrow> (s, Inl (ErrWrap (''listen '' @ o_Address (sv_opts s)) e))
           | Inr l \<Rightarrow>
               (let s1 = s\<lparr>sv_lis := Some l, sv_open := l # sv_open s\<rparr>
                in case server_creds LoadX509KeyPair (sv_opts s1) of
                     Inl e \<Rightarrow> (s1, Inl e)
                   | Inr cr \<Rightarrow> (s1\<lparr>sv_grpcServer := True, sv_running := True\<rparr>, Inr cr))))"

definition server_Close :: "server \<Rightarrow> server \<times> go_error option" where
  "server_Close s =
     (if sv_stopOnce s then (s, None)
      else
        (let s1 = (if sv_grpcServer s then s\<lparr>sv_running := False\<rparr> else s);
             s2 = (case sv_lis s1 of
                     None \<Rightarrow> s1
                   | Some l \<Rightarrow> s1\<lparr>sv_open := removeAll l (sv_open s1)\<rparr>)
         in (s2\<lparr>sv_stopOnce := True\<rparr>, None)))"

interpretation server_once: once_guarded sv_stopOnce server_Close
  by unfold_locales (auto simp: server_Close_def Let_def split: option.split)

text \<open>Serving and then closing leaves no listener open and no gRPC server running.\<close>

lemma server_Close_releases:
  assumes "NewServer opts = Inr s"
  shows "sv_open (fst (server_Close (fst (server_Serve Listen Load h s)))) = [] \<and>
         \<not> sv_running (fst (server_Close (fst (server_Serve Listen Load h s))))"
  using assms
  by (auto simp: NewServer_def server_Serve_def server_Close_def Let_def
      split: option.splits sum.splits if_splits)

text \<open>Once closed, a server that is served again cannot be closed any more.\<close>

lemma server_Close_spent:
  "sv_stopOnce s \<Longrightarrow> server_Close (fst (server_Serve Listen Load h s)) =
     (fst (server_Serve Listen Load h s), None)"
  by (auto simp: server_Serve_def server_Close_def Let_def split: option.split sum.split)

end
