(* ===== verification/Delivery.thy ===== *)
theory Delivery
  imports Bridgepb
begin

text \<open>
  \<open>pkg/bridge/delivery.go\<close>: the envelope handed to a subscriber together with its
  acknowledgement, which runs at most once.

  An acknowledgement function acts on the bridge client; \<open>'w\<close> is the state it acts on, passed
  in and returned. A delivery pointer that may be nil and a context that may be nil are
  options. \<open>Ack\<close> returns the new state, the delivery with its \<open>sync.Once\<close> updated, and the
  error (\<open>None\<close> for nil).
\<close>

type_synonym 'w ack_fn = "go_context \<Rightarrow> 'w \<Rightarrow> 'w \<times> go_error option"

record ('v, 'w) Delivery =
  d_Envelope :: "'v TransportEnvelope option"
  d_ackFn :: "'w ack_fn option"
  d_ackOnce :: bool
  d_ackErr :: "go_error option"

definition newDelivery ::
  "'v TransportEnvelope option \<Rightarrow> 'w ack_fn \<Rightarrow> ('v, 'w) Delivery" where
  "newDelivery env ackFn =
     \<lparr>d_Envelope = env, d_ackFn = Some ackFn, d_ackOnce = False, d_ackErr = None\<rparr>"

definition Delivery_Ack ::
  "go_context option \<Rightarrow> ('v, 'w) Delivery option \<times> 'w \<Rightarrow>
     (('v, 'w) Delivery option \<times> 'w) \<times> go_error option" where
  "Delivery_Ack ctx s =
     (case s of (d, w) \<Rightarrow>
      (case d of
         None \<Rightarrow> (s, None)
       | Some dv \<Rightarrow>
          (case d_ackFn dv of
             None \<Rightarrow> (s, None)
           | Some f \<Rightarrow>
               if d_ackOnce dv then (s, d_ackErr dv)
               else
                 (let (w', e) = f (ctx_or_background ctx) w;
                      dv' = dv\<lparr>d_ackOnce := True, d_ackErr := e\<rparr>
                  in ((Some dv', w'), d_ackErr dv')))))"

record ('v, 'w) BroadcastDelivery =
  b_Envelope :: "'v TransportEnvelope option"
  b_BroadcastID :: string
  b_ackFn :: "'w ack_fn option"
  b_ackOnce :: bool
  b_ackErr :: "go_error option"

definition newBroadcastDelivery ::
  "'v TransportEnvelope option \<Rightarrow> string \<Rightarrow> 'w ack_fn \<Rightarrow> ('v, 'w) BroadcastDelivery" where
  "newBroadcastDelivery env broadcastID ackFn =
     \<lparr>b_Envelope = env, b_BroadcastID = broadcastID, b_ackFn = Some ackFn, b_ackOnce = False,
      b_ackErr = None\<rparr>"

definition BroadcastDelivery_Ack ::
  "go_context option \<Rightarrow> ('v, 'w) BroadcastDelivery option \<times> 'w \<Rightarrow>
     (('v, 'w) BroadcastDelivery option \<times> 'w) \<times> go_error option" where
  "BroadcastDelivery_Ack ctx s =
     (case s of (d, w) \<Rightarrow>
      (case d of
         None \<Rightarrow> (s, None)
       | Some dv \<Rightarrow>
          (case b_ackFn dv of
             None \<Rightarrow> (s, None)
           | Some f \<Rightarrow>
               if b_ackOnce dv then (s, b_ackErr dv)
               else
                 (let (w', e) = f (ctx_or_background ctx) w;
                      dv' = dv\<lparr>b_ackOnce := True, b_ackErr := e\<rparr>
                  in ((Some dv', w'), b_ackErr dv')))))"

section \<open>At most one acknowledgement\<close>

text \<open>An acknowledgement is spent when there is nothing left to run.\<close>

definition delivery_spent :: "('v, 'w) Delivery option \<times> 'w \<Rightarrow> bool" where
  "delivery_spent s =
     (case fst s of None \<Rightarrow> True | Some dv \<Rightarrow> d_ackFn dv = None \<or> d_ackOnce dv)"

definition broadcast_spent :: "('v, 'w) BroadcastDelivery option \<times> 'w \<Rightarrow> bool" where
  "broadcast_spent s =
     (case fst s of None \<Rightarrow> True | Some dv \<Rightarrow> b_ackFn dv = None \<or> b_ackOnce dv)"

lemmas [once_defs] =
  Delivery_Ack_def delivery_spent_def BroadcastDelivery_Ack_def broadcast_spent_def

interpretation delivery_once: once_guarded delivery_spent "Delivery_Ack ctx"
  by unfold_locales (auto simp: once_defs Let_def split: prod.splits option.splits)

interpretation broadcast_once: once_guarded broadcast_spent "BroadcastDelivery_Ack ctx"
  by unfold_locales (auto simp: once_defs Let_def split: prod.splits option.splits)

text \<open>The first call runs the function and keeps its error; later calls return that error.\<close>

lemma Delivery_Ack_first:
  "d_ackFn dv = Some f \<Longrightarrow> \<not> d_ackOnce dv \<Longrightarrow> f (ctx_or_background ctx) w = (w', e) \<Longrightarrow>
     Delivery_Ack ctx (Some dv, w) = ((Some (dv\<lparr>d_ackOnce := True, d_ackErr := e\<rparr>), w'), e)"
  by (simp add: Delivery_Ack_def)

lemma BroadcastDelivery_Ack_first:
  "b_ackFn dv = Some f \<Longrightarrow> \<not> b_ackOnce dv \<Longrightarrow> f (ctx_or_background ctx) w = (w', e) \<Longrightarrow>
     BroadcastDelivery_Ack ctx (Some dv, w) =
       ((Some (dv\<lparr>b_ackOnce := True, b_ackErr := e\<rparr>), w'), e)"
  by (simp add: BroadcastDelivery_Ack_def)

lemma Delivery_Ack_repeat:
  "Delivery_Ack ctx s = (s', e) \<Longrightarrow> Delivery_Ack ctx' s' = (s', e)"
  by (auto simp: Delivery_Ack_def Let_def split: prod.splits option.splits if_splits)

lemma BroadcastDelivery_Ack_repeat:
  "BroadcastDelivery_Ack ctx s = (s', e) \<Longrightarrow> BroadcastDelivery_Ack ctx' s' = (s', e)"
  by (auto simp: BroadcastDelivery_Ack_def Let_def split: prod.splits option.splits if_splits)

end
