(* ===== verification/Client.thy ===== *)
theory Client
  imports Server Delivery
begin

text \<open>
  \<open>pkg/bridge/client.go\<close>: the bridge client's state and every one of its operations, as
  functions on that state. \<open>Client_Steps\<close> puts them together as the goroutines do.

  The gRPC library and TLS are arguments (the record \<open>bridge_env\<close>). Connections and streams
  are named by numbers. The state carries, beside the fields of the Go struct, the world they
  act on: the frames sent so far with the stream each went to, the connections that are open,
  and the contexts that are live. A buffered channel is a queue with a capacity and a closed
  flag. An element of the delivery channel is the envelope with the message id its
  acknowledgement captured; \<open>client_delivery\<close> makes the \<open>Delivery\<close> of it.
\<close>

section \<open>Channels\<close>

record 'a chan =
  ch_buf :: "'a list"
  ch_cap :: nat
  ch_closed :: bool

definition make_chan :: "int \<Rightarrow> 'a chan" where
  "make_chan n = \<lparr>ch_buf = [], ch_cap = nat n, ch_closed = False\<rparr>"

definition chan_has_room :: "'a chan \<Rightarrow> bool" where
  "chan_has_room ch = (\<not> ch_closed ch \<and> length (ch_buf ch) < ch_cap ch)"

definition chan_push :: "'a \<Rightarrow> 'a chan \<Rightarrow> 'a chan" where
  "chan_push x ch = ch\<lparr>ch_buf := ch_buf ch @ [x]\<rparr>"

definition chan_wf :: "'a chan \<Rightarrow> bool" where
  "chan_wf ch = (length (ch_buf ch) \<le> ch_cap ch)"

lemma chan_push_wf: "chan_has_room ch \<Longrightarrow> chan_wf (chan_push x ch)"
  by (simp add: chan_has_room_def chan_push_def chan_wf_def)

lemma make_chan_wf [simp]: "chan_wf (make_chan n)"
  by (simp add: make_chan_def chan_wf_def)

section \<open>State\<close>

type_synonym 'v queued = "'v TransportEnvelope \<times> string"

record 'v client =
  cl_opts :: Options
  cl_deliverCh :: "'v queued chan"
  cl_broadcastCh :: "'v queued chan"
  cl_conn :: "nat option"
  cl_stream :: "nat option"
  cl_cancel :: "nat option"
  cl_runCancel :: bool
  cl_started :: bool
  cl_closed :: bool
  cl_startOnce :: bool
  cl_stopOnce :: bool
  cl_inflight :: "unit chan option"
  cl_wg :: nat
  cl_recvErr :: "go_error chan option"
  cl_sent :: "(nat \<times> 'v StreamRequest) list"
  cl_openConns :: "nat list"
  cl_liveCtxs :: "nat list"
  cl_nextCtx :: nat
  cl_runCtx :: go_context

text \<open>What the client calls outside the repository. \<open>DialContext\<close> gets the parent of the dial
  context and its timeout.\<close>

record ('v, 'c) bridge_env =
  be_LoadX509KeyPair :: "string \<Rightarrow> string \<Rightarrow> go_error + 'c"
  be_DialContext :: "go_context \<Rightarrow> i64 \<Rightarrow> string \<Rightarrow> 'c creds \<Rightarrow> go_error + nat"
  be_Stream :: "nat \<Rightarrow> go_context \<Rightarrow> go_error + nat"
  be_Send :: "nat \<Rightarrow> 'v StreamRequest \<Rightarrow> go_error option"
  be_CloseSend :: "nat \<Rightarrow> go_error option"

text \<open>
  Documented behaviour of gRPC: no stream is created on a context that is done.
\<close>

definition grpc_rejects_done :: "('v, 'c) bridge_env \<Rightarrow> bool" where
  "grpc_rejects_done env = (\<forall>conn ctx. ctx_done ctx \<longrightarrow> isl (be_Stream env conn ctx))"

section \<open>NewClient and Start\<close>

definition client_defaults :: "Options \<Rightarrow> Options" where
  "client_defaults opts =
     opts\<lparr>o_DeliverBuffer := (if o_DeliverBuffer opts \<le> 0 then 128 else o_DeliverBuffer opts),
          o_BroadcastBuffer := (if o_BroadcastBuffer opts \<le> 0 then 128 else o_BroadcastBuffer opts),
          o_SupportedVersions :=
            (if o_SupportedVersions opts = [] then [Version] else o_SupportedVersions opts),
          o_BridgeVersion :=
            (if o_BridgeVersion opts = '''' then Version else o_BridgeVersion opts)\<rparr>"

definition NewClient :: "Options \<Rightarrow> 'v client go_result" where
  "NewClient opts =
     (if o_Address opts = '''' then Inl (ErrorsNew ''bridge address is required'')
      else if o_NodeID opts = '''' then Inl (ErrorsNew ''node id is required'')
      else if o_Namespace opts = '''' then Inl (ErrorsNew ''namespace is required'')
      else
        (let opts = client_defaults opts
         in Inr \<lparr>cl_opts = opts,
                 cl_deliverCh = make_chan (o_DeliverBuffer opts),
                 cl_broadcastCh = make_chan (o_BroadcastBuffer opts),
                 cl_conn = None, cl_stream = None, cl_cancel = None, cl_runCancel = False,
                 cl_started = False, cl_closed = False, cl_startOnce = False,
                 cl_stopOnce = False,
                 cl_inflight =
                   (if o_EnableBackpressure opts \<and> 0 < o_MaxInFlightDeliver opts
                    then Some (make_chan (o_MaxInFlightDeliver opts)) else None),
                 cl_wg = 0, cl_recvErr = None,
                 cl_sent = [], cl_openConns = [], cl_liveCtxs = [], cl_nextCtx = 0,
                 cl_runCtx = Background\<rparr>))"

text \<open>\<open>Start\<close> launches the run goroutine, once, under a context derived from the caller's.\<close>

definition client_Start :: "go_context \<Rightarrow> 'v client \<Rightarrow> 'v client \<times> go_error option" where
  "client_Start ctx c =
     (if cl_startOnce c then (c, None)
      else (c\<lparr>cl_startOnce := True, cl_runCancel := True, cl_runCtx := ctx,
              cl_wg := cl_wg c + 1\<rparr>, None))"

section \<open>connect\<close>

definition client_creds ::
  "(string \<Rightarrow> string \<Rightarrow> go_error + 'c) \<Rightarrow> Options \<Rightarrow> 'c creds go_result" where
  "client_creds LoadX509KeyPair opts =
     (if o_Insecure opts then Inr InsecureCreds
      else if o_TLSCertFile opts \<noteq> '''' \<or> o_TLSKeyFile opts \<noteq> ''''
      then (case LoadX509KeyPair (o_TLSCertFile opts) (o_TLSKeyFile opts) of
              Inl e \<Rightarrow> Inl (ErrWrap ''load tls cert'' e)
            | Inr cert \<Rightarrow> Inr (TLSCreds [cert]))
      else Inr (TLSCreds []))"

definition dial_timeout :: "Options \<Rightarrow> i64" where
  "dial_timeout opts =
     (if sint (o_DialTimeout opts) \<le> 0 then 5000000000 else o_DialTimeout opts)"

text \<open>
  The first half of \<open>connect\<close>, up to the assignment of \<open>c.stream\<close>. The context of the
  connection is derived from the run context; the dial context is derived from it in turn and
  cancelled as soon as dialling returns, and with metadata configured the stream's context is
  derived from that one.
\<close>

definition connect_stream ::
  "('v, 'c) bridge_env \<Rightarrow> 'v client \<Rightarrow> 'v client \<times> go_error option" where
  "connect_stream env c =
     (let ctx = cl_runCtx c;
          gen = cl_nextCtx c;
          c1 = c\<lparr>cl_cancel := Some gen, cl_nextCtx := Suc gen,
                 cl_liveCtxs := (if ctx_done ctx then cl_liveCtxs c else gen # cl_liveCtxs c)\<rparr>
      in case client_creds (be_LoadX509KeyPair env) (cl_opts c1) of
           Inl e \<Rightarrow> (c1, Some e)
         | Inr cr \<Rightarrow>
             (case be_DialContext env ctx (dial_timeout (cl_opts c1)) (o_Address (cl_opts c1)) cr of
                Inl e \<Rightarrow> (c1, Some (ErrWrap ''dial bridge'' e))
              | Inr conn \<Rightarrow>
                  (let dctx = ctx_cancelled ctx;
                       c2 = c1\<lparr>cl_conn := Some conn, cl_openConns := conn # cl_openConns c1\<rparr>;
                       streamCtx =
                         (if o_Metadata (cl_opts c2) \<noteq> []
                          then dctx\<lparr>ctx_md := map_of (o_Metadata (cl_opts c2))\<rparr> else ctx)
                   in case be_Stream env conn streamCtx of
                        Inl e \<Rightarrow> (c2, Some (ErrWrap ''create stream'' e))
                      | Inr st \<Rightarrow> (c2\<lparr>cl_stream := Some st\<rparr>, None))))"

definition register_frame :: "Options \<Rightarrow> 'v StreamRequest" where
  "register_frame opts =
     \<lparr>sr_Payload = Some (StreamRequest_Register (Some
        \<lparr>reg_NodeId = o_NodeID opts, reg_Namespace = o_Namespace opts,
         reg_SupportedVersions = o_SupportedVersions opts,
         reg_BridgeVersion = o_BridgeVersion opts\<rparr>))\<rparr>"

text \<open>\<open>stream.Send\<close>: the frame is on its way when no error is returned.\<close>

definition stream_Send ::
  "('v, 'c) bridge_env \<Rightarrow> nat \<Rightarrow> 'v StreamRequest \<Rightarrow> 'v client \<Rightarrow> 'v client \<times> go_error option" where
  "stream_Send env st req c =
     (case be_Send env st req of
        Some e \<Rightarrow> (c, Some e)
      | None \<Rightarrow> (c\<lparr>cl_sent := cl_sent c @ [(st, req)]\<rparr>, None))"

text \<open>The second half of \<open>connect\<close>: the register frame, and the two goroutines of the connection.\<close>

definition connect_register ::
  "('v, 'c) bridge_env \<Rightarrow> nat \<Rightarrow> 'v client \<Rightarrow> 'v client \<times> go_error option" where
  "connect_register env st c =
     (case stream_Send env st (register_frame (cl_opts c)) c of
        (c', Some e) \<Rightarrow> (c', Some (ErrWrap ''send register'' e))
      | (c', None) \<Rightarrow>
          (c'\<lparr>cl_started := True, cl_recvErr := Some (make_chan 1), cl_wg := cl_wg c' + 1\<rparr>, None))"

definition connect ::
  "('v, 'c) bridge_env \<Rightarrow> 'v client \<Rightarrow> 'v client \<times> go_error option" where
  "connect env c =
     (case connect_stream env c of
        (c', Some e) \<Rightarrow> (c', Some e)
      | (c', None) \<Rightarrow>
          (case cl_stream c' of
             None \<Rightarrow> (c', None)
           | Some st \<Rightarrow> connect_register env st c'))"

section \<open>Reconnection back-off\<close>

definition base_backoff :: "Options \<Rightarrow> i64" where
  "base_backoff opts =
     (if sint (o_ReconnectBackoff opts) \<le> 0 then 1000000000 else o_ReconnectBackoff opts)"

definition max_backoff :: "Options \<Rightarrow> i64" where
  "max_backoff opts =
     (if sint (o_MaxReconnectBackoff opts) \<le> 0 then 15 * 1000000000
      else o_MaxReconnectBackoff opts)"

text \<open>The update of \<open>retry\<close> after a wait, on 64-bit durations.\<close>

definition next_backoff :: "i64 \<Rightarrow> i64 \<Rightarrow> i64" where
  "next_backoff maxRetry retry =
     (if sint retry < sint maxRetry
      then (let retry = retry * 2 in if sint retry > sint maxRetry then maxRetry else retry)
      else retry)"

section \<open>Sending\<close>

text \<open>
  \<open>acquireSlot\<close> and \<open>publish\<close> may wait, and a \<open>select\<close> with several ready cases takes any of
  them: these functions return the list of possible results, which is empty while the
  goroutine is blocked.
\<close>

definition acquireSlot :: "go_context \<Rightarrow> 'v client \<Rightarrow> ('v client \<times> go_error option) list" where
  "acquireSlot ctx c =
     (case cl_inflight c of
        None \<Rightarrow> [(c, None)]
      | Some ch \<Rightarrow>
          (if chan_has_room ch then [(c\<lparr>cl_inflight := Some (chan_push () ch)\<rparr>, None)] else []) @
          (if ctx_done ctx then [(c, ctx_err ctx)] else []))"

definition releaseSlot :: "'v client \<Rightarrow> 'v client" where
  "releaseSlot c =
     (case cl_inflight c of
        None \<Rightarrow> c
      | Some ch \<Rightarrow>
          (case ch_buf ch of
             [] \<Rightarrow> c
           | _ # rest \<Rightarrow> c\<lparr>cl_inflight := Some (ch\<lparr>ch_buf := rest\<rparr>)\<rparr>))"

definition ErrNotStarted :: go_error where
  "ErrNotStarted = ErrorsNew ''bridge client not started''"

text \<open>The panic of a method call on a nil interface value.\<close>

definition nil_stream_panic :: string where
  "nil_stream_panic = ''invalid memory address or nil pointer dereference''"

definition ingress_frame ::
  "string \<times> pb_timestamp \<Rightarrow> 'v TransportEnvelope \<Rightarrow> 'v StreamRequest" where
  "ingress_frame p e =
     \<lparr>sr_Payload = Some (StreamRequest_Ingress
        (Some \<lparr>ing_Envelope = NormalizeEnvelope p (Some e)\<rparr>))\<rparr>"

text \<open>\<open>PublishIngress\<close> between taking and releasing its slot.\<close>

definition publish_send ::
  "('v, 'c) bridge_env \<Rightarrow> string \<times> pb_timestamp \<Rightarrow> 'v TransportEnvelope \<Rightarrow> 'v client \<Rightarrow>
     ('v client \<times> go_error option) outcome" where
  "publish_send env p e c =
     (case cl_stream c of
        None \<Rightarrow> Panics nil_stream_panic
      | Some st \<Rightarrow> Returns (stream_Send env st (ingress_frame p e) c))"

text \<open>\<open>PublishIngress\<close> run without interruption.\<close>

definition PublishIngress ::
  "('v, 'c) bridge_env \<Rightarrow> go_context \<Rightarrow> string \<times> pb_timestamp \<Rightarrow> 'v TransportEnvelope \<Rightarrow>
     'v client \<Rightarrow> ('v client \<times> go_error option) outcome list" where
  "PublishIngress env ctx p e c =
     (if \<not> cl_started c then [Returns (c, Some ErrNotStarted)]
      else
        map (\<lambda>r. case r of
               (c1, Some err) \<Rightarrow> Returns (c1, Some err)
             | (c1, None) \<Rightarrow>
                 (case publish_send env p e c1 of
                    Panics m \<Rightarrow> Panics m
                  | Returns (c2, err) \<Rightarrow> Returns (releaseSlot c2, err)))
          (acquireSlot ctx c))"

definition heartbeat_frame :: "string \<Rightarrow> 'v StreamRequest" where
  "heartbeat_frame nonce =
     \<lparr>sr_Payload = Some (StreamRequest_Heartbeat (Some \<lparr>hb_Nonce = nonce\<rparr>))\<rparr>"

definition sendHeartbeat ::
  "('v, 'c) bridge_env \<Rightarrow> int \<Rightarrow> 'v client \<Rightarrow> 'v client outcome" where
  "sendHeartbeat env unixNano c =
     (if \<not> cl_started c then Returns c
      else
        (case cl_stream c of
           None \<Rightarrow> Panics nil_stream_panic
         | Some st \<Rightarrow>
             Returns (fst (stream_Send env st (heartbeat_frame (string_of_int unixNano)) c))))"

text \<open>
  The heartbeat loop sends one per tick of a ticker with this interval; \<open>time.NewTicker\<close> panics on
  an interval that is not positive, and this one always is.
\<close>

definition heartbeat_interval :: "Options \<Rightarrow> i64" where
  "heartbeat_interval opts =
     (if sint (o_HeartbeatInterval opts) \<le> 0 then 15000000000 else o_HeartbeatInterval opts)"

definition SubscribeDeliver :: "'v client \<Rightarrow> 'v queued chan go_result" where
  "SubscribeDeliver c = Inr (cl_deliverCh c)"

definition SubscribeBroadcast :: "'v client \<Rightarrow> 'v queued chan go_result" where
  "SubscribeBroadcast c = Inr (cl_broadcastCh c)"

definition ack_frame :: "string \<Rightarrow> string \<Rightarrow> 'v StreamRequest" where
  "ack_frame messageID broadcastID =
     \<lparr>sr_Payload = Some (StreamRequest_Ack
        (Some \<lparr>ack_MessageId = messageID, ack_BroadcastId = broadcastID\<rparr>))\<rparr>"

definition sendAck ::
  "('v, 'c) bridge_env \<Rightarrow> go_context option \<Rightarrow> string \<Rightarrow> string \<Rightarrow> 'v client \<Rightarrow>
     'v client \<times> go_error option" where
  "sendAck env ctx messageID broadcastID c =
     (if messageID = '''' \<and> broadcastID = '''' then (c, None)
      else
        (let ctx = ctx_or_background ctx
         in if ctx_done ctx then (c, ctx_err ctx)
            else
              (case cl_stream c of
                 None \<Rightarrow> (c, Some (ErrorsNew ''stream not ready''))
               | Some st \<Rightarrow> stream_Send env st (ack_frame messageID broadcastID) c)))"

section \<open>Receiving\<close>

text \<open>What \<open>consume\<close> makes of a response: a delivery, a broadcast, or nothing.\<close>

datatype 'v received =
    ToDeliver "'v queued"
  | ToBroadcast "'v queued"
  | Ignored

definition receive :: "'v StreamResponse \<Rightarrow> 'v received" where
  "receive resp =
     (case StreamResponse_GetPayload (Some resp) of
        Some (StreamResponse_Deliver p) \<Rightarrow>
          (case p of
             None \<Rightarrow> Ignored
           | Some f \<Rightarrow>
               (case dlv_Envelope f of
                  None \<Rightarrow> Ignored
                | Some e \<Rightarrow>
                    (let messageID =
                       (if TransportEnvelope_GetMessage (Some e) \<noteq> None
                        then Message_GetRequestId (TransportEnvelope_GetMessage (Some e))
                        else '''')
                     in ToDeliver (e, messageID))))
      | Some (StreamResponse_Broadcast p) \<Rightarrow>
          (case p of
             None \<Rightarrow> Ignored
           | Some f \<Rightarrow>
               (case bc_Envelope f of
                  None \<Rightarrow> Ignored
                | Some e \<Rightarrow> ToBroadcast (e, BroadcastFrame_GetBroadcastId p)))
      | Some (StreamResponse_Heartbeat p) \<Rightarrow> Ignored
      | None \<Rightarrow> Ignored)"

text \<open>The deliveries the subscribers read off the channels, with their acknowledgements.\<close>

definition client_delivery :: "('v, 'c) bridge_env \<Rightarrow> 'v queued \<Rightarrow> ('v, 'v client) Delivery" where
  "client_delivery env q =
     newDelivery (Some (fst q))
       (\<lambda>ctx c. if snd q = '''' then (c, None) else sendAck env (Some ctx) (snd q) '''' c)"

definition client_broadcast ::
  "('v, 'c) bridge_env \<Rightarrow> 'v queued \<Rightarrow> ('v, 'v client) BroadcastDelivery" where
  "client_broadcast env q =
     newBroadcastDelivery (Some (fst q)) (snd q)
       (\<lambda>ctx c. if snd q = '''' then (c, None) else sendAck env (Some ctx) '''' (snd q) c)"

section \<open>Closing\<close>

text \<open>Cancelling the context of a connection, and closing a connection.\<close>

definition cancel_ctx :: "nat \<Rightarrow> 'v client \<Rightarrow> 'v client" where
  "cancel_ctx gen c = c\<lparr>cl_liveCtxs := removeAll gen (cl_liveCtxs c)\<rparr>"

definition close_conn :: "nat \<Rightarrow> 'v client \<Rightarrow> 'v client" where
  "close_conn conn c = c\<lparr>cl_openConns := removeAll conn (cl_openConns c)\<rparr>"

text \<open>Cancelling the run context cancels every context derived from it.\<close>

definition run_cancel :: "'v client \<Rightarrow> 'v client" where
  "run_cancel c = c\<lparr>cl_runCtx := ctx_cancelled (cl_runCtx c), cl_liveCtxs := []\<rparr>"

definition cleanup :: "'v client \<Rightarrow> 'v client" where
  "cleanup c =
     (let c1 = (case cl_cancel c of
                  None \<Rightarrow> c | Some g \<Rightarrow> (cancel_ctx g c)\<lparr>cl_cancel := None\<rparr>);
          c2 = c1\<lparr>cl_stream := None\<rparr>;
          c3 = (case cl_conn c2 of
                  None \<Rightarrow> c2 | Some k \<Rightarrow> (close_conn k c2)\<lparr>cl_conn := None\<rparr>)
      in c3)"

definition client_Close ::
  "('v, 'c) bridge_env \<Rightarrow> 'v client \<Rightarrow> 'v client \<times> go_error option" where
  "client_Close env c =
     (if cl_stopOnce c then (c, None)
      else
        (let c1 = (if cl_runCancel c then run_cancel c else c);
             c2 = (case cl_cancel c1 of None \<Rightarrow> c1 | Some g \<Rightarrow> cancel_ctx g c1);
             err = (case cl_stream c2 of None \<Rightarrow> None | Some st \<Rightarrow> be_CloseSend env st);
             c3 = (case cl_conn c2 of None \<Rightarrow> c2 | Some k \<Rightarrow> close_conn k c2);
             c4 = c3\<lparr>cl_deliverCh := (cl_deliverCh c3)\<lparr>ch_closed := True\<rparr>,
                     cl_broadcastCh := (cl_broadcastCh c3)\<lparr>ch_closed := True\<rparr>,
                     cl_closed := True, cl_stopOnce := True\<rparr>
         in (c4, err)))"

text \<open>\<open>Drain\<close> closes the client and waits for \<open>wg\<close>, or for its context: the possible returns.\<close>

definition client_Drain ::
  "('v, 'c) bridge_env \<Rightarrow> go_context \<Rightarrow> 'v client \<Rightarrow> 'v client \<times> go_error option list" where
  "client_Drain env ctx c =
     (let c1 = fst (client_Close env c)
      in (c1, (if ctx_done ctx then [ctx_err ctx] else []) @ (if cl_wg c1 = 0 then [None] else [])))"

section \<open>Back-off\<close>

lemma sint_double:
  fixes r :: i64
  assumes "0 < sint r" and "sint r < 2 ^ 62"
  shows "sint (r * 2) = 2 * sint r"
proof -
  have "sint (r * 2) = signed_take_bit 63 (sint r * 2)"
    by (simp add: sint_word_ariths)
  also have "\<dots> = sint r * 2"
    using assms by (intro signed_take_bit_int_eq_self) auto
  finally show ?thesis by simp
qed

lemma sint_next_backoff:
  assumes "0 < sint r" and "sint r \<le> sint m" and "sint m \<le> 2 ^ 62"
  shows "sint (next_backoff m r) = min (2 * sint r) (sint m)"
  using assms sint_double [of r] by (auto simp: next_backoff_def Let_def)

text \<open>After \<open>n\<close> failed attempts the wait is the base doubled \<open>n\<close> times, cut at the maximum.\<close>

lemma sint_backoff_iterate:
  assumes "0 < sint r" and "sint r \<le> sint m" and "sint m \<le> 2 ^ 62"
  shows "sint ((next_backoff m ^^ n) r) = min (2 ^ n * sint r) (sint m)"
proof (induction n)
  case 0
  then show ?case using assms by simp
next
  case (Suc n)
  let ?w = "(next_backoff m ^^ n) r"
  have "0 < sint ?w" and "sint ?w \<le> sint m"
    using Suc assms by (auto simp: min_def)
  then have "sint (next_backoff m ?w) = min (2 * sint ?w) (sint m)"
    using assms by (intro sint_next_backoff)
  with Suc assms show ?case by (auto simp: min_def)
qed

text \<open>Above that bound doubling wraps around to a negative duration.\<close>

lemma next_backoff_overflows: "sint (next_backoff (2 ^ 63 - 1) (2 ^ 62 + 1)) < 0"
  by code_simp

lemma heartbeat_interval_positive: "0 < sint (heartbeat_interval opts)"
  by (simp add: heartbeat_interval_def)

lemma dial_timeout_positive: "0 < sint (dial_timeout opts)"
  by (simp add: dial_timeout_def)

lemma backoff_base_positive: "0 < sint (base_backoff opts)" "0 < sint (max_backoff opts)"
  by (auto simp: base_backoff_def max_backoff_def)

section \<open>connect\<close>

lemma stream_Send_cases:
  "stream_Send env st req c = (c', e) \<Longrightarrow>
     e = None \<and> c' = c\<lparr>cl_sent := cl_sent c @ [(st, req)]\<rparr> \<or> e \<noteq> None \<and> c' = c"
  by (auto simp: stream_Send_def split: option.splits)

lemma stream_Send_frame:
  "stream_Send env st req c = (c', e) \<Longrightarrow>
     \<exists>fs. c' = c\<lparr>cl_sent := cl_sent c @ fs\<rparr> \<and> fs = (if e = None then [(st, req)] else [])"
  by (auto simp: stream_Send_def split: option.splits)

text \<open>
  With metadata configured the stream is asked for on a context that is already cancelled, so
  a gRPC library that behaves as documented refuses it: no attempt ever succeeds.
\<close>

lemma connect_stream_metadata:
  assumes "grpc_rejects_done env" and "o_Metadata (cl_opts c) \<noteq> []"
  shows "snd (connect_stream env c) \<noteq> None \<and> cl_stream (fst (connect_stream env c)) = cl_stream c \<and>
         cl_started (fst (connect_stream env c)) = cl_started c \<and>
         cl_sent (fst (connect_stream env c)) = cl_sent c \<and>
         cl_opts (fst (connect_stream env c)) = cl_opts c"
proof -
  have rej: "ctx_done x \<Longrightarrow> \<exists>e. be_Stream env conn x = Inl e" for conn x
    using assms(1) by (auto simp: grpc_rejects_done_def isl_def)
  have dn: "ctx_done (ctx_cancelled x\<lparr>ctx_md := m\<rparr>)" for x m
    using ctx_done_cancelled [of x] by (simp add: ctx_done_def)
  show ?thesis
    using assms(2) rej [OF dn]
    by (auto simp: connect_stream_def Let_def split: sum.splits) (metis sum.distinct(1))+
qed

lemma connect_metadata:
  assumes "grpc_rejects_done env" and "o_Metadata (cl_opts c) \<noteq> []"
  shows "snd (connect env c) \<noteq> None \<and> cl_started (fst (connect env c)) = cl_started c \<and>
         cl_sent (fst (connect env c)) = cl_sent c \<and> cl_opts (fst (connect env c)) = cl_opts c"
  using connect_stream_metadata [OF assms]
  by (auto simp: connect_def split: prod.splits option.splits)

text \<open>Without metadata, and when nothing fails, the register frame is what a connection starts with.\<close>

lemma connect_registers:
  assumes "o_Metadata (cl_opts c) = []"
    and "client_creds (be_LoadX509KeyPair env) (cl_opts c) = Inr cr"
    and "be_DialContext env (cl_runCtx c) (dial_timeout (cl_opts c)) (o_Address (cl_opts c)) cr = Inr conn"
    and "be_Stream env conn (cl_runCtx c) = Inr st"
    and "be_Send env st (register_frame (cl_opts c)) = None"
  shows "snd (connect env c) = None \<and> cl_started (fst (connect env c)) \<and>
         cl_stream (fst (connect env c)) = Some st \<and> cl_conn (fst (connect env c)) = Some conn \<and>
         cl_sent (fst (connect env c)) = cl_sent c @ [(st, register_frame (cl_opts c))]"
  using assms
  by (simp add: connect_def connect_stream_def connect_register_def stream_Send_def Let_def)

text \<open>A handshake that fails after dialling leaves its connection open.\<close>

lemma connect_stream_refused:
  assumes "client_creds (be_LoadX509KeyPair env) (cl_opts c) = Inr cr"
    and "be_DialContext env (cl_runCtx c) (dial_timeout (cl_opts c)) (o_Address (cl_opts c)) cr = Inr conn"
    and "\<And>ctx. isl (be_Stream env conn ctx)"
  shows "cl_openConns (fst (connect env c)) = conn # cl_openConns c \<and>
         cl_conn (fst (connect env c)) = Some conn \<and> cl_opts (fst (connect env c)) = cl_opts c \<and>
         cl_runCtx (fst (connect env c)) = cl_runCtx c \<and> snd (connect env c) \<noteq> None"
proof -
  obtain e1 where e1: "be_Stream env conn (cl_runCtx c) = Inl e1"
    using assms(3) by (metis isl_def)
  obtain e2 where
    e2: "be_Stream env conn (ctx_cancelled (cl_runCtx c)\<lparr>ctx_md := map_of (o_Metadata (cl_opts c))\<rparr>) = Inl e2"
    using assms(3) by (metis isl_def)
  show ?thesis
    using assms(1,2) e1 e2 by (simp add: connect_def connect_stream_def Let_def)
qed

section \<open>Acknowledgements\<close>

lemma sendAck_sent:
  "sendAck env ctx mid bid c = (c', e) \<Longrightarrow>
     cl_sent c' = cl_sent c \<or>
     (\<exists>st. cl_stream c = Some st \<and> (mid \<noteq> '''' \<or> bid \<noteq> '''') \<and>
           cl_sent c' = cl_sent c @ [(st, ack_frame mid bid)])"
  by (auto simp: sendAck_def stream_Send_def Let_def split: option.splits if_splits)

text \<open>What \<open>receive\<close> makes of what a session sends.\<close>

lemma receive_Deliver:
  "receive \<lparr>sp_Payload = Some (StreamResponse_Deliver (Some \<lparr>dlv_Envelope = Some e\<rparr>))\<rparr> =
     ToDeliver (e, Message_GetRequestId (env_Message e))"
  by (auto simp: receive_def getter_defs split: option.splits)

lemma receive_Broadcast:
  "receive \<lparr>sp_Payload = Some (StreamResponse_Broadcast
       (Some (BroadcastFrame_Reset\<lparr>bc_Envelope := Some e\<rparr>)))\<rparr> =
     ToBroadcast (e, '''')"
  by (simp add: receive_def getter_defs BroadcastFrame_Reset_def)

section \<open>Closing\<close>

lemma cleanup_fields [simp]:
  "cl_stream (cleanup c) = None" "cl_conn (cleanup c) = None" "cl_cancel (cleanup c) = None"
  "cl_started (cleanup c) = cl_started c" "cl_opts (cleanup c) = cl_opts c"
  "cl_sent (cleanup c) = cl_sent c" "cl_inflight (cleanup c) = cl_inflight c"
  "cl_deliverCh (cleanup c) = cl_deliverCh c" "cl_broadcastCh (cleanup c) = cl_broadcastCh c"
  "cl_stopOnce (cleanup c) = cl_stopOnce c" "cl_wg (cleanup c) = cl_wg c"
  "cl_recvErr (cleanup c) = cl_recvErr c" "cl_runCtx (cleanup c) = cl_runCtx c"
  by (simp_all add: cleanup_def cancel_ctx_def close_conn_def Let_def split: option.splits)

lemma cleanup_openConns:
  "cl_openConns (cleanup c) =
     (case cl_conn c of None \<Rightarrow> cl_openConns c | Some k \<Rightarrow> removeAll k (cl_openConns c))"
  by (simp add: cleanup_def cancel_ctx_def close_conn_def Let_def split: option.splits)

interpretation client_close_once: once_guarded cl_stopOnce "client_Close env"
  by unfold_locales (auto simp: client_Close_def Let_def)

interpretation client_start_once: once_guarded cl_startOnce "client_Start ctx"
  by unfold_locales (auto simp: client_Start_def)

lemma client_Close_fields:
  "\<not> cl_stopOnce c \<Longrightarrow>
     ch_closed (cl_deliverCh (fst (client_Close env c))) \<and>
     ch_closed (cl_broadcastCh (fst (client_Close env c))) \<and>
     cl_closed (fst (client_Close env c)) \<and> cl_stopOnce (fst (client_Close env c)) \<and>
     cl_stream (fst (client_Close env c)) = cl_stream c \<and>
     cl_started (fst (client_Close env c)) = cl_started c \<and>
     cl_sent (fst (client_Close env c)) = cl_sent c \<and>
     cl_inflight (fst (client_Close env c)) = cl_inflight c \<and>
     cl_opts (fst (client_Close env c)) = cl_opts c \<and> cl_wg (fst (client_Close env c)) = cl_wg c \<and>
     (cl_runCancel c \<longrightarrow> ctx_done (cl_runCtx (fst (client_Close env c))) \<and>
        cl_liveCtxs (fst (client_Close env c)) = [])"
  by (auto simp: client_Close_def Let_def cancel_ctx_def close_conn_def run_cancel_def
      split: option.splits)

text \<open>A subscriber that asks after \<open>Close\<close> still gets what is queued, and then the end.\<close>

lemma subscription_after_Close:
  assumes "\<not> cl_stopOnce c" and "SubscribeDeliver (fst (client_Close env c)) = Inr ch"
    and "SubscribeBroadcast (fst (client_Close env c)) = Inr ch'"
  shows "ch_closed ch \<and> ch_buf ch = ch_buf (cl_deliverCh c)"
    and "ch_closed ch' \<and> ch_buf ch' = ch_buf (cl_broadcastCh c)"
  using assms
  by (auto simp: SubscribeDeliver_def SubscribeBroadcast_def client_Close_def run_cancel_def
      cancel_ctx_def close_conn_def Let_def split: option.splits)

end
