(* ===== verification/Client_Steps.thy ===== *)
theory Client_Steps
  imports Client
begin

text \<open>
  The goroutines of the bridge client as a labelled step relation: the run loop, the consumer
  and the heartbeat loop of each connection, the callers of \<open>PublishIngress\<close> between taking and
  releasing their slot, and the subscribers. A step is one goroutine moving between two points
  where another can run; which one moves, what the network answers (\<open>env\<close>) and which ready
  case a \<open>select\<close> takes are not determined. A panic ends the process: no step leaves a state
  with \<open>sy_panic\<close> set.
\<close>

section \<open>States\<close>

text \<open>
  \<open>sy_taken\<close> and \<open>sy_takenB\<close> hold the deliveries the subscribers have read off the two channels,
  each with its \<open>sync.Once\<close>: whether it was acknowledged. A later \<open>Ack\<close> of the same delivery
  changes nothing (\<open>Delivery_Ack_repeat\<close>), so only first ones are steps.
\<close>

text \<open>Where the run goroutine stands; \<open>retry\<close> is its back-off variable.\<close>

datatype run_pc =
    RunIdle
  | RunConnecting i64
  | RunRegistering i64 nat
  | RunBackoff i64
  | RunConnected
  | RunFinished

text \<open>
  Where a consumer stands: about to call \<open>c.stream.Recv()\<close>, inside \<open>Recv\<close> on the stream it read
  from the client then, or handing a response to its channel.
\<close>

datatype 'v consumer_pc = Receiving | InRecv nat | Handing "'v received"

datatype 'v publisher =
    PubSending "string \<times> pb_timestamp" "'v TransportEnvelope"
  | PubReleasing "go_error option"

record 'v sys =
  sy_client :: "'v client"
  sy_run :: run_pc
  sy_cons :: "(nat \<times> 'v consumer_pc) list"
  sy_hbs :: "nat list"
  sy_pubs :: "'v publisher list"
  sy_taken :: "('v queued \<times> bool) list"
  sy_takenB :: "('v queued \<times> bool) list"
  sy_panic :: "string option"

definition init_sys :: "'v client \<Rightarrow> 'v sys" where
  "init_sys c =
     \<lparr>sy_client = c, sy_run = RunIdle, sy_cons = [], sy_hbs = [], sy_pubs = [], sy_taken = [],
      sy_takenB = [], sy_panic = None\<rparr>"

datatype 'v event =
    EvStart go_context
  | EvConnect
  | EvRegister
  | EvTimer
  | EvRunDone
  | EvConnLost
  | EvRecvCall
  | EvRecv "'v StreamResponse"
  | EvRecvErr go_error
  | EvHand
  | EvConsumerExit
  | EvPublish go_context "string \<times> pb_timestamp" "'v TransportEnvelope"
  | EvPubSend
  | EvPubRelease
  | EvHeartbeat int
  | EvHeartbeatExit
  | EvTake
  | EvAck "go_context option"
  | EvClose
  | EvCancel

definition closed_channel_panic :: string where
  "closed_channel_panic = ''send on closed channel''"

section \<open>Steps\<close>

inductive client_step ::
  "('v, 'c) bridge_env \<Rightarrow> 'v sys \<Rightarrow> 'v event \<Rightarrow> 'v sys \<Rightarrow> bool" where
  start_first:
    "sy_panic s = None \<Longrightarrow> \<not> cl_startOnce (sy_client s) \<Longrightarrow>
     client_step env s (EvStart ctx)
       (s\<lparr>sy_client := fst (client_Start ctx (sy_client s)),
          sy_run := RunConnecting (base_backoff (cl_opts (sy_client s)))\<rparr>)"
| start_again:
    "sy_panic s = None \<Longrightarrow> cl_startOnce (sy_client s) \<Longrightarrow> client_step env s (EvStart ctx) s"
| connect_ok:
    "sy_panic s = None \<Longrightarrow> sy_run s = RunConnecting r \<Longrightarrow>
     connect_stream env (sy_client s) = (c', None) \<Longrightarrow> cl_stream c' = Some st \<Longrightarrow>
     client_step env s EvConnect (s\<lparr>sy_client := c', sy_run := RunRegistering r st\<rparr>)"
| connect_fail:
    "sy_panic s = None \<Longrightarrow> sy_run s = RunConnecting r \<Longrightarrow>
     connect_stream env (sy_client s) = (c', Some e) \<Longrightarrow>
     client_step env s EvConnect (s\<lparr>sy_client := c', sy_run := RunBackoff r\<rparr>)"
| register_ok:
    "sy_panic s = None \<Longrightarrow> sy_run s = RunRegistering r st \<Longrightarrow>
     connect_register env st (sy_client s) = (c', None) \<Longrightarrow> cl_cancel c' = Some g \<Longrightarrow>
     client_step env s EvRegister
       (s\<lparr>sy_client := c', sy_run := RunConnected, sy_cons := (g, Receiving) # sy_cons s,
          sy_hbs := g # sy_hbs s\<rparr>)"
| register_fail:
    "sy_panic s = None \<Longrightarrow> sy_run s = RunRegistering r st \<Longrightarrow>
     connect_register env st (sy_client s) = (c', Some e) \<Longrightarrow>
     client_step env s EvRegister (s\<lparr>sy_client := c', sy_run := RunBackoff r\<rparr>)"
| timer:
    "sy_panic s = None \<Longrightarrow> sy_run s = RunBackoff r \<Longrightarrow>
     client_step env s EvTimer
       (s\<lparr>sy_run := RunConnecting (next_backoff (max_backoff (cl_opts (sy_client s))) r)\<rparr>)"
| backoff_done:
    "sy_panic s = None \<Longrightarrow> sy_run s = RunBackoff r \<Longrightarrow> ctx_done (cl_runCtx (sy_client s)) \<Longrightarrow>
     client_step env s EvRunDone
       (s\<lparr>sy_client := (sy_client s)\<lparr>cl_wg := cl_wg (sy_client s) - 1\<rparr>, sy_run := RunFinished\<rparr>)"
| connected_done:
    "sy_panic s = None \<Longrightarrow> sy_run s = RunConnected \<Longrightarrow> ctx_done (cl_runCtx (sy_client s)) \<Longrightarrow>
     c' = cleanup (sy_client s) \<Longrightarrow>
     client_step env s EvRunDone
       (s\<lparr>sy_client := c'\<lparr>cl_wg := cl_wg c' - 1\<rparr>, sy_run := RunFinished\<rparr>)"
| connected_lost:
    "sy_panic s = None \<Longrightarrow> sy_run s = RunConnected \<Longrightarrow> cl_recvErr (sy_client s) = Some ch \<Longrightarrow>
     ch_buf ch = e # rest \<Longrightarrow> \<not> ctx_done (cl_runCtx (sy_client s)) \<Longrightarrow>
     client_step env s EvConnLost
       (s\<lparr>sy_client := cleanup ((sy_client s)\<lparr>cl_recvErr := Some (ch\<lparr>ch_buf := rest\<rparr>)\<rparr>),
          sy_run := RunConnecting (base_backoff (cl_opts (sy_client s)))\<rparr>)"
| connected_lost_done:
    "sy_panic s = None \<Longrightarrow> sy_run s = RunConnected \<Longrightarrow> cl_recvErr (sy_client s) = Some ch \<Longrightarrow>
     ch_buf ch = e # rest \<Longrightarrow> ctx_done (cl_runCtx (sy_client s)) \<Longrightarrow>
     c' = cleanup ((sy_client s)\<lparr>cl_recvErr := Some (ch\<lparr>ch_buf := rest\<rparr>)\<rparr>) \<Longrightarrow>
     client_step env s EvConnLost
       (s\<lparr>sy_client := c'\<lparr>cl_wg := cl_wg c' - 1\<rparr>, sy_run := RunFinished\<rparr>)"
| recv_call:
    "sy_panic s = None \<Longrightarrow> sy_cons s = xs @ (g, Receiving) # ys \<Longrightarrow>
     cl_stream (sy_client s) = Some st \<Longrightarrow>
     client_step env s EvRecvCall (s\<lparr>sy_cons := xs @ (g, InRecv st) # ys\<rparr>)"
| recv_nil:
    "sy_panic s = None \<Longrightarrow> sy_cons s = xs @ (g, Receiving) # ys \<Longrightarrow>
     cl_stream (sy_client s) = None \<Longrightarrow>
     client_step env s EvRecvCall (s\<lparr>sy_panic := Some nil_stream_panic\<rparr>)"
| recv:
    "sy_panic s = None \<Longrightarrow> sy_cons s = xs @ (g, InRecv st) # ys \<Longrightarrow>
     client_step env s (EvRecv resp)
       (s\<lparr>sy_cons := xs @ (g, (case receive resp of Ignored \<Rightarrow> Receiving | d \<Rightarrow> Handing d)) # ys\<rparr>)"
| recv_err:
    "sy_panic s = None \<Longrightarrow> sy_cons s = xs @ (g, InRecv st) # ys \<Longrightarrow>
     cl_recvErr (sy_client s) = Some ch \<Longrightarrow> chan_has_room ch \<Longrightarrow>
     client_step env s (EvRecvErr e)
       (s\<lparr>sy_client := (sy_client s)\<lparr>cl_recvErr := Some (chan_push e ch)\<rparr>, sy_cons := xs @ ys\<rparr>)"
| recv_err_unset:
    "sy_panic s = None \<Longrightarrow> sy_cons s = xs @ (g, InRecv st) # ys \<Longrightarrow>
     cl_recvErr (sy_client s) = None \<Longrightarrow>
     client_step env s (EvRecvErr e) (s\<lparr>sy_cons := xs @ ys\<rparr>)"
| hand_deliver:
    "sy_panic s = None \<Longrightarrow> sy_cons s = xs @ (g, Handing (ToDeliver q)) # ys \<Longrightarrow>
     chan_has_room (cl_deliverCh (sy_client s)) \<Longrightarrow>
     client_step env s EvHand
       (s\<lparr>sy_client := (sy_client s)\<lparr>cl_deliverCh := chan_push q (cl_deliverCh (sy_client s))\<rparr>,
          sy_cons := xs @ (g, Receiving) # ys\<rparr>)"
| hand_deliver_closed:
    "sy_panic s = None \<Longrightarrow> sy_cons s = xs @ (g, Handing (ToDeliver q)) # ys \<Longrightarrow>
     ch_closed (cl_deliverCh (sy_client s)) \<Longrightarrow>
     client_step env s EvHand (s\<lparr>sy_panic := Some closed_channel_panic\<rparr>)"
| hand_broadcast:
    "sy_panic s = None \<Longrightarrow> sy_cons s = xs @ (g, Handing (ToBroadcast q)) # ys \<Longrightarrow>
     chan_has_room (cl_broadcastCh (sy_client s)) \<Longrightarrow>
     client_step env s EvHand
       (s\<lparr>sy_client := (sy_client s)\<lparr>cl_broadcastCh := chan_push q (cl_broadcastCh (sy_client s))\<rparr>,
          sy_cons := xs @ (g, Receiving) # ys\<rparr>)"
| hand_broadcast_closed:
    "sy_panic s = None \<Longrightarrow> sy_cons s = xs @ (g, Handing (ToBroadcast q)) # ys \<Longrightarrow>
     ch_closed (cl_broadcastCh (sy_client s)) \<Longrightarrow>
     client_step env s EvHand (s\<lparr>sy_panic := Some closed_channel_panic\<rparr>)"
| consumer_exit:
    "sy_panic s = None \<Longrightarrow> sy_cons s = xs @ (g, Handing d) # ys \<Longrightarrow>
     g \<notin> set (cl_liveCtxs (sy_client s)) \<Longrightarrow>
     client_step env s EvConsumerExit (s\<lparr>sy_cons := xs @ ys\<rparr>)"
| publish_not_started:
    "sy_panic s = None \<Longrightarrow> \<not> cl_started (sy_client s) \<Longrightarrow> client_step env s (EvPublish ctx p e) s"
| publish_acquire:
    "sy_panic s = None \<Longrightarrow> cl_started (sy_client s) \<Longrightarrow>
     (c', None) \<in> set (acquireSlot ctx (sy_client s)) \<Longrightarrow>
     client_step env s (EvPublish ctx p e)
       (s\<lparr>sy_client := c', sy_pubs := PubSending p e # sy_pubs s\<rparr>)"
| publish_ctx:
    "sy_panic s = None \<Longrightarrow> cl_started (sy_client s) \<Longrightarrow>
     (c', Some err) \<in> set (acquireSlot ctx (sy_client s)) \<Longrightarrow>
     client_step env s (EvPublish ctx p e) (s\<lparr>sy_client := c'\<rparr>)"
| publish_send:
    "sy_panic s = None \<Longrightarrow> sy_pubs s = xs @ PubSending p e # ys \<Longrightarrow>
     publish_send env p e (sy_client s) = Returns (c', err) \<Longrightarrow>
     client_step env s EvPubSend (s\<lparr>sy_client := c', sy_pubs := xs @ PubReleasing err # ys\<rparr>)"
| publish_panic:
    "sy_panic s = None \<Longrightarrow> sy_pubs s = xs @ PubSending p e # ys \<Longrightarrow>
     publish_send env p e (sy_client s) = Panics m \<Longrightarrow>
     client_step env s EvPubSend (s\<lparr>sy_panic := Some m\<rparr>)"
| publish_release:
    "sy_panic s = None \<Longrightarrow> sy_pubs s = xs @ PubReleasing err # ys \<Longrightarrow>
     client_step env s EvPubRelease
       (s\<lparr>sy_client := releaseSlot (sy_client s), sy_pubs := xs @ ys\<rparr>)"
| heartbeat:
    "sy_panic s = None \<Longrightarrow> g \<in> set (sy_hbs s) \<Longrightarrow> sendHeartbeat env n (sy_client s) = Returns c' \<Longrightarrow>
     client_step env s (EvHeartbeat n) (s\<lparr>sy_client := c'\<rparr>)"
| heartbeat_panic:
    "sy_panic s = None \<Longrightarrow> g \<in> set (sy_hbs s) \<Longrightarrow> sendHeartbeat env n (sy_client s) = Panics m \<Longrightarrow>
     client_step env s (EvHeartbeat n) (s\<lparr>sy_panic := Some m\<rparr>)"
| heartbeat_exit:
    "sy_panic s = None \<Longrightarrow> sy_hbs s = xs @ g # ys \<Longrightarrow> g \<notin> set (cl_liveCtxs (sy_client s)) \<Longrightarrow>
     client_step env s EvHeartbeatExit
       (s\<lparr>sy_client := (sy_client s)\<lparr>cl_wg := cl_wg (sy_client s) - 1\<rparr>, sy_hbs := xs @ ys\<rparr>)"
| take_deliver:
    "sy_panic s = None \<Longrightarrow> ch_buf (cl_deliverCh (sy_client s)) = q # rest \<Longrightarrow>
     client_step env s EvTake
       (s\<lparr>sy_client := (sy_client s)\<lparr>cl_deliverCh := (cl_deliverCh (sy_client s))\<lparr>ch_buf := rest\<rparr>\<rparr>,
          sy_taken := (q, False) # sy_taken s\<rparr>)"
| take_broadcast:
    "sy_panic s = None \<Longrightarrow> ch_buf (cl_broadcastCh (sy_client s)) = q # rest \<Longrightarrow>
     client_step env s EvTake
       (s\<lparr>sy_client := (sy_client s)\<lparr>cl_broadcastCh := (cl_broadcastCh (sy_client s))\<lparr>ch_buf := rest\<rparr>\<rparr>,
          sy_takenB := (q, False) # sy_takenB s\<rparr>)"
| ack_deliver:
    "sy_panic s = None \<Longrightarrow> sy_taken s = xs @ (q, False) # ys \<Longrightarrow>
     Delivery_Ack ctx (Some (client_delivery env q), sy_client s) = ((d, c'), err) \<Longrightarrow>
     client_step env s (EvAck ctx) (s\<lparr>sy_client := c', sy_taken := xs @ (q, True) # ys\<rparr>)"
| ack_broadcast:
    "sy_panic s = None \<Longrightarrow> sy_takenB s = xs @ (q, False) # ys \<Longrightarrow>
     BroadcastDelivery_Ack ctx (Some (client_broadcast env q), sy_client s) = ((d', c'), err) \<Longrightarrow>
     client_step env s (EvAck ctx) (s\<lparr>sy_client := c', sy_takenB := xs @ (q, True) # ys\<rparr>)"
| close:
    "sy_panic s = None \<Longrightarrow> client_step env s EvClose (s\<lparr>sy_client := fst (client_Close env (sy_client s))\<rparr>)"
| cancel:
    "sy_panic s = None \<Longrightarrow> cl_runCancel (sy_client s) \<Longrightarrow>
     client_step env s EvCancel (s\<lparr>sy_client := run_cancel (sy_client s)\<rparr>)"

inductive_simps panicked_stuck: "client_step env (s\<lparr>sy_panic := Some m\<rparr>) ev s'"

text \<open>A run: the environment may answer differently at every step.\<close>

inductive client_run ::
  "'v sys \<Rightarrow> (('v, 'c) bridge_env \<times> 'v event) list \<Rightarrow> 'v sys \<Rightarrow> bool" where
  run_Nil: "client_run s [] s"
| run_snoc: "client_run s tr s' \<Longrightarrow> client_step env s' ev s'' \<Longrightarrow> client_run s (tr @ [(env, ev)]) s''"

text \<open>The states a client built by \<open>NewClient\<close> can reach.\<close>

definition client_reaches ::
  "Options \<Rightarrow> (('v, 'c) bridge_env \<times> 'v event) list \<Rightarrow> 'v sys \<Rightarrow> bool" where
  "client_reaches opts tr s =
     (case NewClient opts of Inl _ \<Rightarrow> False | Inr c \<Rightarrow> client_run (init_sys c) tr s)"

lemma client_run_invariant:
  fixes tr :: "(('v, 'c) bridge_env \<times> 'v event) list"
  assumes run: "client_run s0 tr s" and init: "P s0"
    and step: "\<And>(env :: ('v, 'c) bridge_env) s ev s'. P s \<Longrightarrow> client_step env s ev s' \<Longrightarrow> P s'"
  shows "P s"
  using run init by (induction rule: client_run.induct) (auto intro: step)

lemma client_run_append:
  "client_run s2 tr2 s3 \<Longrightarrow> client_run s1 tr1 s2 \<Longrightarrow> client_run s1 (tr1 @ tr2) s3"
proof (induction rule: client_run.induct)
  case (run_Nil s)
  then show ?case by simp
next
  case (run_snoc s tr s' env ev s'')
  then have "client_run s1 ((tr1 @ tr) @ [(env, ev)]) s''"
    by (blast intro: client_run.run_snoc)
  then show ?case by simp
qed

lemma client_run_one: "client_step env s ev s' \<Longrightarrow> client_run s [(env, ev)] s'"
  using run_snoc [OF run_Nil, of env s ev s'] by simp

section \<open>What the operations leave alone\<close>

lemma connect_stream_fields:
  "connect_stream env c = (c', e) \<Longrightarrow>
     cl_opts c' = cl_opts c \<and> cl_deliverCh c' = cl_deliverCh c \<and> cl_broadcastCh c' = cl_broadcastCh c \<and>
     cl_started c' = cl_started c \<and> cl_inflight c' = cl_inflight c \<and> cl_sent c' = cl_sent c \<and>
     cl_wg c' = cl_wg c \<and> cl_stopOnce c' = cl_stopOnce c \<and> cl_startOnce c' = cl_startOnce c \<and>
     cl_recvErr c' = cl_recvErr c \<and> cl_runCtx c' = cl_runCtx c \<and> cl_runCancel c' = cl_runCancel c \<and>
     cl_cancel c' \<noteq> None \<and> (e = None \<longrightarrow> cl_stream c' \<noteq> None \<and> cl_conn c' \<noteq> None) \<and>
     (e \<noteq> None \<longrightarrow> cl_stream c' = cl_stream c)"
  by (auto simp: connect_stream_def Let_def split: sum.splits)

lemma connect_register_fields:
  "connect_register env st c = (c', e) \<Longrightarrow>
     cl_opts c' = cl_opts c \<and> cl_deliverCh c' = cl_deliverCh c \<and> cl_broadcastCh c' = cl_broadcastCh c \<and>
     cl_inflight c' = cl_inflight c \<and> cl_stream c' = cl_stream c \<and> cl_conn c' = cl_conn c \<and>
     cl_stopOnce c' = cl_stopOnce c \<and> cl_startOnce c' = cl_startOnce c \<and> cl_runCtx c' = cl_runCtx c \<and>
     cl_cancel c' = cl_cancel c \<and> cl_runCancel c' = cl_runCancel c \<and>
     (e = None \<longrightarrow> cl_started c' \<and> cl_wg c' = Suc (cl_wg c) \<and>
        cl_sent c' = cl_sent c @ [(st, register_frame (cl_opts c))]) \<and>
     (e \<noteq> None \<longrightarrow> c' = c)"
  by (auto simp: connect_register_def split: prod.splits option.splits dest!: stream_Send_cases)

lemma acquireSlot_fields:
  "(c', e) \<in> set (acquireSlot ctx c) \<Longrightarrow>
     \<exists>ch. c' = c\<lparr>cl_inflight := ch\<rparr> \<and>
       (e \<noteq> None \<longrightarrow> ch = cl_inflight c) \<and>
       (e = None \<longrightarrow> (case cl_inflight c of None \<Rightarrow> ch = None
                       | Some k \<Rightarrow> chan_has_room k \<and> ch = Some (chan_push () k)))"
  by (cases "cl_inflight c")
     (auto simp: acquireSlot_def ctx_done_def split: if_splits intro: exI [of _ "cl_inflight c"])

lemma publish_send_fields:
  "publish_send env p e c = Returns (c', err) \<Longrightarrow>
     \<exists>st fs. cl_stream c = Some st \<and> c' = c\<lparr>cl_sent := cl_sent c @ fs\<rparr> \<and>
       fs = (if err = None then [(st, ingress_frame p e)] else [])"
  by (auto simp: publish_send_def split: option.splits dest!: stream_Send_frame)

lemma sendHeartbeat_fields:
  "sendHeartbeat env n c = Returns c' \<Longrightarrow>
     \<exists>fs. c' = c\<lparr>cl_sent := cl_sent c @ fs\<rparr> \<and>
       (fs = [] \<or> cl_started c \<and> (\<exists>st. fs = [(st, heartbeat_frame (string_of_int n))]))"
  by (auto simp: sendHeartbeat_def stream_Send_def split: option.splits if_splits
      intro: exI [of _ "[]"])

lemma sendAck_fields:
  "sendAck env ctx m b c = (c', e) \<Longrightarrow>
     \<exists>fs. c' = c\<lparr>cl_sent := cl_sent c @ fs\<rparr> \<and>
       (fs = [] \<or> (m \<noteq> '''' \<or> b \<noteq> '''') \<and> (\<exists>st. fs = [(st, ack_frame m b)]))"
  by (auto simp: sendAck_def stream_Send_def Let_def split: option.splits if_splits
      intro: exI [of _ "[]"])

lemma client_Ack_fields:
  "Delivery_Ack ctx (Some (client_delivery env q), c) = ((d, c'), err) \<Longrightarrow>
     \<exists>fs. c' = c\<lparr>cl_sent := cl_sent c @ fs\<rparr> \<and>
       (fs = [] \<or> snd q \<noteq> '''' \<and> (\<exists>st. fs = [(st, ack_frame (snd q) '''')]))"
  by (cases q)
     (auto simp: Delivery_Ack_def client_delivery_def newDelivery_def Let_def
      split: prod.splits if_splits intro: exI [of _ "[]"] dest!: sendAck_fields)

lemma client_BroadcastAck_fields:
  "BroadcastDelivery_Ack ctx (Some (client_broadcast env q), c) = ((d, c'), err) \<Longrightarrow>
     \<exists>fs. c' = c\<lparr>cl_sent := cl_sent c @ fs\<rparr> \<and>
       (fs = [] \<or> snd q \<noteq> '''' \<and> (\<exists>st. fs = [(st, ack_frame '''' (snd q))]))"
  by (cases q)
     (auto simp: BroadcastDelivery_Ack_def client_broadcast_def newBroadcastDelivery_def Let_def
      split: prod.splits if_splits intro: exI [of _ "[]"] dest!: sendAck_fields)

lemma releaseSlot_fields:
  "\<exists>ch. releaseSlot c = c\<lparr>cl_inflight := ch\<rparr> \<and>
     (case cl_inflight c of None \<Rightarrow> ch = None
      | Some k \<Rightarrow> ch = Some (k\<lparr>ch_buf := tl (ch_buf k)\<rparr>))"
proof (cases "cl_inflight c")
  case None
  then show ?thesis by (auto simp: releaseSlot_def intro: exI [of _ None])
next
  case (Some k)
  then show ?thesis
    by (cases "ch_buf k") (auto simp: releaseSlot_def intro: exI [of _ "Some (k\<lparr>ch_buf := tl (ch_buf k)\<rparr>)"])
qed

lemma releaseSlot_keeps [simp]:
  "cl_started (releaseSlot c) = cl_started c" "cl_sent (releaseSlot c) = cl_sent c"
  "cl_opts (releaseSlot c) = cl_opts c" "cl_stream (releaseSlot c) = cl_stream c"
  "cl_deliverCh (releaseSlot c) = cl_deliverCh c" "cl_broadcastCh (releaseSlot c) = cl_broadcastCh c"
  "cl_wg (releaseSlot c) = cl_wg c" "cl_startOnce (releaseSlot c) = cl_startOnce c"
  "cl_stopOnce (releaseSlot c) = cl_stopOnce c" "cl_cancel (releaseSlot c) = cl_cancel c"
  "cl_runCtx (releaseSlot c) = cl_runCtx c" "cl_liveCtxs (releaseSlot c) = cl_liveCtxs c"
  by (simp_all add: releaseSlot_def split: option.split list.split)

lemma client_Start_fields:
  "\<not> cl_startOnce c \<Longrightarrow>
     fst (client_Start ctx c) =
       c\<lparr>cl_startOnce := True, cl_runCancel := True, cl_runCtx := ctx, cl_wg := cl_wg c + 1\<rparr>"
  by (simp add: client_Start_def)

lemma run_cancel_fields:
  "cl_deliverCh (run_cancel c) = cl_deliverCh c \<and> cl_inflight (run_cancel c) = cl_inflight c"
  by (simp add: run_cancel_def)

lemma client_Close_keeps:
  "cl_stream (fst (client_Close env c)) = cl_stream c \<and>
   cl_started (fst (client_Close env c)) = cl_started c \<and>
   cl_sent (fst (client_Close env c)) = cl_sent c \<and>
   cl_inflight (fst (client_Close env c)) = cl_inflight c \<and>
   cl_opts (fst (client_Close env c)) = cl_opts c \<and> cl_wg (fst (client_Close env c)) = cl_wg c \<and>
   cl_startOnce (fst (client_Close env c)) = cl_startOnce c \<and>
   cl_recvErr (fst (client_Close env c)) = cl_recvErr c \<and>
   cl_cancel (fst (client_Close env c)) = cl_cancel c \<and>
   ch_buf (cl_deliverCh (fst (client_Close env c))) = ch_buf (cl_deliverCh c) \<and>
   ch_cap (cl_deliverCh (fst (client_Close env c))) = ch_cap (cl_deliverCh c) \<and>
   ch_buf (cl_broadcastCh (fst (client_Close env c))) = ch_buf (cl_broadcastCh c) \<and>
   ch_cap (cl_broadcastCh (fst (client_Close env c))) = ch_cap (cl_broadcastCh c) \<and>
   cl_runCancel (fst (client_Close env c)) = cl_runCancel c"
  by (auto simp: client_Close_def Let_def cancel_ctx_def close_conn_def run_cancel_def
      split: option.splits)

end
