(* ===== verification/Client_Invariants.thy ===== *)
theory Client_Invariants
  imports Client_Steps
begin

text \<open>
  What holds in every state the bridge client can reach: the slots of the back-pressure limit,
  the bounds of the channels, the order and the shape of the frames sent, the count of the wait
  group, the number of acknowledgements; and that no goroutine panics while the client keeps
  its first connection and is not closed.
\<close>

lemmas step_fields =
  connect_stream_fields connect_register_fields acquireSlot_fields publish_send_fields
  sendHeartbeat_fields client_Ack_fields client_BroadcastAck_fields

section \<open>Back-pressure\<close>

text \<open>A publisher between taking and releasing its slot holds exactly one token.\<close>

definition slot_inv :: "'v sys \<Rightarrow> bool" where
  "slot_inv s =
     (case cl_inflight (sy_client s) of
        None \<Rightarrow> \<not> (o_EnableBackpressure (cl_opts (sy_client s)) \<and>
          0 < o_MaxInFlightDeliver (cl_opts (sy_client s)))
      | Some ch \<Rightarrow> \<not> ch_closed ch \<and> length (ch_buf ch) = length (sy_pubs s) \<and>
          length (ch_buf ch) \<le> ch_cap ch \<and>
          ch_cap ch = nat (o_MaxInFlightDeliver (cl_opts (sy_client s))))"

lemma slot_inv_releaseSlot:
  assumes "slot_inv s" and "sy_pubs s = xs @ PubReleasing err # ys"
  shows "slot_inv (s\<lparr>sy_client := releaseSlot (sy_client s), sy_pubs := xs @ ys\<rparr>)"
  using assms releaseSlot_fields [of "sy_client s"]
  by (auto simp: slot_inv_def split: option.splits)

lemma slot_inv_cong:
  assumes "slot_inv s"
    and "cl_inflight (sy_client s') = cl_inflight (sy_client s)"
    and "cl_opts (sy_client s') = cl_opts (sy_client s)"
    and "length (sy_pubs s') = length (sy_pubs s)"
  shows "slot_inv s'"
  using assms by (simp add: slot_inv_def split: option.splits)

lemma slot_inv_acquire:
  assumes "slot_inv s" and "(c', None) \<in> set (acquireSlot ctx (sy_client s))"
  shows "slot_inv (s\<lparr>sy_client := c', sy_pubs := pb # sy_pubs s\<rparr>)"
  using acquireSlot_fields [OF assms(2)] assms(1)
  by (auto simp: slot_inv_def chan_push_def chan_has_room_def split: option.splits)

lemma slot_inv_step: "client_step env s ev s' \<Longrightarrow> slot_inv s \<Longrightarrow> slot_inv s'"
proof (induction rule: client_step.induct)
  case (publish_acquire s c' ctx env p e)
  then show ?case by (blast intro: slot_inv_acquire)
next
  case (publish_release s xs err ys env)
  then show ?case by (blast intro: slot_inv_releaseSlot)
qed ((erule slot_inv_cong; auto simp: client_Start_fields client_Close_keeps run_cancel_def
      dest!: step_fields)+)

text \<open>A caller finds no slot exactly when the limit is used up, and then waits for its context.\<close>

lemma acquireSlot_blocked:
  assumes "slot_inv s" and "o_EnableBackpressure (cl_opts (sy_client s))"
    and "0 < o_MaxInFlightDeliver (cl_opts (sy_client s))"
  shows "length (sy_pubs s) \<le> nat (o_MaxInFlightDeliver (cl_opts (sy_client s))) \<and>
         (acquireSlot ctx (sy_client s) = [] \<longleftrightarrow>
            length (sy_pubs s) = nat (o_MaxInFlightDeliver (cl_opts (sy_client s))) \<and> \<not> ctx_done ctx)"
  using assms by (auto simp: slot_inv_def acquireSlot_def chan_has_room_def split: option.splits)

section \<open>Channels\<close>

definition queue_inv :: "'v sys \<Rightarrow> bool" where
  "queue_inv s =
     (chan_wf (cl_deliverCh (sy_client s)) \<and> chan_wf (cl_broadcastCh (sy_client s)) \<and>
      ch_cap (cl_deliverCh (sy_client s)) = nat (o_DeliverBuffer (cl_opts (sy_client s))) \<and>
      ch_cap (cl_broadcastCh (sy_client s)) = nat (o_BroadcastBuffer (cl_opts (sy_client s))) \<and>
      ch_closed (cl_deliverCh (sy_client s)) = cl_stopOnce (sy_client s) \<and>
      ch_closed (cl_broadcastCh (sy_client s)) = cl_stopOnce (sy_client s))"

lemma queue_inv_cong:
  assumes "queue_inv s"
    and "cl_deliverCh (sy_client s') = cl_deliverCh (sy_client s)"
    and "cl_broadcastCh (sy_client s') = cl_broadcastCh (sy_client s)"
    and "cl_stopOnce (sy_client s') = cl_stopOnce (sy_client s)"
    and "cl_opts (sy_client s') = cl_opts (sy_client s)"
  shows "queue_inv s'"
  using assms by (simp add: queue_inv_def)

lemma queue_inv_step: "client_step env s ev s' \<Longrightarrow> queue_inv s \<Longrightarrow> queue_inv s'"
proof (induction rule: client_step.induct)
  case (hand_deliver s xs g q ys env)
  then show ?case by (auto simp: queue_inv_def chan_push_wf) (simp_all add: chan_push_def)
next
  case (hand_broadcast s xs g q ys env)
  then show ?case by (auto simp: queue_inv_def chan_push_wf) (simp_all add: chan_push_def)
next
  case (take_deliver s q rest env)
  then show ?case by (simp add: queue_inv_def chan_wf_def)
next
  case (take_broadcast s q rest env)
  then show ?case by (simp add: queue_inv_def chan_wf_def)
next
  case (close s env)
  then show ?case
    using client_Close_keeps [of env "sy_client s"] client_Close_fields [of "sy_client s" env]
    by (cases "cl_stopOnce (sy_client s)")
       (simp_all add: queue_inv_def chan_wf_def client_Close_def)
next
  case (publish_release s xs err ys env)
  then show ?case using releaseSlot_fields [of "sy_client s"] by (auto elim!: queue_inv_cong)
qed ((erule queue_inv_cong; auto simp: client_Start_fields run_cancel_def dest!: step_fields)+)

section \<open>Frames\<close>

text \<open>The frames a client may put on a stream: an acknowledgement always names what it confirms.\<close>

definition good_frame :: "Options \<Rightarrow> 'v StreamRequest \<Rightarrow> bool" where
  "good_frame opts f =
     (f = register_frame opts \<or> (\<exists>p e. f = ingress_frame p e) \<or> (\<exists>n. f = heartbeat_frame n) \<or>
      (\<exists>m b. f = ack_frame m b \<and> (m \<noteq> '''' \<or> b \<noteq> '''')))"

definition is_ack :: "'v StreamRequest \<Rightarrow> bool" where
  "is_ack f = (case sr_Payload f of Some (StreamRequest_Ack a) \<Rightarrow> True | _ \<Rightarrow> False)"

lemma is_ack_simps [simp]:
  "is_ack (ack_frame m b)" "\<not> is_ack (register_frame opts)" "\<not> is_ack (ingress_frame p e)"
  "\<not> is_ack (heartbeat_frame n)"
  by (simp_all add: is_ack_def ack_frame_def register_frame_def ingress_frame_def heartbeat_frame_def)

lemma good_frame_simps [simp]:
  "good_frame opts (register_frame opts)" "good_frame opts (ingress_frame p e)"
  "good_frame opts (heartbeat_frame n)" "m \<noteq> '''' \<Longrightarrow> good_frame opts (ack_frame m b)"
  "b \<noteq> '''' \<Longrightarrow> good_frame opts (ack_frame m b)"
  unfolding good_frame_def by blast+

text \<open>The deliveries and broadcasts that have been acknowledged.\<close>

definition acked :: "'v sys \<Rightarrow> nat" where
  "acked s = length (filter snd (sy_taken s)) + length (filter snd (sy_takenB s))"

definition ack_count :: "(nat \<times> 'v StreamRequest) list \<Rightarrow> nat" where
  "ack_count fs = length (filter (\<lambda>x. is_ack (snd x)) fs)"

lemma ack_count_simps [simp]:
  "ack_count [] = 0" "ack_count (fs @ gs) = ack_count fs + ack_count gs"
  "ack_count (x # fs) = (if is_ack (snd x) then Suc (ack_count fs) else ack_count fs)"
  by (simp_all add: ack_count_def)

text \<open>
  One step sends good frames only, and as many acknowledgements as deliveries it marks.
\<close>

definition sends :: "'v sys \<Rightarrow> 'v sys \<Rightarrow> bool" where
  "sends s s' =
     (cl_opts (sy_client s') = cl_opts (sy_client s) \<and>
      (\<exists>fs. cl_sent (sy_client s') = cl_sent (sy_client s) @ fs \<and>
        (\<forall>x \<in> set fs. good_frame (cl_opts (sy_client s)) (snd x)) \<and>
        ack_count fs + acked s \<le> acked s'))"

lemma sendsI:
  assumes "cl_opts (sy_client s') = cl_opts (sy_client s)"
    and "cl_sent (sy_client s') = cl_sent (sy_client s) @ fs"
    and "\<forall>x \<in> set fs. good_frame (cl_opts (sy_client s)) (snd x)"
    and "ack_count fs + acked s \<le> acked s'"
  shows "sends s s'"
  using assms by (auto simp: sends_def)

lemma sends_nothing:
  assumes "cl_opts (sy_client s') = cl_opts (sy_client s)"
    and "cl_sent (sy_client s') = cl_sent (sy_client s)"
    and "sy_taken s' = sy_taken s" and "sy_takenB s' = sy_takenB s"
  shows "sends s s'"
  using assms by (intro sendsI [of _ _ "[]"]) (simp_all add: acked_def)

lemma step_sends: "client_step env s ev s' \<Longrightarrow> sends s s'"
proof (induction rule: client_step.induct)
  case (register_ok s r st env c' g)
  from connect_register_fields [OF register_ok(3)] show ?case
    by (intro sendsI [of _ _ "[(st, register_frame (cl_opts (sy_client s)))]"])
       (simp_all add: acked_def)
next
  case (publish_send s xs p e ys env c' err)
  from publish_send_fields [OF publish_send(3)] show ?case
    by (auto intro!: sendsI simp: acked_def)
next
  case (heartbeat s g env n c')
  from sendHeartbeat_fields [OF heartbeat(3)] show ?case
    by (auto intro!: sendsI simp: acked_def)
next
  case (ack_deliver s xs q ys ctx env d c' err)
  from client_Ack_fields [OF ack_deliver(3)] ack_deliver(2) show ?case
    by (auto intro!: sendsI simp: acked_def)
next
  case (ack_broadcast s xs q ys ctx env d' c' err)
  from client_BroadcastAck_fields [OF ack_broadcast(3)] ack_broadcast(2) show ?case
    by (auto intro!: sendsI simp: acked_def)
next
  case (take_deliver s q rest env)
  then show ?case by (intro sendsI [of _ _ "[]"]) (simp_all add: acked_def)
next
  case (take_broadcast s q rest env)
  then show ?case by (intro sendsI [of _ _ "[]"]) (simp_all add: acked_def)
next
  case (publish_release s xs err ys env)
  then show ?case using releaseSlot_fields [of "sy_client s"] by (auto intro!: sends_nothing)
qed ((rule sends_nothing; auto simp: client_Start_fields client_Close_keeps run_cancel_def
      dest!: connect_stream_fields connect_register_fields acquireSlot_fields)+)

definition frames_inv :: "'v sys \<Rightarrow> bool" where
  "frames_inv s =
     ((\<forall>x \<in> set (cl_sent (sy_client s)). good_frame (cl_opts (sy_client s)) (snd x)) \<and>
      ack_count (cl_sent (sy_client s)) \<le> acked s)"

lemma frames_inv_step: "client_step env s ev s' \<Longrightarrow> frames_inv s \<Longrightarrow> frames_inv s'"
  by (drule step_sends) (fastforce simp: frames_inv_def sends_def)

section \<open>The first frame\<close>

text \<open>
  Before the first registration nothing is sent and nothing runs but the run loop; the first
  frame the client ever sends is the registration.
\<close>

definition quiet :: "'v sys \<Rightarrow> bool" where
  "quiet s =
     (cl_sent (sy_client s) = [] \<and> sy_cons s = [] \<and> sy_hbs s = [] \<and> sy_pubs s = [] \<and>
      sy_taken s = [] \<and> sy_takenB s = [] \<and> ch_buf (cl_deliverCh (sy_client s)) = [] \<and>
      ch_buf (cl_broadcastCh (sy_client s)) = [] \<and> sy_run s \<noteq> RunConnected)"

definition wire_inv :: "'v sys \<Rightarrow> bool" where
  "wire_inv s =
     (if cl_started (sy_client s)
      then \<exists>st fs. cl_sent (sy_client s) = (st, register_frame (cl_opts (sy_client s))) # fs
      else quiet s)"

lemma wire_inv_started:
  assumes "wire_inv s" and "cl_started (sy_client s)" and "sends s s'"
    and "cl_started (sy_client s')"
  shows "wire_inv s'"
  using assms by (auto simp: wire_inv_def sends_def)

lemma connect_register_started:
  "connect_register env st c = (c', e) \<Longrightarrow> cl_started c \<Longrightarrow> cl_started c'"
  using connect_register_fields [of env st c c' e] by (cases e) auto

lemma step_keeps_started:
  "client_step env s ev s' \<Longrightarrow> cl_started (sy_client s) \<Longrightarrow> cl_started (sy_client s')"
  by (induction rule: client_step.induct)
     (auto simp: client_Start_fields client_Close_keeps run_cancel_def connect_register_started
      dest!: connect_stream_fields acquireSlot_fields publish_send_fields sendHeartbeat_fields
        client_Ack_fields client_BroadcastAck_fields)

text \<open>From a quiet state only the run loop can move anything, and it stays quiet until it has
  registered.\<close>

lemma wire_inv_quiet:
  "client_step env s ev s' \<Longrightarrow> quiet s \<Longrightarrow> \<not> cl_started (sy_client s) \<Longrightarrow> wire_inv s'"
proof (induction rule: client_step.induct)
  case (register_ok s r st env c' g)
  from connect_register_fields [OF register_ok(3)] register_ok(5) show ?case
    by (auto simp: wire_inv_def quiet_def)
qed (auto simp: wire_inv_def quiet_def client_Start_fields client_Close_keeps run_cancel_def
      dest!: connect_stream_fields dest: connect_register_fields)

lemma wire_inv_step: "client_step env s ev s' \<Longrightarrow> wire_inv s \<Longrightarrow> wire_inv s'"
  using wire_inv_started [OF _ _ step_sends step_keeps_started] wire_inv_quiet
  by (metis wire_inv_def)

section \<open>The wait group\<close>

definition run_count :: "run_pc \<Rightarrow> nat" where
  "run_count pc = (case pc of RunIdle \<Rightarrow> 0 | RunFinished \<Rightarrow> 0 | _ \<Rightarrow> 1)"

definition wg_inv :: "'v sys \<Rightarrow> bool" where
  "wg_inv s =
     (cl_wg (sy_client s) = run_count (sy_run s) + length (sy_hbs s) \<and>
      (sy_run s = RunIdle \<longleftrightarrow> \<not> cl_startOnce (sy_client s)))"

lemma wg_inv_step: "client_step env s ev s' \<Longrightarrow> wg_inv s \<Longrightarrow> wg_inv s'"
  by (induction rule: client_step.induct)
     (auto simp: wg_inv_def run_count_def client_Start_fields client_Close_keeps run_cancel_def
        cleanup_def cancel_ctx_def close_conn_def Let_def
      dest!: step_fields split: option.splits)

section \<open>Panics\<close>

text \<open>
  The events after which a goroutine may find the client without a stream or its channels
  closed: the run loop gives its connection up, or the client is closed.
\<close>

definition disruptive :: "'v event \<Rightarrow> bool" where
  "disruptive ev = (case ev of EvRunDone \<Rightarrow> True | EvConnLost \<Rightarrow> True | EvClose \<Rightarrow> True | _ \<Rightarrow> False)"

definition calm_inv :: "'v sys \<Rightarrow> bool" where
  "calm_inv s =
     (sy_panic s = None \<and> \<not> cl_stopOnce (sy_client s) \<and> queue_inv s \<and> wire_inv s \<and>
      (\<forall>r st. sy_run s = RunRegistering r st \<longrightarrow> cl_stream (sy_client s) \<noteq> None) \<and>
      (cl_started (sy_client s) \<longrightarrow> cl_stream (sy_client s) \<noteq> None))"

lemma publish_send_panics: "publish_send env p e c = Panics m \<longleftrightarrow> cl_stream c = None \<and> m = nil_stream_panic"
  by (auto simp: publish_send_def split: option.split)

lemma sendHeartbeat_panics:
  "sendHeartbeat env n c = Panics m \<longleftrightarrow> cl_started c \<and> cl_stream c = None \<and> m = nil_stream_panic"
  by (auto simp: sendHeartbeat_def split: option.split)

lemma calm_started:
  assumes "calm_inv s"
  shows "sy_cons s \<noteq> [] \<Longrightarrow> cl_stream (sy_client s) \<noteq> None"
    and "sy_hbs s \<noteq> [] \<Longrightarrow> cl_stream (sy_client s) \<noteq> None"
    and "sy_pubs s \<noteq> [] \<Longrightarrow> cl_stream (sy_client s) \<noteq> None"
    and "\<not> ch_closed (cl_deliverCh (sy_client s))" "\<not> ch_closed (cl_broadcastCh (sy_client s))"
  using assms by (auto simp: calm_inv_def wire_inv_def quiet_def queue_inv_def split: if_splits)

text \<open>What is left of \<open>calm_inv\<close> beside the invariants every step keeps.\<close>

definition stream_set :: "'v sys \<Rightarrow> bool" where
  "stream_set s =
     (sy_panic s = None \<and> \<not> cl_stopOnce (sy_client s) \<and>
      (\<forall>r st. sy_run s = RunRegistering r st \<longrightarrow> cl_stream (sy_client s) \<noteq> None) \<and>
      (cl_started (sy_client s) \<longrightarrow> cl_stream (sy_client s) \<noteq> None))"

lemma stream_set_step:
  "client_step env s ev s' \<Longrightarrow> calm_inv s \<Longrightarrow> \<not> disruptive ev \<Longrightarrow> stream_set s'"
proof (induction rule: client_step.induct)
  case (register_ok s r st env c' g)
  from connect_register_fields [OF register_ok(3)] register_ok show ?case
    by (auto simp: stream_set_def calm_inv_def)
next
  case (recv_nil s xs g ys env)
  with calm_started(1) [OF recv_nil(4)] show ?case by simp
next
  case (heartbeat_panic s g env n m)
  then show ?case by (auto simp: sendHeartbeat_panics calm_inv_def)
next
  case (publish_panic s xs p e ys env m)
  with calm_started(3) [OF publish_panic(4)] show ?case by (auto simp: publish_send_panics)
next
  case (hand_deliver_closed s xs g q ys env)
  with calm_started(4) [OF hand_deliver_closed(4)] show ?case by simp
next
  case (hand_broadcast_closed s xs g q ys env)
  with calm_started(5) [OF hand_broadcast_closed(4)] show ?case by simp
qed (auto simp: stream_set_def calm_inv_def disruptive_def client_Start_fields run_cancel_def
      dest!: step_fields)

lemma calm_inv_iff: "calm_inv s \<longleftrightarrow> stream_set s \<and> queue_inv s \<and> wire_inv s"
  by (auto simp: calm_inv_def stream_set_def)

lemma calm_inv_step:
  "client_step env s ev s' \<Longrightarrow> calm_inv s \<Longrightarrow> \<not> disruptive ev \<Longrightarrow> calm_inv s'"
  by (frule (2) stream_set_step) (simp add: calm_inv_iff queue_inv_step wire_inv_step)

section \<open>Reachable states\<close>

lemma NewClient_fields:
  assumes "NewClient opts = Inr c"
  shows "cl_opts c = client_defaults opts"
    and "cl_deliverCh c = make_chan (o_DeliverBuffer (cl_opts c))"
    and "cl_broadcastCh c = make_chan (o_BroadcastBuffer (cl_opts c))"
    and "cl_inflight c =
           (if o_EnableBackpressure (cl_opts c) \<and> 0 < o_MaxInFlightDeliver (cl_opts c)
            then Some (make_chan (o_MaxInFlightDeliver (cl_opts c))) else None)"
    and "cl_sent c = []" and "\<not> cl_started c" and "\<not> cl_startOnce c" and "\<not> cl_stopOnce c"
    and "cl_wg c = 0"
  using assms by (auto simp: NewClient_def Let_def split: if_splits)

lemma init_invariants:
  assumes "NewClient opts = Inr c"
  shows "slot_inv (init_sys c)" and "queue_inv (init_sys c)" and "frames_inv (init_sys c)"
    and "wire_inv (init_sys c)" and "wg_inv (init_sys c)" and "calm_inv (init_sys c)"
    and "cl_opts c = client_defaults opts"
proof -
  note c = NewClient_fields [OF assms]
  show "slot_inv (init_sys c)"
    using c(4) by (auto simp: slot_inv_def init_sys_def make_chan_def)
  show q: "queue_inv (init_sys c)"
    using c(2,3,8) by (simp add: queue_inv_def init_sys_def) (simp add: make_chan_def)
  show "frames_inv (init_sys c)" using c(5) by (simp add: frames_inv_def init_sys_def)
  show w: "wire_inv (init_sys c)"
    using c(2,3,5,6) by (simp add: wire_inv_def quiet_def init_sys_def make_chan_def)
  show "wg_inv (init_sys c)" using c(7,9) by (simp add: wg_inv_def init_sys_def run_count_def)
  show "calm_inv (init_sys c)"
    using q w c(6,8) by (simp add: calm_inv_def) (simp add: init_sys_def)
qed (fact NewClient_fields(1) [OF assms])

lemma client_reachesE:
  assumes "client_reaches opts tr s"
  obtains c where "NewClient opts = Inr c" and "client_run (init_sys c) tr s"
  using assms by (auto simp: client_reaches_def split: sum.splits)

lemma reaches_slot_inv: "client_reaches opts tr s \<Longrightarrow> slot_inv s"
  by (erule client_reachesE, erule client_run_invariant) (auto intro: init_invariants slot_inv_step)

lemma reaches_queue_inv: "client_reaches opts tr s \<Longrightarrow> queue_inv s"
  by (erule client_reachesE, erule client_run_invariant) (auto intro: init_invariants queue_inv_step)

lemma reaches_frames_inv: "client_reaches opts tr s \<Longrightarrow> frames_inv s"
  by (erule client_reachesE, erule client_run_invariant) (auto intro: init_invariants frames_inv_step)

lemma reaches_wire_inv: "client_reaches opts tr s \<Longrightarrow> wire_inv s"
  by (erule client_reachesE, erule client_run_invariant) (auto intro: init_invariants wire_inv_step)

lemma reaches_wg_inv: "client_reaches opts tr s \<Longrightarrow> wg_inv s"
  by (erule client_reachesE, erule client_run_invariant) (auto intro: init_invariants wg_inv_step)

lemma reaches_opts: "client_reaches opts tr s \<Longrightarrow> cl_opts (sy_client s) = client_defaults opts"
  by (erule client_reachesE,
      erule client_run_invariant [where P = "\<lambda>s. cl_opts (sy_client s) = client_defaults opts"])
     (auto simp: init_invariants init_sys_def dest!: step_sends simp: sends_def)

lemma run_calm_inv:
  "client_run s0 tr s \<Longrightarrow> calm_inv s0 \<Longrightarrow> \<not> (\<exists>x \<in> set tr. disruptive (snd x)) \<Longrightarrow> calm_inv s"
  by (induction rule: client_run.induct) (auto intro: calm_inv_step)

end
