(* ===== verification/Client_Acks.thy ===== *)
theory Client_Acks
  imports Client_Invariants
begin

text \<open>
  The acknowledgements of the bridge client, one by one: for every message there are at most as
  many acknowledgements on the streams as there are deliveries of it that a subscriber has
  acknowledged; and the same for broadcasts.
\<close>

section \<open>Frames that are acknowledgements\<close>

lemma ack_frame_inject [simp]: "ack_frame m b = ack_frame m' b' \<longleftrightarrow> m = m' \<and> b = b'"
  by (auto simp: ack_frame_def)

lemma ack_frame_distinct [simp]:
  "register_frame opts \<noteq> ack_frame m b" "ingress_frame p e \<noteq> ack_frame m b"
  "heartbeat_frame n \<noteq> ack_frame m b"
  by (simp_all add: register_frame_def ingress_frame_def heartbeat_frame_def ack_frame_def)

text \<open>How often a delivery of message \<open>m\<close>, or the broadcast \<open>b\<close>, was acknowledged by a subscriber.\<close>

definition acked_in :: "string \<Rightarrow> ('v queued \<times> bool) list \<Rightarrow> nat" where
  "acked_in i xs = length (filter (\<lambda>x. snd x \<and> snd (fst x) = i) xs)"

definition acked_as :: "string \<Rightarrow> string \<Rightarrow> 'v sys \<Rightarrow> nat" where
  "acked_as m b s =
     (if b = '''' then acked_in m (sy_taken s) else if m = '''' then acked_in b (sy_takenB s) else 0)"

lemma acked_in_simps [simp]:
  "acked_in i [] = 0"
  "acked_in i (x # xs) = (if snd x \<and> snd (fst x) = i then Suc (acked_in i xs) else acked_in i xs)"
  "acked_in i (xs @ ys) = acked_in i xs + acked_in i ys"
  by (simp_all add: acked_in_def)

definition ack_total :: "string \<Rightarrow> string \<Rightarrow> 'v sys \<Rightarrow> nat" where
  "ack_total m b s = count_list (map snd (cl_sent (sy_client s))) (ack_frame m b)"

definition ids_inv :: "'v sys \<Rightarrow> bool" where
  "ids_inv s = (\<forall>m b. m \<noteq> '''' \<or> b \<noteq> '''' \<longrightarrow> ack_total m b s \<le> acked_as m b s)"

section \<open>The invariant\<close>

lemma ids_inv_cong:
  assumes "ids_inv s" and "\<And>m b. ack_total m b s' = ack_total m b s"
    and "\<And>m b. acked_as m b s' = acked_as m b s"
  shows "ids_inv s'"
  using assms by (simp add: ids_inv_def)

lemmas ids_defs = ack_total_def acked_as_def

text \<open>An acknowledgement adds at most one frame, for what was not acknowledged before.\<close>

lemma ids_inv_ack:
  assumes "ids_inv s" and "ack_total m0 b0 s' \<le> Suc (ack_total m0 b0 s)"
    and "acked_as m0 b0 s' = Suc (acked_as m0 b0 s)"
    and "\<And>m b. (m, b) \<noteq> (m0, b0) \<Longrightarrow> ack_total m b s' = ack_total m b s"
    and "\<And>m b. acked_as m b s \<le> acked_as m b s'"
  shows "ids_inv s'"
  unfolding ids_inv_def
proof (intro allI impI)
  fix m b :: string
  assume "m \<noteq> '''' \<or> b \<noteq> ''''"
  with assms(1) have "ack_total m b s \<le> acked_as m b s" by (simp add: ids_inv_def)
  with assms(2,3) assms(4) [of m b] assms(5) [of m b] show "ack_total m b s' \<le> acked_as m b s'"
    by (cases "(m, b) = (m0, b0)") auto
qed

lemma ids_inv_step: "client_step env s ev s' \<Longrightarrow> ids_inv s \<Longrightarrow> ids_inv s'"
proof (induction rule: client_step.induct)
  case (register_ok s r st env c' g)
  with connect_register_fields [OF register_ok(3)] show ?case
    by (intro ids_inv_cong [OF register_ok(5)]) (simp_all add: ids_defs)
next
  case (publish_send s xs p e ys env c' err)
  from publish_send_fields [OF publish_send(3)] show ?case
    by (intro ids_inv_cong [OF publish_send(4)]) (auto simp: ids_defs)
next
  case (heartbeat s g env n c')
  from sendHeartbeat_fields [OF heartbeat(3)] show ?case
    by (intro ids_inv_cong [OF heartbeat(4)]) (auto simp: ids_defs)
next
  case (ack_deliver s xs q ys ctx env d c' err)
  from client_Ack_fields [OF ack_deliver(3)] show ?case
    by (intro ids_inv_ack [OF ack_deliver(4), where ?m0.0 = "snd q" and ?b0.0 = "''''"])
       (auto simp: ids_defs ack_deliver(2))
next
  case (ack_broadcast s xs q ys ctx env d c' err)
  show ?case
  proof (cases "snd q = ''''")
    case True
    with client_BroadcastAck_fields [OF ack_broadcast(3)] show ?thesis
      by (intro ids_inv_cong [OF ack_broadcast(4)]) (auto simp: ids_defs ack_broadcast(2))
  next
    case False
    with client_BroadcastAck_fields [OF ack_broadcast(3)] show ?thesis
      by (intro ids_inv_ack [OF ack_broadcast(4), where ?m0.0 = "''''" and ?b0.0 = "snd q"])
         (auto simp: ids_defs ack_broadcast(2))
  qed
next
  case (close s env)
  then show ?case
    by (intro ids_inv_cong [OF close(2)]) (simp_all add: client_Close_keeps ids_defs)
qed ((erule ids_inv_cong; auto simp: ids_defs client_Start_fields run_cancel_def
      dest!: connect_stream_fields acquireSlot_fields connect_register_fields)+)

lemma init_ids_inv: "NewClient opts = Inr c \<Longrightarrow> ids_inv (init_sys c)"
  using NewClient_fields(5) [of opts c] by (simp add: ids_inv_def ack_total_def init_sys_def)

lemma reaches_ids_inv: "client_reaches opts tr s \<Longrightarrow> ids_inv s"
  by (erule client_reachesE, erule client_run_invariant) (auto intro: init_ids_inv ids_inv_step)

text \<open>No more is acknowledged than was taken.\<close>

lemma acked_in_le: "acked_in i xs \<le> length (filter (\<lambda>q. snd q = i) (map fst xs))"
  by (induction xs) auto

end
