(* ===== verification/Client_Traces.thy ===== *)
theory Client_Traces
  imports Client_Invariants "HOL-Library.Multiset"
begin

text \<open>
  What the runs of the bridge client do with the envelopes that pass through it: what the
  subscribers get is what the streams brought, and over one connection in the same order; what
  the publishers send is complete. And \<open>PublishIngress\<close> as one function does what its steps do when
  no other goroutine comes between.
\<close>

section \<open>What came in and where it is\<close>

text \<open>The deliveries, or the broadcasts, among what a consumer was handed.\<close>

definition pick_deliver :: "'v received \<Rightarrow> 'v queued list" where
  "pick_deliver d = (case d of ToDeliver q \<Rightarrow> [q] | _ \<Rightarrow> [])"

definition pick_broadcast :: "'v received \<Rightarrow> 'v queued list" where
  "pick_broadcast d = (case d of ToBroadcast q \<Rightarrow> [q] | _ \<Rightarrow> [])"

lemma pick_simps [simp]:
  "pick_deliver (ToDeliver q) = [q]" "pick_deliver (ToBroadcast q) = []" "pick_deliver Ignored = []"
  "pick_broadcast (ToDeliver q) = []" "pick_broadcast (ToBroadcast q) = [q]"
  "pick_broadcast Ignored = []"
  by (simp_all add: pick_deliver_def pick_broadcast_def)

definition came_in :: "('v received \<Rightarrow> 'v queued list) \<Rightarrow> 'v event \<Rightarrow> 'v queued list" where
  "came_in pick ev = (case ev of EvRecv resp \<Rightarrow> pick (receive resp) | _ \<Rightarrow> [])"

lemma came_in_simps [simp]:
  "came_in pick (EvRecv resp) = pick (receive resp)"
  "(\<And>resp. ev \<noteq> EvRecv resp) \<Longrightarrow> came_in pick ev = []"
  by (simp_all add: came_in_def split: event.split)

definition received_in ::
  "('v received \<Rightarrow> 'v queued list) \<Rightarrow> (('v, 'c) bridge_env \<times> 'v event) list \<Rightarrow> 'v queued list" where
  "received_in pick tr = concat (map (\<lambda>x. came_in pick (snd x)) tr)"

lemma received_in_simps [simp]:
  "received_in pick [] = []"
  "received_in pick (tr @ [(env, ev)]) = received_in pick tr @ came_in pick ev"
  by (simp_all add: received_in_def)

text \<open>What the consumers hold and have not handed on.\<close>

definition held_by :: "('v received \<Rightarrow> 'v queued list) \<Rightarrow> 'v consumer_pc \<Rightarrow> 'v queued list" where
  "held_by pick pc = (case pc of Handing d \<Rightarrow> pick d | _ \<Rightarrow> [])"

definition held :: "('v received \<Rightarrow> 'v queued list) \<Rightarrow> 'v sys \<Rightarrow> 'v queued list" where
  "held pick s = concat (map (\<lambda>x. held_by pick (snd x)) (sy_cons s))"

lemma held_by_simps [simp]:
  "held_by pick Receiving = []" "held_by pick (InRecv st) = []" "held_by pick (Handing d) = pick d"
  by (simp_all add: held_by_def)

lemma held_by_received:
  "pick Ignored = [] \<Longrightarrow>
     held_by pick (case receive resp of Ignored \<Rightarrow> Receiving | d \<Rightarrow> Handing d) = pick (receive resp)"
  by (simp split: received.split)

section \<open>Nothing is lost, made up or delivered twice\<close>

definition deliveries :: "'v sys \<Rightarrow> 'v queued multiset" where
  "deliveries s =
     mset (map fst (sy_taken s)) + mset (ch_buf (cl_deliverCh (sy_client s))) +
     mset (held pick_deliver s)"

definition broadcasts :: "'v sys \<Rightarrow> 'v queued multiset" where
  "broadcasts s =
     mset (map fst (sy_takenB s)) + mset (ch_buf (cl_broadcastCh (sy_client s))) +
     mset (held pick_broadcast s)"

lemmas account_defs = deliveries_def broadcasts_def held_def

lemma accounts_cong:
  assumes "sy_taken s' = sy_taken s" and "sy_takenB s' = sy_takenB s" and "sy_cons s' = sy_cons s"
    and "ch_buf (cl_deliverCh (sy_client s')) = ch_buf (cl_deliverCh (sy_client s))"
    and "ch_buf (cl_broadcastCh (sy_client s')) = ch_buf (cl_broadcastCh (sy_client s))"
  shows "deliveries s' = deliveries s \<and> broadcasts s' = broadcasts s"
  using assms by (simp add: account_defs)

text \<open>A step adds what came in; only a consumer that leaves with a response in its hands takes
  something away.\<close>

lemma step_accounts:
  "client_step env s ev s' \<Longrightarrow> ev \<noteq> EvConsumerExit \<Longrightarrow>
     deliveries s' = deliveries s + mset (came_in pick_deliver ev) \<and>
     broadcasts s' = broadcasts s + mset (came_in pick_broadcast ev)"
proof (induction rule: client_step.induct)
  case (recv s xs g st ys env resp)
  then show ?case by (simp add: account_defs held_by_received)
next
  case (hand_deliver s xs g q ys env)
  then show ?case by (simp add: account_defs chan_push_def)
next
  case (hand_broadcast s xs g q ys env)
  then show ?case by (simp add: account_defs chan_push_def)
next
  case (publish_release s xs err ys env)
  then show ?case by (simp add: account_defs)
next
  case (close s env)
  then show ?case using client_Close_keeps [of env "sy_client s"] by (simp add: account_defs)
qed (auto simp: account_defs client_Start_fields run_cancel_def dest!: step_fields)

lemma exit_accounts:
  "client_step env s ev s' \<Longrightarrow> ev = EvConsumerExit \<Longrightarrow>
     deliveries s' \<subseteq># deliveries s \<and> broadcasts s' \<subseteq># broadcasts s"
  by (induction rule: client_step.induct) (auto simp: account_defs)

lemma run_accounts:
  "client_run s0 tr s \<Longrightarrow> deliveries s0 = {#} \<Longrightarrow> broadcasts s0 = {#} \<Longrightarrow>
     deliveries s \<subseteq># mset (received_in pick_deliver tr) \<and>
     broadcasts s \<subseteq># mset (received_in pick_broadcast tr) \<and>
     (EvConsumerExit \<notin> snd ` set tr \<longrightarrow>
        deliveries s = mset (received_in pick_deliver tr) \<and>
        broadcasts s = mset (received_in pick_broadcast tr))"
proof (induction rule: client_run.induct)
  case (run_Nil s)
  then show ?case by simp
next
  case (run_snoc s tr s' env ev s'')
  show ?case
  proof (cases "ev = EvConsumerExit")
    case True
    with exit_accounts [OF run_snoc.hyps(2)] run_snoc show ?thesis
      by (auto intro: subset_mset.order_trans)
  next
    case False
    with step_accounts [OF run_snoc.hyps(2)] run_snoc show ?thesis by auto
  qed
qed

lemma init_accounts:
  "NewClient opts = Inr c \<Longrightarrow> deliveries (init_sys c) = {#} \<and> broadcasts (init_sys c) = {#}"
  using NewClient_fields(2,3) [of opts c] by (simp add: account_defs init_sys_def make_chan_def)

section \<open>In order\<close>

text \<open>What has come in over one connection, in the order the subscribers get it.\<close>

definition delivered_order :: "'v sys \<Rightarrow> 'v queued list" where
  "delivered_order s =
     rev (map fst (sy_taken s)) @ ch_buf (cl_deliverCh (sy_client s)) @ held pick_deliver s"

definition before_connection :: "run_pc \<Rightarrow> bool" where
  "before_connection pc = (pc \<noteq> RunConnected \<and> pc \<noteq> RunFinished)"

definition order_inv :: "'v sys \<Rightarrow> 'v queued list \<Rightarrow> bool" where
  "order_inv s rec =
     ((before_connection (sy_run s) \<longrightarrow> sy_cons s = [] \<and> rec = []) \<and>
      (sy_cons s = [] \<or> (\<exists>x. sy_cons s = [x]) \<and> delivered_order s = rec) \<and>
      prefix (delivered_order s) rec)"

lemma order_inv_cong:
  assumes "order_inv s rec" and "sy_taken s' = sy_taken s" and "sy_cons s' = sy_cons s"
    and "ch_buf (cl_deliverCh (sy_client s')) = ch_buf (cl_deliverCh (sy_client s))"
    and "before_connection (sy_run s') \<longrightarrow> before_connection (sy_run s)" and "extra = []"
  shows "order_inv s' (rec @ extra)"
  using assms by (auto simp: order_inv_def delivered_order_def held_def)

lemma before_connection_simps [simp]:
  "before_connection RunIdle" "before_connection (RunConnecting r)"
  "before_connection (RunRegistering r st)" "before_connection (RunBackoff r)"
  "\<not> before_connection RunConnected" "\<not> before_connection RunFinished"
  by (simp_all add: before_connection_def)

lemmas order_defs = order_inv_def delivered_order_def held_def

text \<open>With one consumer at most, who it is is clear.\<close>

lemma order_consumer:
  assumes "order_inv s rec" and "sy_cons s = xs @ x # ys"
  shows "xs = []" and "ys = []" and "\<not> before_connection (sy_run s)"
    and "rec = rev (map fst (sy_taken s)) @ ch_buf (cl_deliverCh (sy_client s)) @
           held_by pick_deliver (snd x)"
  using assms by (auto simp: order_defs append_eq_Cons_conv)

lemma order_inv_step:
  "client_step env s ev s' \<Longrightarrow> order_inv s rec \<Longrightarrow> ev \<noteq> EvConnLost \<Longrightarrow> wg_inv s \<Longrightarrow>
     order_inv s' (rec @ came_in pick_deliver ev)"
proof (induction rule: client_step.induct)
  case (start_first s env ctx)
  then show ?case by (auto simp: wg_inv_def client_Start_fields order_defs)
next
  case (register_ok s r st env c' g)
  with connect_register_fields [OF register_ok(3)] show ?case by (auto simp: order_defs)
next
  case (recv_call s xs g ys st env)
  from order_consumer [OF recv_call(4,2)] show ?case by (simp add: order_defs)
next
  case (recv s xs g st ys env resp)
  from order_consumer [OF recv(3,2)] show ?case by (simp add: order_defs held_by_received)
next
  case (recv_err s xs g st ys ch env e)
  from order_consumer [OF recv_err(5,2)] show ?case by (simp add: order_defs)
next
  case (recv_err_unset s xs g st ys env e)
  from order_consumer [OF recv_err_unset(4,2)] show ?case by (simp add: order_defs)
next
  case (hand_deliver s xs g q ys env)
  from order_consumer [OF hand_deliver(4,2)] show ?case by (simp add: order_defs chan_push_def)
next
  case (hand_broadcast s xs g q ys env)
  from order_consumer [OF hand_broadcast(4,2)] show ?case by (simp add: order_defs)
next
  case (consumer_exit s xs g d ys env)
  from order_consumer [OF consumer_exit(4,2)] show ?case by (simp add: order_defs)
next
  case (take_deliver s q rest env)
  then show ?case by (simp add: order_defs)
next
  case (ack_deliver s xs q ys ctx env d c' err)
  from client_Ack_fields [OF ack_deliver(3)] ack_deliver(2,4) show ?case
    by (auto simp: order_defs)
qed ((erule order_inv_cong; auto simp: client_Close_keeps run_cancel_def dest!: step_fields)+)

lemma run_order_inv:
  "client_run s0 tr s \<Longrightarrow> order_inv s0 [] \<Longrightarrow> wg_inv s0 \<Longrightarrow> EvConnLost \<notin> snd ` set tr \<Longrightarrow>
     order_inv s (received_in pick_deliver tr) \<and> wg_inv s"
  by (induction rule: client_run.induct) (auto intro: order_inv_step wg_inv_step)

lemma init_order_inv: "NewClient opts = Inr c \<Longrightarrow> order_inv (init_sys c) []"
  using NewClient_fields(2) [of opts c] by (simp add: order_defs init_sys_def make_chan_def)

section \<open>Complete envelopes\<close>

definition frame_complete :: "'v StreamRequest \<Rightarrow> bool" where
  "frame_complete f =
     (case sr_Payload f of
        Some (StreamRequest_Ingress (Some i)) \<Rightarrow> ing_Envelope i \<noteq> None \<and> envelope_complete (ing_Envelope i)
      | _ \<Rightarrow> True)"

lemma frame_complete_simps [simp]:
  "frame_complete (register_frame opts)" "frame_complete (heartbeat_frame n)"
  "frame_complete (ack_frame m b)"
  by (simp_all add: frame_complete_def register_frame_def heartbeat_frame_def ack_frame_def)

lemma frame_complete_ingress: "stamp_ok p \<Longrightarrow> frame_complete (ingress_frame p e)"
  using NormalizeEnvelope_Some [of p e] norm_envelope.fill_complete [of p "Some e"]
  by (auto simp: frame_complete_def ingress_frame_def)

definition pub_stamped :: "'v publisher \<Rightarrow> bool" where
  "pub_stamped pb = (case pb of PubSending p e \<Rightarrow> stamp_ok p | PubReleasing err \<Rightarrow> True)"

lemma pub_stamped_simps [simp]:
  "pub_stamped (PubSending p e) = stamp_ok p" "pub_stamped (PubReleasing err)"
  by (simp_all add: pub_stamped_def)

definition complete_inv :: "'v sys \<Rightarrow> bool" where
  "complete_inv s =
     ((\<forall>f \<in> snd ` set (cl_sent (sy_client s)). frame_complete f) \<and>
      (\<forall>pb \<in> set (sy_pubs s). pub_stamped pb))"

definition well_stamped :: "'v event \<Rightarrow> bool" where
  "well_stamped ev = (case ev of EvPublish ctx p e \<Rightarrow> stamp_ok p | _ \<Rightarrow> True)"

lemma complete_inv_step:
  "client_step env s ev s' \<Longrightarrow> complete_inv s \<Longrightarrow> well_stamped ev \<Longrightarrow> complete_inv s'"
proof (induction rule: client_step.induct)
  case (register_ok s r st env c' g)
  with connect_register_fields [OF register_ok(3)] show ?case by (auto simp: complete_inv_def)
next
  case (publish_send s xs p e ys env c' err)
  then have "stamp_ok p" by (simp add: complete_inv_def)
  with publish_send_fields [OF publish_send(3)] publish_send(2,4) show ?case
    by (auto simp: complete_inv_def frame_complete_ingress)
next
  case (ack_deliver s xs q ys ctx env d c' err)
  from client_Ack_fields [OF ack_deliver(3)] ack_deliver(4) show ?case by (auto simp: complete_inv_def)
next
  case (ack_broadcast s xs q ys ctx env d' c' err)
  from client_BroadcastAck_fields [OF ack_broadcast(3)] ack_broadcast(4) show ?case
    by (auto simp: complete_inv_def)
next
  case (heartbeat s g env n c')
  from sendHeartbeat_fields [OF heartbeat(3)] heartbeat(4) show ?case by (auto simp: complete_inv_def)
next
  case (close s env)
  then show ?case by (simp add: complete_inv_def client_Close_keeps)
qed (auto simp: complete_inv_def well_stamped_def client_Start_fields run_cancel_def
      dest!: connect_stream_fields acquireSlot_fields connect_register_fields)

lemma run_complete_inv:
  "client_run s0 tr s \<Longrightarrow> complete_inv s0 \<Longrightarrow> \<forall>x \<in> set tr. well_stamped (snd x) \<Longrightarrow> complete_inv s"
  by (induction rule: client_run.induct) (auto intro: complete_inv_step)

lemma init_complete_inv: "NewClient opts = Inr c \<Longrightarrow> complete_inv (init_sys c)"
  using NewClient_fields(5) [of opts c] by (simp add: complete_inv_def init_sys_def)

section \<open>PublishIngress and its steps\<close>

lemma client_run_snoc_iff:
  "client_run s (tr @ [(env, ev)]) s' \<longleftrightarrow> (\<exists>s1. client_run s tr s1 \<and> client_step env s1 ev s')"
  by (auto intro: run_snoc elim: client_run.cases)

lemma client_run_Nil_iff [simp]: "client_run s [] s' \<longleftrightarrow> s' = s"
  by (auto intro: run_Nil elim: client_run.cases)

lemma client_run_one_iff: "client_run s [(env, ev)] s' \<longleftrightarrow> client_step env s ev s'"
  using client_run_snoc_iff [of s "[]" env ev s'] by simp

lemma client_run_three_iff:
  "client_run s [(e1, ev1), (e2, ev2), (e3, ev3)] s' \<longleftrightarrow>
     (\<exists>s1 s2. client_step e1 s ev1 s1 \<and> client_step e2 s1 ev2 s2 \<and> client_step e3 s2 ev3 s')"
  using client_run_snoc_iff [of s "[(e1, ev1), (e2, ev2)]" e3 ev3 s']
    client_run_snoc_iff [of s "[(e1, ev1)]" e2 ev2] by (auto simp: client_run_one_iff)

inductive_cases publish_stepE: "client_step env s (EvPublish ctx p e) s'"
inductive_cases pub_send_stepE: "client_step env s EvPubSend s'"
inductive_cases pub_release_stepE: "client_step env s EvPubRelease s'"

text \<open>The publisher of a client without other publishers runs through its steps alone.\<close>

lemma publish_alone_returns:
  assumes "sy_panic s = None" and "sy_pubs s = []"
    and "Returns (c', err) \<in> set (PublishIngress env ctx p e (sy_client s))"
  shows "\<exists>evs \<in> {[EvPublish ctx p e], [EvPublish ctx p e, EvPubSend, EvPubRelease]}.
    client_run s (map (Pair env) evs) (s\<lparr>sy_client := c'\<rparr>)"
proof (cases "cl_started (sy_client s)")
  case False
  with assms have "client_step env s (EvPublish ctx p e) (s\<lparr>sy_client := c'\<rparr>)"
    using publish_not_started [of s env ctx p e] by (simp add: PublishIngress_def)
  then show ?thesis by (simp add: client_run_one_iff)
next
  case started: True
  with assms(3) obtain c1 r where c1: "(c1, r) \<in> set (acquireSlot ctx (sy_client s))"
    "(case r of
        Some e1 \<Rightarrow> Returns (c1, Some e1)
      | None \<Rightarrow> (case publish_send env p e c1 of
          Panics m \<Rightarrow> Panics m | Returns (c2, e2) \<Rightarrow> Returns (releaseSlot c2, e2))) = Returns (c', err)"
    by (auto simp: PublishIngress_def split: option.splits)
  show ?thesis
  proof (cases r)
    case (Some e1)
    with c1 publish_ctx [OF assms(1) started, of c1 e1 ctx env p e] show ?thesis
      by (simp add: client_run_one_iff)
  next
    case None
    with c1 obtain c2 where c2: "publish_send env p e c1 = Returns (c2, err)" "c' = releaseSlot c2"
      by (auto split: outcome.splits prod.splits)
    let ?s1 = "s\<lparr>sy_client := c1, sy_pubs := PubSending p e # sy_pubs s\<rparr>"
    let ?s2 = "?s1\<lparr>sy_client := c2, sy_pubs := [] @ PubReleasing err # []\<rparr>"
    have 1: "client_step env s (EvPublish ctx p e) ?s1"
      using publish_acquire [OF assms(1) started] c1(1) None by blast
    have 2: "client_step env ?s1 EvPubSend ?s2"
      by (rule publish_send [where xs = "[]" and ys = "[]" and p = p and e = e])
         (use assms(1,2) c2(1) in simp_all)
    have 3: "client_step env ?s2 EvPubRelease (?s2\<lparr>sy_client := releaseSlot (sy_client ?s2), sy_pubs := [] @ []\<rparr>)"
      by (rule publish_release [where xs = "[]" and ys = "[]" and err = err]) (use assms(1) in simp_all)
    have "?s2\<lparr>sy_client := releaseSlot (sy_client ?s2), sy_pubs := [] @ []\<rparr> = s\<lparr>sy_client := c'\<rparr>"
      using assms(2) c2(2) by simp
    with 1 2 3 have "client_run s (map (Pair env) [EvPublish ctx p e, EvPubSend, EvPubRelease])
        (s\<lparr>sy_client := c'\<rparr>)"
      by (simp only: list.map client_run_three_iff) metis
    then show ?thesis by blast
  qed
qed

lemma publish_step_result:
  assumes "client_step env s (EvPublish ctx p e) s'" and "sy_pubs s' = sy_pubs s"
  shows "\<exists>err. Returns (sy_client s', err) \<in> set (PublishIngress env ctx p e (sy_client s))"
proof (rule publish_stepE [OF assms(1)])
  assume "s' = s" "\<not> cl_started (sy_client s)"
  then show ?thesis by (simp add: PublishIngress_def)
next
  fix c' err
  assume "s' = s\<lparr>sy_client := c'\<rparr>" "cl_started (sy_client s)"
    "(c', Some err) \<in> set (acquireSlot ctx (sy_client s))"
  then show ?thesis by (force simp: PublishIngress_def image_iff)
qed (use assms(2) in simp)

lemma publish_send_result:
  assumes "client_step env s (EvPublish ctx p e) s1" and "sy_pubs s = []"
    and "client_step env s1 EvPubSend s2"
  shows "\<exists>c1. (c1, None) \<in> set (acquireSlot ctx (sy_client s)) \<and> cl_started (sy_client s) \<and>
    (case publish_send env p e c1 of
       Panics m \<Rightarrow> sy_panic s2 = Some m
     | Returns (c2, err) \<Rightarrow> sy_client s2 = c2 \<and> sy_pubs s2 = [PubReleasing err] \<and> sy_panic s2 = None)"
proof (rule publish_stepE [OF assms(1)])
  fix c1
  assume c1: "s1 = s\<lparr>sy_client := c1, sy_pubs := PubSending p e # sy_pubs s\<rparr>"
    "cl_started (sy_client s)" "(c1, None) \<in> set (acquireSlot ctx (sy_client s))"
  with assms(2) have s1: "sy_pubs s1 = [PubSending p e]" "sy_client s1 = c1" by simp_all
  have "case publish_send env p e c1 of
       Panics m \<Rightarrow> sy_panic s2 = Some m
     | Returns (c2, err) \<Rightarrow> sy_client s2 = c2 \<and> sy_pubs s2 = [PubReleasing err] \<and> sy_panic s2 = None"
    by (rule pub_send_stepE [OF assms(3)]) (use s1 in \<open>auto simp: Cons_eq_append_conv\<close>)
  with c1 show ?thesis by blast
qed (use assms(2) in \<open>auto intro: pub_send_stepE [OF assms(3)]\<close>)

lemma publish_steps_result:
  assumes "client_step env s (EvPublish ctx p e) s1" and "sy_pubs s = []"
    and "client_step env s1 EvPubSend s2" and "client_step env s2 EvPubRelease s3"
  shows "\<exists>err. Returns (sy_client s3, err) \<in> set (PublishIngress env ctx p e (sy_client s))"
proof -
  from publish_send_result [OF assms(1-3)] obtain c1 where
    c1: "(c1, None) \<in> set (acquireSlot ctx (sy_client s))" "cl_started (sy_client s)"
    "case publish_send env p e c1 of
       Panics m \<Rightarrow> sy_panic s2 = Some m
     | Returns (c2, err) \<Rightarrow> sy_client s2 = c2 \<and> sy_pubs s2 = [PubReleasing err] \<and> sy_panic s2 = None"
    by blast
  have ok: "sy_panic s2 = None" and s3: "sy_client s3 = releaseSlot (sy_client s2)"
    using assms(4) by (auto elim: pub_release_stepE)
  then obtain c2 err where "publish_send env p e c1 = Returns (c2, err)" "sy_client s2 = c2"
    using c1(3) by (cases "publish_send env p e c1") auto
  with c1(1,2) s3 show ?thesis
    by (force simp: PublishIngress_def image_iff)
qed

lemma publish_steps_panic:
  assumes "client_step env s (EvPublish ctx p e) s1" and "sy_pubs s = []"
    and "client_step env s1 EvPubSend s2" and "sy_panic s2 = Some m"
  shows "Panics m \<in> set (PublishIngress env ctx p e (sy_client s))"
proof -
  from publish_send_result [OF assms(1-3)] obtain c1 where
    c1: "(c1, None) \<in> set (acquireSlot ctx (sy_client s))" "cl_started (sy_client s)"
    "case publish_send env p e c1 of
       Panics m \<Rightarrow> sy_panic s2 = Some m
     | Returns (c2, err) \<Rightarrow> sy_client s2 = c2 \<and> sy_pubs s2 = [PubReleasing err] \<and> sy_panic s2 = None"
    by blast
  then have "publish_send env p e c1 = Panics m"
    using assms(4) by (cases "publish_send env p e c1") auto
  with c1(1,2) show ?thesis by (force simp: PublishIngress_def image_iff)
qed

lemma publish_alone_panics:
  assumes "sy_panic s = None" and "sy_pubs s = []"
    and "Panics m \<in> set (PublishIngress env ctx p e (sy_client s))"
  shows "\<exists>s'. client_run s (map (Pair env) [EvPublish ctx p e, EvPubSend]) s' \<and> sy_panic s' = Some m"
proof -
  from assms(3) obtain c1 where c1: "(c1, None) \<in> set (acquireSlot ctx (sy_client s))"
    "cl_started (sy_client s)" "publish_send env p e c1 = Panics m"
    by (auto simp: PublishIngress_def split: if_splits option.splits outcome.splits prod.splits)
  let ?s1 = "s\<lparr>sy_client := c1, sy_pubs := PubSending p e # sy_pubs s\<rparr>"
  have 1: "client_step env s (EvPublish ctx p e) ?s1"
    using publish_acquire [OF assms(1) c1(2,1)] .
  have "client_step env ?s1 EvPubSend (?s1\<lparr>sy_panic := Some m\<rparr>)"
    by (rule publish_panic [where xs = "[]" and ys = "[]" and p = p and e = e])
       (use assms(1,2) c1(3) in simp_all)
  with run_snoc [OF client_run_one [OF 1] this] show ?thesis by fastforce
qed

lemma client_run_two_iff:
  "client_run s [(e1, ev1), (e2, ev2)] s' \<longleftrightarrow>
     (\<exists>s1. client_step e1 s ev1 s1 \<and> client_step e2 s1 ev2 s')"
  using client_run_snoc_iff [of s "[(e1, ev1)]" e2 ev2 s'] by (simp add: client_run_one_iff)

end
