(* ===== verification/Server_Steps.thy ===== *)
theory Server_Steps
  imports Server
begin

text \<open>
  The handler goroutine of one stream of the bridge server, \<open>bridgeService.Stream\<close>, as a machine
  that reacts to what comes from outside: a request or an error from \<open>Recv\<close>, and the return of the
  handler's method it is in. While it is in a method the application may use the session. Run to
  its end the machine is the function \<open>bridgeService_Stream\<close>.
\<close>

section \<open>The machine\<close>

text \<open>Before the first \<open>Recv\<close>, in a method of the handler, in the loop, in the deferred \<open>OnClose\<close>.\<close>

datatype 'v stream_pc =
    Opened
  | InHandler "'v handler_call"
  | Looping
  | Leaving go_error
  | Ended go_error

datatype 'v stream_event =
    Received "'v StreamRequest"
  | RecvFailed go_error
  | Returned "go_error option"

text \<open>The reaction is where the goroutine stands next, with the call of the handler it began.\<close>

fun stream_react ::
  "'v stream_pc \<Rightarrow> 'v stream_event \<Rightarrow> ('v stream_pc \<times> 'v handler_call list) option" where
  "stream_react Opened (Received req) =
     Some (case StreamRequest_GetRegister (Some req) of
             None \<Rightarrow> (Ended (ErrorsNew ''register frame required''), [])
           | Some reg \<Rightarrow>
               (InHandler (OnRegister (register_meta reg)), [OnRegister (register_meta reg)]))"
| "stream_react Opened (RecvFailed e) = Some (Ended e, [])"
| "stream_react Looping (Received req) =
     Some (case dispatch req of None \<Rightarrow> (Looping, []) | Some c \<Rightarrow> (InHandler c, [c]))"
| "stream_react Looping (RecvFailed e) = Some (Leaving e, [OnClose])"
| "stream_react (InHandler c) (Returned r) =
     Some (case r of
             None \<Rightarrow> (Looping, [])
           | Some e \<Rightarrow> (case c of OnRegister _ \<Rightarrow> (Ended e, []) | _ \<Rightarrow> (Leaving e, [OnClose])))"
| "stream_react (Leaving e) (Returned r) = Some (Ended e, [])"
| "stream_react _ _ = None"

text \<open>A run of the machine collects the calls it begins.\<close>

fun stream_run ::
  "'v stream_pc \<Rightarrow> 'v stream_event list \<Rightarrow> ('v stream_pc \<times> 'v handler_call list) option" where
  "stream_run pc [] = Some (pc, [])"
| "stream_run pc (ev # evs) =
     (case stream_react pc ev of
        None \<Rightarrow> None
      | Some (pc', cs) \<Rightarrow>
          map_option (\<lambda>(pc'', cs'). (pc'', cs @ cs')) (stream_run pc' evs))"

lemma stream_run_ended [simp]: "stream_run (Ended e) evs = (if evs = [] then Some (Ended e, []) else None)"
  by (cases evs) simp_all

section \<open>What goes in\<close>

text \<open>The requests among the events, the answers of the handler, and what \<open>Recv\<close> failed with.\<close>

definition requests_in :: "'v stream_event list \<Rightarrow> 'v StreamRequest list" where
  "requests_in evs = List.map_filter (\<lambda>ev. case ev of Received r \<Rightarrow> Some r | _ \<Rightarrow> None) evs"

definition answers_in :: "'v stream_event list \<Rightarrow> go_error option list" where
  "answers_in evs = List.map_filter (\<lambda>ev. case ev of Returned r \<Rightarrow> Some r | _ \<Rightarrow> None) evs"

definition failure_in :: "'v stream_event list \<Rightarrow> go_error option" where
  "failure_in evs =
     (case List.map_filter (\<lambda>ev. case ev of RecvFailed e \<Rightarrow> Some e | _ \<Rightarrow> None) evs of
        [] \<Rightarrow> None | e # _ \<Rightarrow> Some e)"

lemma events_in_simps [simp]:
  "requests_in [] = []" "answers_in [] = []" "failure_in [] = None"
  "requests_in (Received r # evs) = r # requests_in evs"
  "requests_in (RecvFailed e # evs) = requests_in evs"
  "requests_in (Returned a # evs) = requests_in evs"
  "answers_in (Received r # evs) = answers_in evs"
  "answers_in (RecvFailed e # evs) = answers_in evs"
  "answers_in (Returned a # evs) = a # answers_in evs"
  "failure_in (Received r # evs) = failure_in evs"
  "failure_in (RecvFailed e # evs) = Some e"
  "failure_in (Returned a # evs) = failure_in evs"
  by (simp_all add: requests_in_def answers_in_def failure_in_def map_filter_simps)

text \<open>A handler that answers as it was told, and does nothing else.\<close>

definition scripted :: "('v, go_error option list) handler" where
  "scripted sess c answers = (tl answers, case answers of [] \<Rightarrow> None | a # _ \<Rightarrow> a)"

lemma scripted_Cons [simp]: "scripted sess c (a # answers) = (answers, a)"
  by (simp add: scripted_def)

section \<open>The machine and the function\<close>

text \<open>
  A finished run from the loop is the loop, with the deferred \<open>OnClose\<close> at the end: one more answer
  of the handler than the loop itself asks for.
\<close>

lemma run_from_Leaving:
  "stream_run (Leaving e) evs = Some (Ended e', cs) \<longleftrightarrow> cs = [] \<and> e' = e \<and> (\<exists>r. evs = [Returned r])"
proof (cases evs)
  case (Cons ev rest)
  then show ?thesis by (cases ev) (auto split: if_splits)
qed auto

lemma stream_run_Cons_iff:
  "stream_run pc (ev # evs) = Some (pc', cs) \<longleftrightarrow>
     (\<exists>pc1 cs1 cs2. stream_react pc ev = Some (pc1, cs1) \<and> stream_run pc1 evs = Some (pc', cs2) \<and>
        cs = cs1 @ cs2)"
  by (auto split: option.splits)

text \<open>In a method of the handler a run goes on with the method's answer.\<close>

lemma run_from_InHandler:
  assumes "stream_run (InHandler c) evs = Some (Ended e, cs)" and "is_frame_call c"
  obtains (go_on) rest where "evs = Returned None # rest" and "stream_run Looping rest = Some (Ended e, cs)"
    | (fail) r where "evs = [Returned (Some e), Returned r]" and "cs = [OnClose]"
proof (cases evs)
  case Nil
  with assms show ?thesis by simp
next
  case (Cons ev rest)
  with assms(1) obtain r where r: "ev = Returned r" by (cases ev) auto
  show ?thesis
  proof (cases r)
    case None
    with Cons r assms(1) show ?thesis by (intro go_on [of rest]) (auto split: option.splits)
  next
    case (Some e')
    with r assms(2) have "stream_react (InHandler c) ev = Some (Leaving e', [OnClose])"
      by (cases c) simp_all
    with Cons assms(1) obtain cs' where "stream_run (Leaving e') rest = Some (Ended e, cs')"
      "cs = OnClose # cs'"
      by (auto simp del: stream_react.simps split: option.splits)
    with Cons r Some fail show ?thesis by (auto simp: run_from_Leaving)
  qed
qed

lemma loop_run_is_loop:
  assumes "stream_run Looping evs = Some (Ended e, cs)"
    and "failure_in evs = None \<or> failure_in evs = Some err"
  shows "\<exists>cs0 a. cs = cs0 @ [OnClose] \<and>
    stream_loop scripted sess (requests_in evs) err (answers_in evs) = ([a], cs0, e)"
  using assms
proof (induction evs arbitrary: cs rule: length_induct)
  case (1 evs)
  note ih = 1(1) and prems = 1(2,3)
  show ?case
  proof (cases evs)
    case Nil
    with 1 show ?thesis by simp
  next
    case (Cons ev rest)
    show ?thesis
    proof (cases ev)
      case (Received req)
      show ?thesis
      proof (cases "dispatch req")
        case None
        with 1 Cons Received show ?thesis by (auto split: option.splits)
      next
        case (Some c)
        with 1(2) Cons Received obtain cs' where
          run: "stream_run (InHandler c) rest = Some (Ended e, cs')" "cs = c # cs'"
          by (auto split: option.splits)
        show ?thesis
        proof (cases rule: run_from_InHandler [OF run(1) dispatch_frame_call [OF Some]])
          case (1 rest')
          have "length rest' < length evs" "failure_in rest' = None \<or> failure_in rest' = Some err"
            using 1(1) Cons Received prems(2) by simp_all
          with ih 1(2) obtain cs0 a where "cs' = cs0 @ [OnClose]"
            "stream_loop scripted sess (requests_in rest') err (answers_in rest') = ([a], cs0, e)"
            by blast
          with 1 Cons Received Some run(2) show ?thesis by auto
        next
          case (2 r)
          with Cons Received Some run(2) show ?thesis by auto
        qed
      qed
    next
      case (RecvFailed e')
      with 1 Cons show ?thesis by (auto simp: run_from_Leaving split: option.splits)
    next
      case (Returned r)
      with 1 Cons show ?thesis by simp
    qed
  qed
qed

lemma run_is_stream:
  assumes "stream_run Opened evs = Some (Ended e, cs)"
    and "failure_in evs = None \<or> failure_in evs = Some err"
  shows "bridgeService_Stream scripted send (requests_in evs) err (answers_in evs) = ([], cs, e)"
proof (cases evs)
  case Nil
  with assms show ?thesis by simp
next
  case (Cons ev rest)
  show ?thesis
  proof (cases ev)
    case (Received req)
    show ?thesis
    proof (cases "StreamRequest_GetRegister (Some req)")
      case None
      with assms Cons Received show ?thesis
        by (auto simp: bridgeService_Stream_def split: option.splits if_splits)
    next
      case (Some reg)
      let ?c = "OnRegister (register_meta reg) :: 'a handler_call"
      from Some assms Cons Received obtain cs' where
        run: "stream_run (InHandler ?c) rest = Some (Ended e, cs')" "cs = ?c # cs'"
        by (auto split: option.splits)
      then obtain r rest' where rest: "rest = Returned r # rest'"
        by (cases rest; cases "hd rest") auto
      show ?thesis
      proof (cases r)
        case None
        with run rest have "stream_run Looping rest' = Some (Ended e, cs')"
          by (auto split: option.splits)
        moreover have "failure_in rest' = None \<or> failure_in rest' = Some err"
          using assms(2) Cons Received rest by simp
        ultimately obtain cs0 a where "cs' = cs0 @ [OnClose]"
          "stream_loop scripted \<lparr>ss_meta = register_meta reg, ss_stream = send\<rparr> (requests_in rest') err
             (answers_in rest') = ([a], cs0, e)"
          using loop_run_is_loop by blast
        with None Some Cons Received rest run(2) show ?thesis
          by (simp add: bridgeService_Stream_def)
      next
        case (Some e')
        with run rest have "rest' = []" "cs' = []" "e = e'" by (auto split: if_splits)
        with Some \<open>StreamRequest_GetRegister (Some req) = Some reg\<close> Cons Received rest run(2)
        show ?thesis by (simp add: bridgeService_Stream_def)
      qed
    qed
  next
    case (RecvFailed e')
    with assms Cons show ?thesis by (auto simp: bridgeService_Stream_def split: if_splits)
  next
    case (Returned r)
    with assms Cons show ?thesis by simp
  qed
qed

text \<open>And every execution of the function, with whatever handler, is a run of the machine.\<close>

definition reads_from :: "'v stream_event list \<Rightarrow> 'v StreamRequest list \<Rightarrow> go_error \<Rightarrow> bool" where
  "reads_from evs recvd err \<longleftrightarrow>
     prefix (requests_in evs) recvd \<and>
     (failure_in evs = None \<or> failure_in evs = Some err \<and> requests_in evs = recvd)"

lemma reads_from_simps [simp]:
  "reads_from [] recvd err" "reads_from (Returned r # evs) recvd err = reads_from evs recvd err"
  "reads_from (Received req # evs) (req # recvd) err = reads_from evs recvd err"
  "reads_from [RecvFailed err] [] err"
  "reads_from [RecvFailed err, Returned r] [] err"
  by (simp_all add: reads_from_def)

lemma loop_has_run:
  "stream_loop h sess recvd err w = (w', cs, e) \<Longrightarrow>
     \<exists>evs. stream_run Looping evs = Some (Ended e, cs @ [OnClose]) \<and> reads_from evs recvd err"
proof (induction recvd arbitrary: w cs)
  case Nil
  then show ?case by (intro exI [of _ "[RecvFailed err, Returned None]"]) simp
next
  case (Cons req recvd)
  show ?case
  proof (cases "dispatch req")
    case None
    with Cons obtain evs where "stream_run Looping evs = Some (Ended e, cs @ [OnClose])"
      "reads_from evs recvd err" by auto
    with None show ?thesis by (intro exI [of _ "Received req # evs"]) simp
  next
    case (Some c)
    obtain w1 r where hc: "h sess c w = (w1, r)" by fastforce
    show ?thesis
    proof (cases r)
      case None
      obtain cs2 where l: "stream_loop h sess recvd err w1 = (w', cs2, e)" "cs = c # cs2"
        using Cons.prems Some hc None by (auto split: prod.splits)
      from Cons.IH [OF l(1)] obtain evs where
        "stream_run Looping evs = Some (Ended e, cs2 @ [OnClose])" "reads_from evs recvd err" by blast
      with Some l(2) show ?thesis
        by (intro exI [of _ "Received req # Returned None # evs"]) simp
    next
      case (Some e')
      with \<open>dispatch req = Some c\<close> hc Cons.prems have "cs = [c]" "e' = e" by simp_all
      moreover have "stream_react (InHandler c) (Returned (Some e)) = Some (Leaving e, [OnClose])"
        using dispatch_frame_call [OF \<open>dispatch req = Some c\<close>] by (cases c) simp_all
      ultimately show ?thesis using \<open>dispatch req = Some c\<close>
        by (intro exI [of _ "[Received req, Returned (Some e), Returned None]"]) simp
    qed
  qed
qed

lemma stream_has_run:
  assumes "bridgeService_Stream h send recvd err w = (w', cs, e)"
  shows "\<exists>evs. stream_run Opened evs = Some (Ended e, cs) \<and> reads_from evs recvd err"
proof (cases recvd)
  case Nil
  with assms show ?thesis
    by (intro exI [of _ "[RecvFailed err]"]) (simp add: bridgeService_Stream_def)
next
  case (Cons req reqs)
  show ?thesis
  proof (cases "StreamRequest_GetRegister (Some req)")
    case None
    with assms Cons show ?thesis
      by (intro exI [of _ "[Received req]"]) (auto simp: bridgeService_Stream_def)
  next
    case (Some reg)
    let ?sess = "\<lparr>ss_meta = register_meta reg, ss_stream = send\<rparr>"
    obtain w1 r where hc: "h ?sess (OnRegister (register_meta reg)) w = (w1, r)" by fastforce
    show ?thesis
    proof (cases r)
      case None
      obtain w2 cs2 where l: "stream_loop h ?sess reqs err w1 = (w2, cs2, e)"
        "cs = OnRegister (register_meta reg) # cs2 @ [OnClose]"
        using assms Cons Some hc None by (auto simp: bridgeService_Stream_def Let_def split: prod.splits)
      from loop_has_run [OF l(1)] obtain evs where
        "stream_run Looping evs = Some (Ended e, cs2 @ [OnClose])" "reads_from evs reqs err" by blast
      with Some Cons l(2) show ?thesis
        by (intro exI [of _ "Received req # Returned None # evs"]) simp
    next
      case (Some e')
      with \<open>StreamRequest_GetRegister (Some req) = Some reg\<close> hc assms Cons show ?thesis
        by (intro exI [of _ "[Received req, Returned (Some e')]"])
           (simp add: bridgeService_Stream_def)
    qed
  qed
qed

end
