(* ===== verification/Bridge_Link.thy ===== *)
theory Bridge_Link
  imports Client_Acks Client_Traces Server_Steps
begin

text \<open>
  A bridge client joined to its server. The state is the client with its goroutines, the handler
  goroutine of each of its streams on the server, and what has passed over the wires. A stream
  of gRPC carries the messages of either side in order and may break off at any point; what
  was sent and not yet received is in flight. The application on the server uses its sessions
  at any time. Runs of the whole project to runs of the client, and on every stream to runs of
  \<open>bridgeService_Stream\<close>.
\<close>

section \<open>Wires\<close>

text \<open>A log of messages with the stream each went over, and the part of one stream.\<close>

definition on_stream :: "nat \<Rightarrow> (nat \<times> 'a) list \<Rightarrow> 'a list" where
  "on_stream st xs = map snd (filter (\<lambda>x. fst x = st) xs)"

lemma on_stream_simps [simp]:
  "on_stream st [] = []"
  "on_stream st (x # xs) = (if fst x = st then snd x # on_stream st xs else on_stream st xs)"
  "on_stream st (xs @ ys) = on_stream st xs @ on_stream st ys"
  by (simp_all add: on_stream_def)

lemma on_stream_tagged [simp]:
  "on_stream st (map (Pair st') xs) = (if st' = st then xs else [])"
  by (induction xs) auto

definition in_flight :: "nat \<Rightarrow> (nat \<times> 'a) list \<Rightarrow> (nat \<times> 'a) list \<Rightarrow> 'a list" where
  "in_flight st got sent = drop (length (on_stream st got)) (on_stream st sent)"

definition wire_ok :: "(nat \<times> 'a) list \<Rightarrow> (nat \<times> 'a) list \<Rightarrow> bool" where
  "wire_ok got sent = (\<forall>st. prefix (on_stream st got) (on_stream st sent))"

lemma wire_ok_Nil [simp]: "wire_ok [] sent"
  by (simp add: wire_ok_def)

lemma wire_ok_send: "wire_ok got sent \<Longrightarrow> wire_ok got (sent @ xs)"
  by (auto simp: wire_ok_def)

lemma wire_ok_receive:
  assumes "wire_ok got sent" and "in_flight st got sent = x # rest"
  shows "wire_ok (got @ [(st, x)]) sent"
proof -
  obtain ys where ys: "on_stream st sent = on_stream st got @ ys"
    using assms(1) by (auto simp: wire_ok_def prefix_def)
  with assms(2) have "ys = x # rest" by (simp add: in_flight_def)
  with ys assms(1) show ?thesis by (auto simp: wire_ok_def prefix_def)
qed

text \<open>What was received was sent, as often as it was received.\<close>

lemma count_list_on_stream: "count_list xs (st, x) = count_list (on_stream st xs) x"
  by (induction xs) auto

lemma wire_ok_mset: "wire_ok got sent \<Longrightarrow> mset got \<subseteq># mset sent"
proof (intro mset_subset_eqI)
  fix z :: "nat \<times> 'a"
  assume ok: "wire_ok got sent"
  obtain st x where z: "z = (st, x)" by (cases z)
  from ok obtain ys where "on_stream st sent = on_stream st got @ ys"
    by (auto simp: wire_ok_def prefix_def)
  then show "count (mset got) z \<le> count (mset sent) z"
    by (simp add: z count_mset count_list_on_stream)
qed

lemma length_filter_mset:
  assumes "mset xs \<subseteq># mset ys"
  shows "length (filter P xs) \<le> length (filter P ys)"
proof -
  have "size (mset (filter P xs)) \<le> size (mset (filter P ys))"
    unfolding mset_filter by (intro size_mset_mono multiset_filter_mono assms)
  then show ?thesis by (simp only: size_mset)
qed

section \<open>The joint state\<close>

text \<open>
  \<open>lk_read\<close> and \<open>lk_in\<close> are the messages the server and the client have received, \<open>lk_out\<close> those
  the server has sent; those the client has sent are its \<open>cl_sent\<close>. \<open>lk_calls\<close> are the calls of the
  handler's methods.
\<close>

record 'v link =
  lk_client :: "'v sys"
  lk_opened :: "nat list"
  lk_pc :: "nat \<Rightarrow> 'v stream_pc"
  lk_calls :: "(nat \<times> 'v handler_call) list"
  lk_read :: "(nat \<times> 'v StreamRequest) list"
  lk_in :: "(nat \<times> 'v StreamResponse) list"
  lk_out :: "(nat \<times> 'v StreamResponse) list"

definition init_link :: "'v client \<Rightarrow> 'v link" where
  "init_link c =
     \<lparr>lk_client = init_sys c, lk_opened = [], lk_pc = (\<lambda>_. Opened), lk_calls = [], lk_read = [],
      lk_in = [], lk_out = []\<rparr>"

definition lk_sent :: "'v link \<Rightarrow> (nat \<times> 'v StreamRequest) list" where
  "lk_sent l = cl_sent (sy_client (lk_client l))"

text \<open>\<open>Send\<close> on the server's end of a stream puts the response on the wire or fails.\<close>

definition wire_Send ::
  "nat \<Rightarrow> go_error option \<Rightarrow> 'v StreamResponse \<Rightarrow> (nat \<times> 'v StreamResponse) list \<Rightarrow>
     (nat \<times> 'v StreamResponse) list \<times> go_error option" where
  "wire_Send st answer resp out =
     (case answer of None \<Rightarrow> (out @ [(st, resp)], None) | Some e \<Rightarrow> (out, Some e))"

datatype 'v link_event =
    LClient "'v event"
  | LRecv nat "'v StreamResponse"
  | LServer nat "'v stream_event"
  | LDeliver nat "string \<times> pb_timestamp" "'v TransportEnvelope"
  | LBroadcast nat "string \<times> pb_timestamp" "'v TransportEnvelope"
  | LHeartbeat nat string

text \<open>
  The application has the session of a stream once the handler was told of it by \<open>OnRegister\<close>, and
  may use it even after the stream has ended.
\<close>

inductive link_step ::
  "('v, 'c) bridge_env \<Rightarrow> 'v link \<Rightarrow> 'v link_event \<Rightarrow> 'v link \<Rightarrow> bool" where
  client_moves:
    "client_step env (lk_client l) ev s' \<Longrightarrow> ev \<noteq> EvConnect \<Longrightarrow> (\<forall>resp. ev \<noteq> EvRecv resp) \<Longrightarrow>
     link_step env l (LClient ev) (l\<lparr>lk_client := s'\<rparr>)"
| client_opens:
    "client_step env (lk_client l) EvConnect s' \<Longrightarrow> sy_run s' = RunRegistering r st \<Longrightarrow>
     st \<notin> set (lk_opened l) \<Longrightarrow>
     link_step env l (LClient EvConnect) (l\<lparr>lk_client := s', lk_opened := st # lk_opened l\<rparr>)"
| client_cannot_open:
    "client_step env (lk_client l) EvConnect s' \<Longrightarrow> sy_run s' = RunBackoff r \<Longrightarrow>
     link_step env l (LClient EvConnect) (l\<lparr>lk_client := s'\<rparr>)"
| client_receives:
    "sy_cons (lk_client l) = xs @ (g, InRecv st) # ys \<Longrightarrow>
     in_flight st (lk_in l) (lk_out l) = resp # rest \<Longrightarrow>
     s' = (lk_client l)\<lparr>sy_cons := xs @
        (g, (case receive resp of Ignored \<Rightarrow> Receiving | d \<Rightarrow> Handing d)) # ys\<rparr> \<Longrightarrow>
     client_step env (lk_client l) (EvRecv resp) s' \<Longrightarrow>
     link_step env l (LRecv st resp) (l\<lparr>lk_client := s', lk_in := lk_in l @ [(st, resp)]\<rparr>)"
| server_receives:
    "in_flight st (lk_read l) (lk_sent l) = req # rest \<Longrightarrow>
     stream_react (lk_pc l st) (Received req) = Some (pc', cs) \<Longrightarrow>
     link_step env l (LServer st (Received req))
       (l\<lparr>lk_pc := (lk_pc l)(st := pc'), lk_calls := lk_calls l @ map (Pair st) cs,
          lk_read := lk_read l @ [(st, req)]\<rparr>)"
| server_moves:
    "(\<forall>req. ev \<noteq> Received req) \<Longrightarrow> st \<in> set (lk_opened l) \<Longrightarrow>
     stream_react (lk_pc l st) ev = Some (pc', cs) \<Longrightarrow>
     link_step env l (LServer st ev)
       (l\<lparr>lk_pc := (lk_pc l)(st := pc'), lk_calls := lk_calls l @ map (Pair st) cs\<rparr>)"
| server_delivers:
    "(st, OnRegister meta) \<in> set (lk_calls l) \<Longrightarrow>
     SendDeliver \<lparr>ss_meta = meta, ss_stream = wire_Send st answer\<rparr> p e (lk_out l) = (out, r) \<Longrightarrow>
     link_step env l (LDeliver st p e) (l\<lparr>lk_out := out\<rparr>)"
| server_broadcasts:
    "(st, OnRegister meta) \<in> set (lk_calls l) \<Longrightarrow>
     SendBroadcast \<lparr>ss_meta = meta, ss_stream = wire_Send st answer\<rparr> p e (lk_out l) = (out, r) \<Longrightarrow>
     link_step env l (LBroadcast st p e) (l\<lparr>lk_out := out\<rparr>)"
| server_beats:
    "(st, OnRegister meta) \<in> set (lk_calls l) \<Longrightarrow>
     SendHeartbeat \<lparr>ss_meta = meta, ss_stream = wire_Send st answer\<rparr> n (lk_out l) = (out, r) \<Longrightarrow>
     link_step env l (LHeartbeat st n) (l\<lparr>lk_out := out\<rparr>)"

inductive link_run ::
  "'v link \<Rightarrow> (('v, 'c) bridge_env \<times> 'v link_event) list \<Rightarrow> 'v link \<Rightarrow> bool" where
  link_Nil: "link_run l [] l"
| link_snoc: "link_run l tr l' \<Longrightarrow> link_step env l' ev l'' \<Longrightarrow> link_run l (tr @ [(env, ev)]) l''"

definition link_reaches ::
  "Options \<Rightarrow> (('v, 'c) bridge_env \<times> 'v link_event) list \<Rightarrow> 'v link \<Rightarrow> bool" where
  "link_reaches opts tr l =
     (case NewClient opts of Inl _ \<Rightarrow> False | Inr c \<Rightarrow> link_run (init_link c) tr l)"

lemma link_reachesE:
  assumes "link_reaches opts tr l"
  obtains c where "NewClient opts = Inr c" and "link_run (init_link c) tr l"
  using assms by (auto simp: link_reaches_def split: sum.splits)

lemma link_run_invariant:
  fixes tr :: "(('v, 'c) bridge_env \<times> 'v link_event) list"
  assumes run: "link_run l0 tr l" and init: "P l0"
    and step: "\<And>(env :: ('v, 'c) bridge_env) l ev l'. P l \<Longrightarrow> link_step env l ev l' \<Longrightarrow> P l'"
  shows "P l"
  using run init by (induction rule: link_run.induct) (auto intro: step)

section \<open>The client's part\<close>

definition client_event :: "'v link_event \<Rightarrow> 'v event option" where
  "client_event ev =
     (case ev of LClient e \<Rightarrow> Some e | LRecv st resp \<Rightarrow> Some (EvRecv resp) | _ \<Rightarrow> None)"

definition client_part ::
  "(('v, 'c) bridge_env \<times> 'v link_event) list \<Rightarrow> (('v, 'c) bridge_env \<times> 'v event) list" where
  "client_part tr = List.map_filter (\<lambda>x. map_option (Pair (fst x)) (client_event (snd x))) tr"

lemma client_event_simps [simp]:
  "client_event (LClient e) = Some e" "client_event (LRecv st resp) = Some (EvRecv resp)"
  "client_event (LServer st sev) = None" "client_event (LDeliver st p env) = None"
  "client_event (LBroadcast st p env) = None" "client_event (LHeartbeat st n) = None"
  by (simp_all add: client_event_def)

lemma client_part_simps [simp]:
  "client_part [] = []"
  "client_part (tr @ [(env, ev)]) =
     client_part tr @ (case client_event ev of None \<Rightarrow> [] | Some e \<Rightarrow> [(env, e)])"
  by (auto simp: client_part_def map_filter_def split: option.split)

text \<open>A step of the whole is a step of the client or leaves the client alone.\<close>

lemma link_step_client:
  "link_step env l ev l' \<Longrightarrow>
     (case client_event ev of
        None \<Rightarrow> lk_client l' = lk_client l
      | Some e \<Rightarrow> client_step env (lk_client l) e (lk_client l'))"
  by (induction rule: link_step.induct) auto

lemma link_run_client:
  "link_run l0 tr l \<Longrightarrow> client_run (lk_client l0) (client_part tr) (lk_client l)"
proof (induction rule: link_run.induct)
  case (link_Nil l)
  then show ?case by (simp add: run_Nil)
next
  case (link_snoc l tr l' env ev l'')
  from link_step_client [OF link_snoc.hyps(2)] link_snoc.IH show ?case
    by (auto split: option.splits intro: run_snoc)
qed

lemma link_client_reaches:
  "link_reaches opts tr l \<Longrightarrow> client_reaches opts (client_part tr) (lk_client l)"
  using link_run_client by (fastforce simp: link_reaches_def client_reaches_def init_link_def split: sum.splits)

end
