(* ===== verification/Link_Invariants.thy ===== *)
theory Link_Invariants
  imports Bridge_Link
begin

text \<open>
  What holds whenever a client and its server run together: each end receives a prefix of what
  the other sent; on every stream the handler is called as \<open>bridgeService_Stream\<close> calls it for the
  frames received so far; over one connection all responses come over one stream.
\<close>

section \<open>Wires\<close>

lemma server_send_out:
  "SendDeliver \<lparr>ss_meta = meta, ss_stream = wire_Send st answer\<rparr> p e out = (out', r) \<Longrightarrow>
     \<exists>xs. out' = out @ xs"
  "SendBroadcast \<lparr>ss_meta = meta, ss_stream = wire_Send st answer\<rparr> p e out = (out', r) \<Longrightarrow>
     \<exists>xs. out' = out @ xs"
  "SendHeartbeat \<lparr>ss_meta = meta, ss_stream = wire_Send st answer\<rparr> n out = (out', r) \<Longrightarrow>
     \<exists>xs. out' = out @ xs"
  by (auto simp: SendDeliver_def SendBroadcast_def SendHeartbeat_def session_send_def wire_Send_def
      split: option.splits)

definition wires_inv :: "'v link \<Rightarrow> bool" where
  "wires_inv l \<longleftrightarrow> wire_ok (lk_read l) (lk_sent l) \<and> wire_ok (lk_in l) (lk_out l)"

lemma link_step_sent: "link_step env l ev l' \<Longrightarrow> \<exists>fs. lk_sent l' = lk_sent l @ fs"
  by (drule link_step_client)
     (auto simp: lk_sent_def sends_def split: option.splits dest!: step_sends)

lemma wires_inv_step: "link_step env l ev l' \<Longrightarrow> wires_inv l \<Longrightarrow> wires_inv l'"
proof -
  assume step: "link_step env l ev l'" and inv: "wires_inv l"
  obtain fs where fs: "lk_sent l' = lk_sent l @ fs" using link_step_sent [OF step] by blast
  from step inv fs show "wires_inv l'"
  proof (induction rule: link_step.induct)
    case (client_receives l xs g st ys resp rest s' env)
    then show ?case by (simp add: wires_inv_def wire_ok_receive wire_ok_send)
  next
    case (server_receives st l req rest pc' cs env)
    then show ?case by (simp add: wires_inv_def wire_ok_receive lk_sent_def)
  qed (auto simp: wires_inv_def wire_ok_send dest!: server_send_out)
qed

section \<open>The handler's calls\<close>

text \<open>The calls the frames of a stream ask for: none unless the first one registers.\<close>

definition served :: "'v StreamRequest list \<Rightarrow> 'v handler_call list option" where
  "served reqs =
     (case reqs of
        [] \<Rightarrow> None
      | first # rest \<Rightarrow>
          map_option (\<lambda>reg. OnRegister (register_meta reg) # wanted_calls rest)
            (StreamRequest_GetRegister (Some first)))"

lemma served_Nil [simp]: "served [] = None"
  by (simp add: served_def)

lemma served_snoc:
  "served reqs = Some cs \<Longrightarrow>
     served (reqs @ [req]) = Some (cs @ (case dispatch req of None \<Rightarrow> [] | Some c \<Rightarrow> [c]))"
  by (cases reqs) (auto simp: served_def wanted_calls_def map_filter_def split: option.split)

definition stream_inv :: "'v stream_pc \<Rightarrow> 'v StreamRequest list \<Rightarrow> 'v handler_call list \<Rightarrow> bool" where
  "stream_inv pc reqs calls =
     (case pc of
        Opened \<Rightarrow> reqs = [] \<and> calls = []
      | InHandler c \<Rightarrow> served reqs = Some calls
      | Looping \<Rightarrow> served reqs = Some calls
      | Leaving e \<Rightarrow> (\<exists>cs. served reqs = Some cs \<and> calls = cs @ [OnClose])
      | Ended e \<Rightarrow>
          (case served reqs of None \<Rightarrow> calls = [] | Some cs \<Rightarrow> calls = cs \<or> calls = cs @ [OnClose]))"

lemma stream_inv_react:
  assumes "stream_react pc ev = Some (pc', cs)" and "stream_inv pc reqs calls"
  shows "stream_inv pc' (reqs @ requests_in [ev]) (calls @ cs)"
  using assms
proof (induction pc ev rule: stream_react.induct)
  case (1 req)
  then show ?case by (auto simp: stream_inv_def served_def split: option.splits)
next
  case (3 req)
  then show ?case by (auto simp: stream_inv_def served_snoc split: option.splits)
qed (auto simp: stream_inv_def served_def split: option.splits handler_call.splits)

definition server_inv :: "'v link \<Rightarrow> bool" where
  "server_inv l =
     (\<forall>st. stream_inv (lk_pc l st) (on_stream st (lk_read l)) (on_stream st (lk_calls l)))"

lemma server_inv_step: "link_step env l ev l' \<Longrightarrow> server_inv l \<Longrightarrow> server_inv l'"
proof (induction rule: link_step.induct)
  case (server_receives st l req rest pc' cs env)
  then show ?case
    using stream_inv_react [OF server_receives(2)] by (simp add: server_inv_def)
next
  case (server_moves ev st l pc' cs env)
  from server_moves(1) have "requests_in [ev] = []" by (cases ev) simp_all
  with server_moves show ?case
    using stream_inv_react [OF server_moves(3)] by (fastforce simp: server_inv_def)
qed (simp_all add: server_inv_def)

text \<open>A call for an acknowledgement comes from a frame that asks for it.\<close>

definition asks_ack :: "Ack \<Rightarrow> nat \<times> 'v StreamRequest \<Rightarrow> bool" where
  "asks_ack a x \<longleftrightarrow> dispatch (snd x) = Some (OnAck a)"

definition acks_inv :: "'v link \<Rightarrow> bool" where
  "acks_inv l =
     (\<forall>a. count_list (map snd (lk_calls l)) (OnAck a) \<le> length (filter (asks_ack a) (lk_read l)))"

lemma react_acks:
  "stream_react pc ev = Some (pc', cs) \<Longrightarrow>
     count_list cs (OnAck a) \<le> length (filter (\<lambda>req. dispatch req = Some (OnAck a)) (requests_in [ev]))"
  by (induction pc ev rule: stream_react.induct) (auto split: option.splits handler_call.splits)

lemma acks_inv_step: "link_step env l ev l' \<Longrightarrow> acks_inv l \<Longrightarrow> acks_inv l'"
proof (induction rule: link_step.induct)
  case (server_receives st l req rest pc' cs env)
  then have "count_list (map snd (lk_calls l)) (OnAck a) + count_list cs (OnAck a) \<le>
      length (filter (asks_ack a) (lk_read l @ [(st, req)]))" for a
    using react_acks [OF server_receives(2), of a] spec [OF server_receives(3) [unfolded acks_inv_def], of a]
    by (cases "dispatch req = Some (OnAck a)") (simp_all add: asks_ack_def)
  then show ?case by (simp add: acks_inv_def comp_def)
next
  case (server_moves ev st l pc' cs env)
  have "count_list cs (OnAck a) = 0" for a
    using react_acks [OF server_moves(3), of a] server_moves(1) by (cases ev) auto
  with server_moves show ?case by (simp add: acks_inv_def comp_def)
qed (simp_all add: acks_inv_def)

section \<open>What came in\<close>

text \<open>What the streams brought the client, from the log of the wire.\<close>

definition picks :: "('v received \<Rightarrow> 'v queued list) \<Rightarrow> 'v StreamResponse list \<Rightarrow> 'v queued list" where
  "picks pick resps = concat (map (\<lambda>resp. pick (receive resp)) resps)"

lemma picks_simps [simp]:
  "picks pick [] = []" "picks pick (r # rs) = pick (receive r) @ picks pick rs"
  "picks pick (rs @ rs') = picks pick rs @ picks pick rs'"
  by (simp_all add: picks_def)

lemma picks_mono: "mset rs \<subseteq># mset rs' \<Longrightarrow> mset (picks pick rs) \<subseteq># mset (picks pick rs')"
proof -
  assume "mset rs \<subseteq># mset rs'"
  then obtain xs where xs: "mset rs' = mset (rs @ xs)"
    by (metis ex_mset mset_append mset_subset_eq_exists_conv)
  have sum: "mset (picks pick zs) = (\<Sum>r \<in># mset zs. mset (pick (receive r)))" for zs
    by (induction zs) simp_all
  show ?thesis unfolding sum xs by simp
qed

lemma picks_prefix: "prefix rs rs' \<Longrightarrow> prefix (picks pick rs) (picks pick rs')"
  by (auto simp: prefix_def)

lemma received_in_link:
  "link_run l0 tr l \<Longrightarrow> lk_in l0 = [] \<Longrightarrow>
     received_in pick (client_part tr) = picks pick (map snd (lk_in l))"
proof (induction rule: link_run.induct)
  case (link_Nil l)
  then show ?case by simp
next
  case (link_snoc l tr l' env ev l'')
  from link_snoc.hyps(2) link_snoc.IH link_snoc.prems show ?case
    by (induction rule: link_step.induct) simp_all
qed

text \<open>What the application asked its sessions to send, which is what they sent but for failures.\<close>

definition deliver_response :: "string \<times> pb_timestamp \<Rightarrow> 'v TransportEnvelope \<Rightarrow> 'v StreamResponse" where
  "deliver_response p e =
     \<lparr>sp_Payload = Some (StreamResponse_Deliver (Some \<lparr>dlv_Envelope = NormalizeEnvelope p (Some e)\<rparr>))\<rparr>"

definition broadcast_response :: "string \<times> pb_timestamp \<Rightarrow> 'v TransportEnvelope \<Rightarrow> 'v StreamResponse" where
  "broadcast_response p e =
     \<lparr>sp_Payload = Some (StreamResponse_Broadcast
        (Some (BroadcastFrame_Reset\<lparr>bc_Envelope := NormalizeEnvelope p (Some e)\<rparr>)))\<rparr>"

definition heartbeat_response :: "string \<Rightarrow> 'v StreamResponse" where
  "heartbeat_response n = \<lparr>sp_Payload = Some (StreamResponse_Heartbeat (Some \<lparr>hb_Nonce = n\<rparr>))\<rparr>"

definition application_sends :: "'v link_event \<Rightarrow> (nat \<times> 'v StreamResponse) list" where
  "application_sends ev =
     (case ev of
        LDeliver st p e \<Rightarrow> [(st, deliver_response p e)]
      | LBroadcast st p e \<Rightarrow> [(st, broadcast_response p e)]
      | LHeartbeat st n \<Rightarrow> [(st, heartbeat_response n)]
      | _ \<Rightarrow> [])"

definition application_sent ::
  "(('v, 'c) bridge_env \<times> 'v link_event) list \<Rightarrow> (nat \<times> 'v StreamResponse) list" where
  "application_sent tr = concat (map (\<lambda>x. application_sends (snd x)) tr)"

lemma application_sent_simps [simp]:
  "application_sent [] = []"
  "application_sent (tr @ [(env, ev)]) = application_sent tr @ application_sends ev"
  by (simp_all add: application_sent_def)

lemma wire_Send_subseq: "wire_Send st answer resp out = (out', r) \<Longrightarrow> \<exists>xs. out' = out @ xs \<and> subseq xs [(st, resp)]"
  by (cases answer) (auto simp: wire_Send_def)

lemma step_application:
  "link_step env l ev l' \<Longrightarrow> \<exists>xs. lk_out l' = lk_out l @ xs \<and> subseq xs (application_sends ev)"
  by (induction rule: link_step.induct)
     (auto simp: application_sends_def SendDeliver_def SendBroadcast_def SendHeartbeat_def
        session_send_def deliver_response_def broadcast_response_def heartbeat_response_def
      dest!: wire_Send_subseq)

lemma out_from_application:
  "link_run l0 tr l \<Longrightarrow> lk_out l0 = [] \<Longrightarrow> subseq (lk_out l) (application_sent tr)"
proof (induction rule: link_run.induct)
  case (link_Nil l)
  then show ?case by simp
next
  case (link_snoc l tr l' env ev l'')
  with step_application [OF link_snoc.hyps(2)] show ?case
    by (auto intro: list_emb_append_mono)
qed

section \<open>One connection\<close>

text \<open>Before the run loop loses a connection, all that is received is received over one stream.\<close>

definition conn_inv :: "'v sys \<Rightarrow> nat set \<Rightarrow> bool" where
  "conn_inv s used \<longleftrightarrow>
     (before_connection (sy_run s) \<longrightarrow> sy_cons s = [] \<and> used = {}) \<and>
     (\<exists>st. used \<subseteq> {st} \<and> (\<forall>x \<in> set (sy_cons s). \<forall>st'. snd x = InRecv st' \<longrightarrow> st' = st) \<and>
        (\<not> before_connection (sy_run s) \<longrightarrow> cl_stream (sy_client s) \<in> {None, Some st}))"

lemma conn_inv_step:
  "client_step env s ev s' \<Longrightarrow> conn_inv s used \<Longrightarrow> wg_inv s \<Longrightarrow> ev \<noteq> EvConnLost \<Longrightarrow> conn_inv s' used"
proof (induction rule: client_step.induct)
  case (start_first s env ctx)
  then show ?case by (auto simp: wg_inv_def client_Start_fields conn_inv_def)
next
  case (register_ok s r st env c' g)
  with connect_register_fields [OF register_ok(3)] show ?case
    by (cases "cl_stream (sy_client s)") (auto simp: conn_inv_def)
next
  case (connected_done s c' env)
  then show ?case by (auto simp: conn_inv_def)
next
  case (backoff_done s r env)
  then show ?case by (cases "cl_stream (sy_client s)") (auto simp: conn_inv_def)
next
  case (recv s xs g st ys env resp)
  then show ?case by (auto simp: conn_inv_def split: received.splits)
next
  case (close s env)
  then show ?case by (auto simp: conn_inv_def client_Close_keeps)
qed (auto simp: conn_inv_def run_cancel_def dest!: step_fields)

definition used_streams :: "'v link \<Rightarrow> nat set" where
  "used_streams l = fst ` set (lk_in l)"

text \<open>A step of the client in the joint system, but for \<open>Recv\<close>.\<close>

lemma link_step_cases_recv:
  assumes "link_step env l ev l'"
  obtains (recv) st resp xs g ys where "ev = LRecv st resp" and "sy_cons (lk_client l) = xs @ (g, InRecv st) # ys"
      and "lk_in l' = lk_in l @ [(st, resp)]"
      and "lk_client l' = (lk_client l)\<lparr>sy_cons := xs @
            (g, (case receive resp of Ignored \<Rightarrow> Receiving | d \<Rightarrow> Handing d)) # ys\<rparr>"
    | (other) "lk_in l' = lk_in l" and "\<forall>st resp. ev \<noteq> LRecv st resp"
  using assms by (cases rule: link_step.cases) auto

lemma link_conn_inv_step:
  assumes "link_step env l ev l'" and "conn_inv (lk_client l) (used_streams l)"
    and "wg_inv (lk_client l)" and "ev \<noteq> LClient EvConnLost"
  shows "conn_inv (lk_client l') (used_streams l')"
  using assms(1)
proof (cases rule: link_step_cases_recv)
  case (recv st resp xs g ys)
  with assms(2) show ?thesis
    by (auto simp: conn_inv_def used_streams_def split: received.splits)
next
  case other
  show ?thesis
  proof (cases "client_event ev")
    case None
    with link_step_client [OF assms(1)] other(1) assms(2) show ?thesis by (simp add: used_streams_def)
  next
    case (Some e)
    then have "ev = LClient e" using other(2) by (cases ev) auto
    with Some link_step_client [OF assms(1)] conn_inv_step [OF _ assms(2,3)] assms(4) other(1)
    show ?thesis by (auto simp: used_streams_def)
  qed
qed

section \<open>Reachable states\<close>

lemma link_init:
  assumes "NewClient opts = Inr c"
  shows "wires_inv (init_link c)" and "server_inv (init_link c)" and "acks_inv (init_link c)"
    and "conn_inv (lk_client (init_link c)) (used_streams (init_link c))"
    and "lk_in (init_link c) = []" and "lk_out (init_link c) = []"
    and "lk_client (init_link c) = init_sys c"
  using NewClient_fields(5) [OF assms]
  by (simp_all add: init_link_def wires_inv_def server_inv_def stream_inv_def acks_inv_def conn_inv_def
      used_streams_def init_sys_def)

lemma link_reaches_wires: "link_reaches opts tr l \<Longrightarrow> wires_inv l"
  by (erule link_reachesE, erule link_run_invariant) (auto intro: link_init wires_inv_step)

lemma link_reaches_server: "link_reaches opts tr l \<Longrightarrow> server_inv l"
  by (erule link_reachesE, erule link_run_invariant) (auto intro: link_init server_inv_step)

lemma link_reaches_acks: "link_reaches opts tr l \<Longrightarrow> acks_inv l"
  by (erule link_reachesE, erule link_run_invariant) (auto intro: link_init acks_inv_step)

lemma link_reaches_received:
  "link_reaches opts tr l \<Longrightarrow>
     received_in pick (client_part tr) = picks pick (map snd (lk_in l))"
  by (erule link_reachesE, rule received_in_link) (auto simp: link_init)

lemma link_reaches_application: "link_reaches opts tr l \<Longrightarrow> subseq (lk_out l) (application_sent tr)"
  by (erule link_reachesE, rule out_from_application) (auto simp: link_init)

lemma link_run_conn:
  "link_run l0 tr l \<Longrightarrow> conn_inv (lk_client l0) (used_streams l0) \<Longrightarrow> wg_inv (lk_client l0) \<Longrightarrow>
     LClient EvConnLost \<notin> snd ` set tr \<Longrightarrow>
     conn_inv (lk_client l) (used_streams l) \<and> wg_inv (lk_client l)"
proof (induction rule: link_run.induct)
  case (link_Nil l)
  then show ?case by simp
next
  case (link_snoc l tr l' env ev l'')
  then have inv: "conn_inv (lk_client l') (used_streams l')" "wg_inv (lk_client l')"
    "ev \<noteq> LClient EvConnLost" by auto
  from link_step_client [OF link_snoc.hyps(2)] inv(2) have "wg_inv (lk_client l'')"
    by (auto split: option.splits intro: wg_inv_step)
  with link_conn_inv_step [OF link_snoc.hyps(2) inv] show ?case by simp
qed

lemma link_reaches_conn:
  assumes "link_reaches opts tr l" and "LClient EvConnLost \<notin> snd ` set tr"
  shows "conn_inv (lk_client l) (used_streams l)"
proof -
  obtain c where c: "NewClient opts = Inr c" "link_run (init_link c) tr l"
    using assms(1) by (rule link_reachesE)
  have "wg_inv (lk_client (init_link c))"
    unfolding link_init(7) [OF c(1)] by (rule init_invariants(5) [OF c(1)])
  from link_run_conn [OF c(2) link_init(4) [OF c(1)] this assms(2)] show ?thesis ..
qed

end
