(* ===== verification/Client_Runs.thy ===== *)
theory Client_Runs
  imports Client_Invariants
begin

text \<open>
  Runs of the bridge client: that a client reaches a registered connection when the network
  cooperates, that a closed client's goroutines can always come to an end (so that \<open>Drain\<close>
  returns), and the runs that show where its goroutines disturb each other.
\<close>

section \<open>A network that cooperates\<close>

definition cooperative :: "('v, 'c) bridge_env \<Rightarrow> Options \<Rightarrow> nat \<Rightarrow> nat \<Rightarrow> bool" where
  "cooperative env opts conn st =
     (\<not> isl (client_creds (be_LoadX509KeyPair env) opts) \<and>
      (\<forall>ctx t addr cr. be_DialContext env ctx t addr cr = Inr conn) \<and>
      (\<forall>ctx. be_Stream env conn ctx = (if ctx_done ctx then Inl ContextCanceled else Inr st)) \<and>
      (\<forall>f. be_Send env st f = None))"

definition plain_env :: "nat \<Rightarrow> nat \<Rightarrow> ('v, unit) bridge_env" where
  "plain_env conn st =
     \<lparr>be_LoadX509KeyPair = (\<lambda>_ _. Inr ()), be_DialContext = (\<lambda>_ _ _ _. Inr conn),
      be_Stream = (\<lambda>_ ctx. if ctx_done ctx then Inl ContextCanceled else Inr st),
      be_Send = (\<lambda>_ _. None), be_CloseSend = (\<lambda>_. None)\<rparr>"

lemma plain_env_cooperative [simp]: "cooperative (plain_env conn st) opts conn st"
  by (simp add: cooperative_def plain_env_def client_creds_def)

lemma plain_env_rejects_done [simp]: "grpc_rejects_done (plain_env conn st)"
  by (simp add: grpc_rejects_done_def plain_env_def)

lemma cooperative_defaults: "cooperative env opts conn st \<Longrightarrow> cooperative env (client_defaults opts) conn st"
  by (auto simp: cooperative_def client_creds_def client_defaults_def split: if_splits)

text \<open>A client in service: registered, with a live consumer about to wait for the next response.\<close>

definition in_service :: "nat \<Rightarrow> 'v sys \<Rightarrow> bool" where
  "in_service st s =
     (sy_panic s = None \<and> sy_run s = RunConnected \<and> cl_started (sy_client s) \<and>
      cl_stream (sy_client s) = Some st \<and> (\<exists>g. sy_cons s = [(g, Receiving)]) \<and>
      cl_recvErr (sy_client s) = Some (make_chan 1) \<and> cl_runCancel (sy_client s) \<and>
      \<not> ctx_done (cl_runCtx (sy_client s)))"

definition startup :: "('v, 'c) bridge_env \<Rightarrow> (('v, 'c) bridge_env \<times> 'v event) list" where
  "startup env = [(env, EvStart Background), (env, EvConnect), (env, EvRegister)]"

lemma connect_stream_cooperative:
  assumes "cooperative env (cl_opts c) conn st" and "o_Metadata (cl_opts c) = []"
    and "\<not> ctx_done (cl_runCtx c)"
  shows "connect_stream env c =
     (c\<lparr>cl_cancel := Some (cl_nextCtx c), cl_nextCtx := Suc (cl_nextCtx c),
        cl_liveCtxs := cl_nextCtx c # cl_liveCtxs c, cl_conn := Some conn,
        cl_openConns := conn # cl_openConns c, cl_stream := Some st\<rparr>, None)"
  using assms by (auto simp: connect_stream_def cooperative_def Let_def isl_def split: sum.splits)

lemma connect_register_cooperative:
  assumes "cooperative env opts conn st"
  shows "connect_register env st c =
     (c\<lparr>cl_sent := cl_sent c @ [(st, register_frame (cl_opts c))], cl_started := True,
        cl_recvErr := Some (make_chan 1), cl_wg := Suc (cl_wg c)\<rparr>, None)"
  using assms by (simp add: connect_register_def stream_Send_def cooperative_def)

lemma startup_in_service:
  assumes "NewClient opts = Inr c" and "o_Metadata opts = []" and "cooperative env opts conn st"
  shows "\<exists>s. client_run (init_sys c) (startup env) s \<and> in_service st s \<and>
           cl_sent (sy_client s) = [(st, register_frame (client_defaults opts))] \<and>
           cl_inflight (sy_client s) = cl_inflight c \<and> cl_opts (sy_client s) = client_defaults opts"
proof -
  have c: "cl_startOnce c = False" "cl_opts c = client_defaults opts" "cl_sent c = []"
    using assms(1) by (auto simp: NewClient_def Let_def split: if_splits)
  have md: "o_Metadata (client_defaults opts) = []" using assms(2) by (simp add: client_defaults_def)
  have co: "cooperative env (client_defaults opts) conn st"
    using assms(3) by (rule cooperative_defaults)
  let ?s1 = "(init_sys c)\<lparr>sy_client := fst (client_Start Background c),
     sy_run := RunConnecting (base_backoff (cl_opts c))\<rparr>"
  have s1: "client_step env (init_sys c) (EvStart Background) ?s1"
    using start_first [of "init_sys c" env Background] c by (simp add: init_sys_def)
  let ?c1 = "sy_client ?s1"
  have f1: "cl_opts ?c1 = client_defaults opts" "\<not> ctx_done (cl_runCtx ?c1)" "cl_sent ?c1 = []"
    "cl_inflight ?c1 = cl_inflight c" "cl_runCancel ?c1"
    using c by (simp_all add: client_Start_def)
  obtain c2 where c2: "connect_stream env ?c1 = (c2, None)" "cl_stream c2 = Some st"
    "cl_cancel c2 \<noteq> None" "cl_opts c2 = client_defaults opts" "\<not> ctx_done (cl_runCtx c2)"
    "cl_sent c2 = []" "cl_inflight c2 = cl_inflight c" "cl_runCancel c2"
    using connect_stream_cooperative [of env ?c1 conn st] co md f1 by simp
  let ?s2 = "?s1\<lparr>sy_client := c2, sy_run := RunRegistering (base_backoff (cl_opts c)) st\<rparr>"
  have s2: "client_step env ?s1 EvConnect ?s2"
    by (rule client_step.connect_ok) (use c2 in \<open>simp_all add: init_sys_def\<close>)
  obtain g where g: "cl_cancel c2 = Some g" using c2(3) by blast
  obtain c3 where c3: "connect_register env st c2 = (c3, None)" "cl_stream c3 = Some st" "cl_started c3"
    "cl_cancel c3 = Some g" "cl_recvErr c3 = Some (make_chan 1)" "\<not> ctx_done (cl_runCtx c3)"
    "cl_sent c3 = [(st, register_frame (client_defaults opts))]" "cl_inflight c3 = cl_inflight c"
    "cl_opts c3 = client_defaults opts" "cl_runCancel c3"
    using connect_register_cooperative [OF co, of c2] c2 g by simp
  let ?s3 = "?s2\<lparr>sy_client := c3, sy_run := RunConnected, sy_cons := (g, Receiving) # sy_cons ?s2,
      sy_hbs := g # sy_hbs ?s2\<rparr>"
  have s3: "client_step env ?s2 EvRegister ?s3"
    by (rule register_ok) (use c3 in \<open>simp_all add: init_sys_def\<close>)
  have "client_run (init_sys c) (startup env) ?s3"
    using run_snoc [OF run_snoc [OF client_run_one [OF s1] s2] s3] by (simp add: startup_def)
  moreover have "in_service st ?s3" using c3 by (simp add: in_service_def init_sys_def)
  ultimately show ?thesis using c3 by (intro exI [of _ ?s3]) simp
qed

text \<open>Only \<open>Close\<close> sets the flag of \<open>Close\<close>.\<close>

lemma step_stopOnce:
  "client_step env s ev s' \<Longrightarrow> ev \<noteq> EvClose \<Longrightarrow>
     cl_stopOnce (sy_client s') = cl_stopOnce (sy_client s)"
  by (induction rule: client_step.induct)
     (auto simp: client_Start_fields run_cancel_def dest!: step_fields)

lemma run_stopOnce:
  "client_run s0 tr s \<Longrightarrow> EvClose \<notin> snd ` set tr \<Longrightarrow>
     cl_stopOnce (sy_client s) = cl_stopOnce (sy_client s0)"
  by (induction rule: client_run.induct) (auto dest: step_stopOnce)

lemma startup_open:
  "NewClient opts = Inr c \<Longrightarrow> client_run (init_sys c) (startup env) s \<Longrightarrow> \<not> cl_stopOnce (sy_client s)"
  using run_stopOnce [of "init_sys c" "startup env" s] NewClient_fields(8) [of opts c]
  by (simp add: startup_def init_sys_def)

text \<open>Losing the connection of a client in service leaves it started, with no stream.\<close>

lemma lose_connection:
  assumes "in_service st s"
  shows "\<exists>s' r. client_run s [(env, EvRecvCall), (env, EvRecvErr e), (env, EvConnLost)] s' \<and> sy_panic s' = None \<and>
           sy_run s' = RunConnecting r \<and> cl_started (sy_client s') \<and>
           cl_stream (sy_client s') = None \<and> sy_pubs s' = sy_pubs s \<and>
           cl_inflight (sy_client s') = cl_inflight (sy_client s) \<and>
           cl_sent (sy_client s') = cl_sent (sy_client s) \<and>
           cl_opts (sy_client s') = cl_opts (sy_client s) \<and>
           \<not> ctx_done (cl_runCtx (sy_client s')) \<and> sy_taken s' = sy_taken s"
proof -
  obtain g where g: "sy_cons s = [] @ (g, Receiving) # []" using assms by (auto simp: in_service_def)
  let ?s0 = "s\<lparr>sy_cons := [(g, InRecv st)]\<rparr>"
  have "client_step env s EvRecvCall ?s0"
    using recv_call [of s "[]" g "[]" st env] assms g by (simp add: in_service_def)
  moreover
  let ?s1 = "s\<lparr>sy_client := (sy_client s)\<lparr>cl_recvErr := Some (chan_push e (make_chan 1))\<rparr>, sy_cons := []\<rparr>"
  have "client_step env ?s0 (EvRecvErr e) ?s1"
    using recv_err [of ?s0 "[]" g st "[]" "make_chan 1" env e] assms g
    by (simp add: in_service_def chan_has_room_def make_chan_def)
  moreover
  let ?c2 = "cleanup ((sy_client ?s1)\<lparr>cl_recvErr := Some (chan_push e (make_chan 1)\<lparr>ch_buf := []\<rparr>)\<rparr>)"
  let ?s2 = "?s1\<lparr>sy_client := ?c2, sy_run := RunConnecting (base_backoff (cl_opts (sy_client ?s1)))\<rparr>"
  have "client_step env ?s1 EvConnLost ?s2"
    by (rule connected_lost) (use assms in \<open>simp_all add: in_service_def chan_push_def make_chan_def\<close>)
  ultimately have "client_run s [(env, EvRecvCall), (env, EvRecvErr e), (env, EvConnLost)] ?s2"
    using run_snoc [OF run_snoc [OF client_run_one]] by fastforce
  then show ?thesis using assms
    by (intro exI [of _ ?s2] exI [of _ "base_backoff (cl_opts (sy_client ?s1))"])
       (simp add: in_service_def)
qed

text \<open>Without a back-pressure limit \<open>PublishIngress\<close> gets past its first check at once.\<close>

lemma publish_begins:
  assumes "sy_panic s = None" and "cl_started (sy_client s)" and "cl_inflight (sy_client s) = None"
  shows "client_step env s (EvPublish ctx p e) (s\<lparr>sy_pubs := PubSending p e # sy_pubs s\<rparr>)"
proof -
  have "(sy_client s, None) \<in> set (acquireSlot ctx (sy_client s))"
    using assms(3) by (simp add: acquireSlot_def)
  from publish_acquire [OF assms(1,2) this, of env p e] show ?thesis by simp
qed

text \<open>A publisher that finds no stream ends the process.\<close>

lemma publish_without_stream:
  assumes "sy_panic s = None" and "cl_started (sy_client s)" and "cl_inflight (sy_client s) = None"
    and "cl_stream (sy_client s) = None"
  shows "\<exists>s'. client_run s [(env, EvPublish ctx p e), (env, EvPubSend)] s' \<and>
           sy_panic s' = Some nil_stream_panic"
proof -
  let ?s1 = "s\<lparr>sy_pubs := PubSending p e # sy_pubs s\<rparr>"
  have "client_step env ?s1 EvPubSend (?s1\<lparr>sy_panic := Some nil_stream_panic\<rparr>)"
    using publish_panic [of ?s1 "[]" p e "sy_pubs s" env nil_stream_panic] assms
    by (simp add: publish_send_panics)
  from run_snoc [OF client_run_one [OF publish_begins [OF assms(1-3)]] this] show ?thesis
    by (intro exI [of _ "?s1\<lparr>sy_panic := Some nil_stream_panic\<rparr>"]) simp
qed

text \<open>
  While the run loop sits between installing a new stream and registering on it, a publisher
  may send on that stream: its frame is then the first one there.
\<close>

lemma publish_overtakes_register:
  assumes "sy_panic s = None" and "sy_run s = RunConnecting r" and "cl_started (sy_client s)"
    and "cl_inflight (sy_client s) = None" and "\<not> ctx_done (cl_runCtx (sy_client s))"
    and "cooperative env (cl_opts (sy_client s)) conn st" and "o_Metadata (cl_opts (sy_client s)) = []"
  shows "\<exists>s'. client_run s [(env, EvConnect), (env, EvPublish ctx p e), (env, EvPubSend)] s' \<and>
           sy_run s' = RunRegistering r st \<and>
           cl_sent (sy_client s') = cl_sent (sy_client s) @ [(st, ingress_frame p e)]"
proof -
  obtain c1 where c1: "connect_stream env (sy_client s) = (c1, None)" "cl_stream c1 = Some st"
    "cl_started c1" "cl_inflight c1 = None" "cl_sent c1 = cl_sent (sy_client s)"
    using connect_stream_cooperative [OF assms(6,7,5)] assms(3,4) by simp
  let ?s1 = "s\<lparr>sy_client := c1, sy_run := RunRegistering r st\<rparr>"
  have 1: "client_step env s EvConnect ?s1" by (rule client_step.connect_ok) (use assms c1 in simp_all)
  let ?s2 = "?s1\<lparr>sy_pubs := PubSending p e # sy_pubs ?s1\<rparr>"
  have 2: "client_step env ?s1 (EvPublish ctx p e) ?s2"
    using publish_begins [of ?s1 env ctx p e] assms c1 by simp
  let ?c3 = "c1\<lparr>cl_sent := cl_sent c1 @ [(st, ingress_frame p e)]\<rparr>"
  let ?s3 = "?s2\<lparr>sy_client := ?c3, sy_pubs := [] @ PubReleasing None # sy_pubs s\<rparr>"
  have 3: "client_step env ?s2 EvPubSend ?s3"
    by (rule publish_send [where xs = "[]" and p = p and e = e and err = None])
       (use assms c1 in \<open>simp_all add: publish_send_def stream_Send_def cooperative_def\<close>)
  show ?thesis
    using run_snoc [OF run_snoc [OF client_run_one [OF 1] 2] 3] c1 by (intro exI [of _ ?s3]) simp
qed

text \<open>A consumer holding a delivery when the client is closed may send on the closed channel.\<close>

lemma close_while_handing:
  assumes "in_service st s" and "\<not> cl_stopOnce (sy_client s)"
    and "receive resp = ToDeliver q"
  shows "\<exists>s'. client_run s [(env, EvRecvCall), (env, EvRecv resp), (env, EvClose), (env, EvHand)] s' \<and>
           sy_panic s' = Some closed_channel_panic"
proof -
  obtain g where g: "sy_cons s = [] @ (g, Receiving) # []" using assms by (auto simp: in_service_def)
  let ?s0 = "s\<lparr>sy_cons := [(g, InRecv st)]\<rparr>"
  have 0: "client_step env s EvRecvCall ?s0"
    using recv_call [of s "[]" g "[]" st env] assms g by (simp add: in_service_def)
  let ?s1 = "s\<lparr>sy_cons := [(g, Handing (ToDeliver q))]\<rparr>"
  have 1: "client_step env ?s0 (EvRecv resp) ?s1"
    using recv [of ?s0 "[]" g st "[]" env resp] assms g by (simp add: in_service_def)
  let ?s2 = "?s1\<lparr>sy_client := fst (client_Close env (sy_client ?s1))\<rparr>"
  have 2: "client_step env ?s1 EvClose ?s2" using assms by (intro close) (simp add: in_service_def)
  have 3: "client_step env ?s2 EvHand (?s2\<lparr>sy_panic := Some closed_channel_panic\<rparr>)"
    by (rule hand_deliver_closed [where xs = "[]" and g = g and q = q and ys = "[]"])
       (use assms client_Close_fields [of "sy_client s" env] in \<open>simp_all add: in_service_def\<close>)
  show ?thesis
    using run_snoc [OF run_snoc [OF run_snoc [OF client_run_one [OF 0] 1] 2] 3]
    by (intro exI [of _ "?s2\<lparr>sy_panic := Some closed_channel_panic\<rparr>"]) simp
qed

text \<open>Cancelling the caller's context lets the run loop drop the stream under the consumer.\<close>

lemma cancel_under_consumer:
  assumes "in_service st s"
  shows "\<exists>s'. client_run s [(env, EvCancel), (env, EvRunDone), (env, EvRecvCall)] s' \<and>
           sy_panic s' = Some nil_stream_panic"
proof -
  obtain g where g: "sy_cons s = [] @ (g, Receiving) # []" using assms by (auto simp: in_service_def)
  let ?s1 = "s\<lparr>sy_client := run_cancel (sy_client s)\<rparr>"
  have 1: "client_step env s EvCancel ?s1"
    using assms by (intro cancel) (simp_all add: in_service_def)
  let ?c = "cleanup (sy_client ?s1)"
  let ?s2 = "?s1\<lparr>sy_client := ?c\<lparr>cl_wg := cl_wg ?c - 1\<rparr>, sy_run := RunFinished\<rparr>"
  have 2: "client_step env ?s1 EvRunDone ?s2"
    by (rule connected_done) (use assms in \<open>simp_all add: in_service_def run_cancel_def\<close>)
  have 3: "client_step env ?s2 EvRecvCall (?s2\<lparr>sy_panic := Some nil_stream_panic\<rparr>)"
    by (rule recv_nil [where xs = "[]" and g = g and ys = "[]"])
       (use assms g in \<open>simp_all add: in_service_def\<close>)
  show ?thesis
    using run_snoc [OF run_snoc [OF client_run_one [OF 1] 2] 3]
    by (intro exI [of _ "?s2\<lparr>sy_panic := Some nil_stream_panic\<rparr>"]) simp
qed

section \<open>A client with metadata\<close>

text \<open>No attempt ever gets past the stream, so the client stays as quiet as it started.\<close>

definition never_connected :: "'v sys \<Rightarrow> bool" where
  "never_connected s =
     (quiet s \<and> \<not> cl_started (sy_client s) \<and> o_Metadata (cl_opts (sy_client s)) \<noteq> [] \<and>
      (\<forall>r st. sy_run s \<noteq> RunRegistering r st))"

lemma never_connected_step:
  "client_step env s ev s' \<Longrightarrow> grpc_rejects_done env \<Longrightarrow> never_connected s \<Longrightarrow> never_connected s'"
proof (induction rule: client_step.induct)
  case (connect_ok s r env c' st)
  with connect_stream_metadata [of env "sy_client s"] show ?case by (simp add: never_connected_def)
qed (auto simp: never_connected_def quiet_def client_Start_fields client_Close_keeps run_cancel_def
      dest!: connect_stream_fields)

lemma run_never_connected:
  "client_run s0 tr s \<Longrightarrow> \<forall>x \<in> set tr. grpc_rejects_done (fst x) \<Longrightarrow> never_connected s0 \<Longrightarrow>
     never_connected s"
  by (induction rule: client_run.induct) (auto intro: never_connected_step)

lemma init_never_connected:
  "NewClient opts = Inr c \<Longrightarrow> o_Metadata opts \<noteq> [] \<Longrightarrow> never_connected (init_sys c)"
  by (auto simp: never_connected_def quiet_def NewClient_def Let_def init_sys_def client_defaults_def
      make_chan_def split: if_splits)

section \<open>Shutting down\<close>

text \<open>Once the run context is done no context derived from it is live.\<close>

definition stop_inv :: "'v sys \<Rightarrow> bool" where
  "stop_inv s =
     ((ctx_done (cl_runCtx (sy_client s)) \<or> \<not> cl_startOnce (sy_client s) \<longrightarrow>
         cl_liveCtxs (sy_client s) = []) \<and>
      (\<forall>r st. sy_run s = RunRegistering r st \<longrightarrow> cl_cancel (sy_client s) \<noteq> None))"

lemma connect_stream_live:
  "connect_stream env c = (c', e) \<Longrightarrow>
     cl_liveCtxs c' = (if ctx_done (cl_runCtx c) then cl_liveCtxs c else cl_nextCtx c # cl_liveCtxs c)"
  by (auto simp: connect_stream_def Let_def split: sum.splits)

lemma connect_register_live: "connect_register env st c = (c', e) \<Longrightarrow> cl_liveCtxs c' = cl_liveCtxs c"
  by (auto simp: connect_register_def split: prod.splits option.splits dest!: stream_Send_cases)

lemma cleanup_live: "cl_liveCtxs c = [] \<Longrightarrow> cl_liveCtxs (cleanup c) = []"
  "cl_startOnce (cleanup c) = cl_startOnce c"
  by (simp_all add: cleanup_def cancel_ctx_def close_conn_def Let_def split: option.split)

lemma client_Close_live:
  "(ctx_done (cl_runCtx c) \<or> \<not> cl_startOnce c \<longrightarrow> cl_liveCtxs c = []) \<Longrightarrow>
   ctx_done (cl_runCtx (fst (client_Close env c))) \<or> \<not> cl_startOnce (fst (client_Close env c)) \<Longrightarrow>
     cl_liveCtxs (fst (client_Close env c)) = []"
  by (auto simp: client_Close_def Let_def cancel_ctx_def close_conn_def run_cancel_def
      split: option.splits if_splits)

lemma stop_inv_cong:
  assumes "stop_inv s"
    and "cl_runCtx (sy_client s') = cl_runCtx (sy_client s)"
    and "cl_startOnce (sy_client s') = cl_startOnce (sy_client s)"
    and "cl_liveCtxs (sy_client s) = [] \<longrightarrow> cl_liveCtxs (sy_client s') = []"
    and "(sy_run s' = sy_run s \<and> cl_cancel (sy_client s') = cl_cancel (sy_client s)) \<or>
         (\<forall>r st. sy_run s' \<noteq> RunRegistering r st)"
  shows "stop_inv s'"
  using assms unfolding stop_inv_def by metis

lemma stop_inv_connect:
  assumes "stop_inv s" and "cl_startOnce (sy_client s)" and "connect_stream env (sy_client s) = (c', e)"
  shows "stop_inv (s\<lparr>sy_client := c', sy_run := pc\<rparr>)"
  using connect_stream_live [OF assms(3)] connect_stream_fields [OF assms(3)] assms(1,2)
  by (simp add: stop_inv_def)

lemma stop_inv_step:
  "client_step env s ev s' \<Longrightarrow> stop_inv s \<Longrightarrow> wg_inv s \<Longrightarrow> stop_inv s'"
proof (induction rule: client_step.induct)
  case (start_first s env ctx)
  then show ?case by (simp add: stop_inv_def client_Start_fields)
next
  case (connect_ok s r env c' st)
  then show ?case by (auto simp: wg_inv_def intro: stop_inv_connect)
next
  case (connect_fail s r env c' e)
  then show ?case by (auto simp: wg_inv_def intro: stop_inv_connect)
next
  case (close s env)
  then show ?case
    using client_Close_live [of "sy_client s" env] client_Close_keeps [of env "sy_client s"]
    unfolding stop_inv_def by simp
next
  case (cancel s env)
  then show ?case by (simp add: stop_inv_def run_cancel_def)
next
  case (register_ok s r st env c' g)
  from connect_register_fields [OF register_ok(3)] connect_register_live [OF register_ok(3)] register_ok(5)
  show ?case by (auto elim!: stop_inv_cong)
next
  case (register_fail s r st env c' e)
  from connect_register_fields [OF register_fail(3)] register_fail(4) show ?case
    by (auto elim!: stop_inv_cong)
qed ((erule stop_inv_cong; auto simp: cleanup_live
      dest!: acquireSlot_fields publish_send_fields sendHeartbeat_fields client_Ack_fields
        client_BroadcastAck_fields)+)

lemma init_stop_inv: "NewClient opts = Inr c \<Longrightarrow> stop_inv (init_sys c)"
  by (auto simp: stop_inv_def init_sys_def NewClient_def Let_def split: if_splits)

lemma reaches_stop_inv: "client_reaches opts tr s \<Longrightarrow> stop_inv s"
proof (erule client_reachesE)
  fix c assume c: "NewClient opts = Inr c" and run: "client_run (init_sys c) tr s"
  have "stop_inv s \<and> wg_inv s"
    using run by (rule client_run_invariant)
      (use c in \<open>blast intro: init_stop_inv init_invariants stop_inv_step wg_inv_step\<close>)+
  then show "stop_inv s" ..
qed

text \<open>A run loop whose context is done never gets a stream again.\<close>

lemma connect_stream_done:
  assumes "grpc_rejects_done env" and "ctx_done (cl_runCtx c)"
  shows "\<exists>c' e. connect_stream env c = (c', Some e) \<and> cl_runCtx c' = cl_runCtx c"
proof -
  obtain c' e where ce: "connect_stream env c = (c', e)" by fastforce
  have rej: "ctx_done x \<Longrightarrow> \<exists>e. be_Stream env conn x = Inl e" for conn x
    using assms(1) by (auto simp: grpc_rejects_done_def isl_def)
  have dn: "ctx_done (ctx_cancelled x\<lparr>ctx_md := m\<rparr>)" for x m
    using ctx_done_cancelled [of x] by (simp add: ctx_done_def)
  have "e \<noteq> None"
    using ce rej [OF dn] rej [OF assms(2)]
    by (auto simp: connect_stream_def Let_def split: sum.splits if_splits) (metis sum.distinct(1))+
  with ce connect_stream_fields [OF ce] show ?thesis by auto
qed

definition stopping :: "'v sys \<Rightarrow> bool" where
  "stopping s = (sy_panic s = None \<and> ctx_done (cl_runCtx (sy_client s)))"

lemma finish_backoff:
  assumes "stopping s" and "sy_run s = RunBackoff r"
  shows "\<exists>s'. client_run s [(env, EvRunDone)] s' \<and> stopping s' \<and> sy_run s' = RunFinished"
  by (rule exI, rule conjI, rule client_run_one, rule backoff_done)
     (use assms in \<open>simp_all add: stopping_def\<close>)

lemma finish_connected:
  assumes "stopping s" and "sy_run s = RunConnected"
  shows "\<exists>s'. client_run s [(env, EvRunDone)] s' \<and> stopping s' \<and> sy_run s' = RunFinished"
  by (rule exI, rule conjI, rule client_run_one, rule connected_done, simp_all)
     (use assms in \<open>simp_all add: stopping_def\<close>)

lemma finish_registering:
  assumes "stopping s" and "stop_inv s" and "sy_run s = RunRegistering r st"
  shows "\<exists>tr s'. client_run s (map (Pair env) tr) s' \<and> stopping s' \<and> sy_run s' = RunFinished"
proof -
  obtain c' e where ce: "connect_register env st (sy_client s) = (c', e)" by fastforce
  note f = connect_register_fields [OF ce]
  show ?thesis
  proof (cases e)
    case None
    with ce have ok: "connect_register env st (sy_client s) = (c', None)" by simp
    obtain g where "cl_cancel c' = Some g" using f assms(2,3) by (auto simp: stop_inv_def)
    from register_ok [OF _ assms(3) ok this] assms(1) obtain s1 where
      s1: "client_step env s EvRegister s1" "stopping s1" "sy_run s1 = RunConnected"
      using f by (auto simp: stopping_def)
    obtain s2 where "client_run s1 [(env, EvRunDone)] s2" "stopping s2" "sy_run s2 = RunFinished"
      using finish_connected [OF s1(2,3)] by blast
    then show ?thesis using client_run_append [OF _ client_run_one [OF s1(1)]]
      by (intro exI [of _ "[EvRegister, EvRunDone]"] exI [of _ s2]) fastforce
  next
    case (Some err)
    with ce have no: "connect_register env st (sy_client s) = (c', Some err)" by simp
    from register_fail [OF _ assms(3) no] assms(1) obtain s1 where
      s1: "client_step env s EvRegister s1" "stopping s1" "sy_run s1 = RunBackoff r"
      using f Some by (auto simp: stopping_def)
    obtain s2 where "client_run s1 [(env, EvRunDone)] s2" "stopping s2" "sy_run s2 = RunFinished"
      using finish_backoff [OF s1(2,3)] by blast
    then show ?thesis using client_run_append [OF _ client_run_one [OF s1(1)]]
      by (intro exI [of _ "[EvRegister, EvRunDone]"] exI [of _ s2]) fastforce
  qed
qed

lemma finish_connecting:
  assumes "stopping s" and "grpc_rejects_done env" and "sy_run s = RunConnecting r"
  shows "\<exists>tr s'. client_run s (map (Pair env) tr) s' \<and> stopping s' \<and> sy_run s' = RunFinished"
proof -
  obtain c' e where ce: "connect_stream env (sy_client s) = (c', Some e)"
    "cl_runCtx c' = cl_runCtx (sy_client s)"
    using connect_stream_done [OF assms(2), of "sy_client s"] assms(1) unfolding stopping_def by blast
  from connect_fail [OF _ assms(3) ce(1)] assms(1) obtain s1 where
    s1: "client_step env s EvConnect s1" "stopping s1" "sy_run s1 = RunBackoff r"
    using ce(2) by (auto simp: stopping_def)
  obtain s2 where "client_run s1 [(env, EvRunDone)] s2" "stopping s2" "sy_run s2 = RunFinished"
    using finish_backoff [OF s1(2,3)] by blast
  then show ?thesis using client_run_append [OF _ client_run_one [OF s1(1)]]
    by (intro exI [of _ "[EvConnect, EvRunDone]"] exI [of _ s2]) fastforce
qed

lemma finish_run:
  assumes "stopping s" and "stop_inv s" and "grpc_rejects_done env"
  shows "\<exists>tr s'. client_run s (map (Pair env) tr) s' \<and> stopping s' \<and> run_count (sy_run s') = 0"
proof (cases "sy_run s")
  case RunIdle
  then show ?thesis using assms(1) run_Nil [of s]
    by (intro exI [of _ "[]"] exI [of _ s]) (simp add: run_count_def)
next
  case (RunConnecting r)
  from finish_connecting [OF assms(1,3) this] obtain tr s' where
    "client_run s (map (Pair env) tr) s'" "stopping s'" "sy_run s' = RunFinished" by blast
  then show ?thesis by (intro exI [of _ tr] exI [of _ s']) (simp add: run_count_def)
next
  case (RunRegistering r st)
  from finish_registering [OF assms(1,2) this] obtain tr s' where
    "client_run s (map (Pair env) tr) s'" "stopping s'" "sy_run s' = RunFinished" by blast
  then show ?thesis by (intro exI [of _ tr] exI [of _ s']) (simp add: run_count_def)
next
  case (RunBackoff r)
  from finish_backoff [OF assms(1) this, of env] show ?thesis
    by (intro exI [of _ "[EvRunDone]"]) (auto simp: run_count_def)
next
  case RunConnected
  from finish_connected [OF assms(1) this, of env] show ?thesis
    by (intro exI [of _ "[EvRunDone]"]) (auto simp: run_count_def)
next
  case RunFinished
  then show ?thesis using assms(1) run_Nil [of s]
    by (intro exI [of _ "[]"] exI [of _ s]) (simp add: run_count_def)
qed

text \<open>The heartbeat loops then leave one by one.\<close>

lemma finish_heartbeats:
  assumes "stopping s" and "cl_liveCtxs (sy_client s) = []"
  shows "\<exists>tr s'. client_run s (map (Pair env) tr) s' \<and> stopping s' \<and> sy_hbs s' = [] \<and>
           sy_run s' = sy_run s"
  using assms
proof (induction "sy_hbs s" arbitrary: s)
  case Nil
  then show ?case using run_Nil [of s] by (intro exI [of _ "[]"] exI [of _ s]) simp
next
  case (Cons g gs)
  let ?s1 = "s\<lparr>sy_client := (sy_client s)\<lparr>cl_wg := cl_wg (sy_client s) - 1\<rparr>, sy_hbs := [] @ gs\<rparr>"
  have st: "client_step env s EvHeartbeatExit ?s1"
    by (rule heartbeat_exit [where g = g]) (use Cons in \<open>simp_all add: stopping_def\<close>)
  have "\<exists>tr s'. client_run ?s1 (map (Pair env) tr) s' \<and> stopping s' \<and> sy_hbs s' = [] \<and>
      sy_run s' = sy_run ?s1"
    by (rule Cons.hyps(1)) (use Cons in \<open>simp_all add: stopping_def\<close>)
  then obtain tr s' where "client_run ?s1 (map (Pair env) tr) s'" "stopping s'" "sy_hbs s' = []"
    "sy_run s' = sy_run s" by auto
  then show ?case using client_run_append [OF _ client_run_one [OF st]]
    by (intro exI [of _ "EvHeartbeatExit # tr"] exI [of _ s']) fastforce
qed

lemma run_keeps_counts:
  fixes tr :: "(('v, 'c) bridge_env \<times> 'v event) list"
  assumes "client_run s tr s'" and "stop_inv s" and "wg_inv s"
  shows "stop_inv s' \<and> wg_inv s'"
  by (rule client_run_invariant [OF assms(1)])
     (use assms in \<open>blast intro: stop_inv_step wg_inv_step\<close>)+

lemma drain_completes:
  assumes "stopping s" and "stop_inv s" and "wg_inv s" and "grpc_rejects_done env"
  shows "\<exists>tr s'. client_run s (map (Pair env) tr) s' \<and> sy_panic s' = None \<and>
           cl_wg (sy_client s') = 0"
proof -
  obtain tr1 s1 where
    1: "client_run s (map (Pair env) tr1) s1" "stopping s1" "run_count (sy_run s1) = 0"
    using finish_run [OF assms(1,2,4)] by blast
  from run_keeps_counts [OF 1(1) assms(2,3)] have i1: "stop_inv s1" "wg_inv s1" by simp_all
  then have "cl_liveCtxs (sy_client s1) = []" using 1(2) by (simp add: stop_inv_def stopping_def)
  from finish_heartbeats [OF 1(2) this] obtain tr2 s2 where
    2: "client_run s1 (map (Pair env) tr2) s2" "stopping s2" "sy_hbs s2 = []" "sy_run s2 = sy_run s1"
    by blast
  from run_keeps_counts [OF 2(1) i1] have "wg_inv s2" by simp
  with 2 1(3) have "cl_wg (sy_client s2) = 0" by (simp add: wg_inv_def)
  moreover have "client_run s (map (Pair env) (tr1 @ tr2)) s2"
    using client_run_append [OF 2(1) 1(1)] by simp
  ultimately show ?thesis using 2(2) unfolding stopping_def by blast
qed

text \<open>Closing a client that was started puts it on its way to the end.\<close>

lemma close_stopping:
  assumes "sy_panic s = None" and "cl_runCancel (sy_client s)" and "\<not> cl_stopOnce (sy_client s)"
  shows "client_step env s EvClose (s\<lparr>sy_client := fst (client_Close env (sy_client s))\<rparr>) \<and>
         stopping (s\<lparr>sy_client := fst (client_Close env (sy_client s))\<rparr>)"
  using assms client_Close_fields [of "sy_client s" env] by (simp add: close stopping_def)

lemma close_then_drained:
  assumes "client_reaches opts tr s" and "sy_panic s = None"
    and "cl_runCancel (sy_client s)" and "\<not> cl_stopOnce (sy_client s)" and "grpc_rejects_done env"
  shows "\<exists>evs s'. client_run s (map (Pair env) (EvClose # evs)) s' \<and> sy_panic s' = None \<and>
           cl_wg (sy_client s') = 0"
proof -
  let ?s1 = "s\<lparr>sy_client := fst (client_Close env (sy_client s))\<rparr>"
  have 1: "client_step env s EvClose ?s1" "stopping ?s1"
    using close_stopping [OF assms(2-4), of env] by simp_all
  have "stop_inv ?s1" "wg_inv ?s1"
    using reaches_stop_inv [OF assms(1)] reaches_wg_inv [OF assms(1)] 1(1)
    by (blast intro: stop_inv_step wg_inv_step)+
  from drain_completes [OF 1(2) this assms(5)] obtain evs s' where
    2: "client_run ?s1 (map (Pair env) evs) s'" "sy_panic s' = None" "cl_wg (sy_client s') = 0"
    by blast
  with client_run_append [OF 2(1) client_run_one [OF 1(1)]] show ?thesis
    by (intro exI [of _ evs] exI [of _ s']) simp
qed

end
