(* ===== verification/Link_Guarantees.thy ===== *)
theory Link_Guarantees
  imports Link_Invariants Client_Runs
begin

text \<open>
  What client and server guarantee each other, end to end: what the handler is called with, what
  the subscribers get, which acknowledgements reach the handler, and that a delivery and its
  acknowledgement get through.
\<close>

section \<open>What the handler sees\<close>

definition client_meta :: "Options \<Rightarrow> RegisterMeta" where
  "client_meta opts =
     \<lparr>rm_NodeID = o_NodeID opts, rm_Namespace = o_Namespace opts,
      rm_Version = o_BridgeVersion (client_defaults opts)\<rparr>"

lemma sent_frames_good:
  assumes "link_reaches opts tr l" and "(st, f) \<in> set (lk_sent l)"
  shows "good_frame (client_defaults opts) f"
proof -
  note c = link_client_reaches [OF assms(1)]
  from reaches_frames_inv [OF c] reaches_opts [OF c] assms(2) show ?thesis
    by (fastforce simp: frames_inv_def lk_sent_def)
qed

lemma in_on_stream: "x \<in> set (on_stream st xs) \<longleftrightarrow> (st, x) \<in> set xs"
  by (induction xs) auto

lemma good_register:
  assumes "good_frame (client_defaults opts) f" and "StreamRequest_GetRegister (Some f) = Some reg"
  shows "f = register_frame (client_defaults opts)" and "register_meta reg = client_meta opts"
proof -
  show f: "f = register_frame (client_defaults opts)"
    using assms
    by (auto simp: good_frame_def ingress_frame_def heartbeat_frame_def ack_frame_def getter_defs)
  show "register_meta reg = client_meta opts"
    using assms(2) unfolding f
    by (auto simp: register_frame_def getter_defs register_meta_def client_meta_def client_defaults_def)
qed

lemma register_frame_registers:
  "\<exists>reg. StreamRequest_GetRegister (Some (register_frame opts)) = Some reg"
  by (simp add: register_frame_def getter_defs)

text \<open>The frames received on a stream that was accepted, and the calls they led to.\<close>

lemma handler_calls:
  assumes "link_reaches opts tr l"
  shows "on_stream st (lk_calls l) = [] \<or>
    (\<exists>reqs tail. on_stream st (lk_read l) = register_frame (client_defaults opts) # reqs \<and>
       prefix (register_frame (client_defaults opts) # reqs) (on_stream st (lk_sent l)) \<and>
       (tail = [] \<or> tail = [OnClose]) \<and>
       on_stream st (lk_calls l) = OnRegister (client_meta opts) # wanted_calls reqs @ tail)"
proof -
  let ?read = "on_stream st (lk_read l)" and ?calls = "on_stream st (lk_calls l)"
  have inv: "stream_inv (lk_pc l st) ?read ?calls"
    using link_reaches_server [OF assms] by (simp add: server_inv_def)
  have pre: "prefix ?read (on_stream st (lk_sent l))"
    using link_reaches_wires [OF assms] by (simp add: wires_inv_def wire_ok_def)
  show ?thesis
  proof (cases "?calls = []")
    case False
    with inv obtain cs tail where cs: "served ?read = Some cs" "?calls = cs @ tail"
      "tail = [] \<or> tail = [OnClose]"
      by (auto simp: stream_inv_def split: stream_pc.splits option.splits)
    then obtain f reqs reg where f: "?read = f # reqs" "StreamRequest_GetRegister (Some f) = Some reg"
      "cs = OnRegister (register_meta reg) # wanted_calls reqs"
      by (auto simp: served_def split: list.splits)
    have "(st, f) \<in> set (lk_sent l)"
      using pre f(1) in_on_stream by (fastforce dest: set_mono_prefix)
    note good = good_register [OF sent_frames_good [OF assms this] f(2)]
    with cs f pre show ?thesis by auto
  qed simp
qed

text \<open>The first stream a client ever uses is never turned away.\<close>

lemma first_stream_accepted:
  assumes "link_reaches opts tr l" and "lk_sent l = (st, f) # fs" and "on_stream st (lk_read l) \<noteq> []"
  shows "on_stream st (lk_calls l) \<noteq> []"
proof -
  have "f = register_frame (client_defaults opts)"
    using reaches_wire_inv [OF link_client_reaches [OF assms(1)]]
      reaches_opts [OF link_client_reaches [OF assms(1)]] assms(2)
    by (auto simp: wire_inv_def lk_sent_def quiet_def split: if_splits)
  moreover have "prefix (on_stream st (lk_read l)) (on_stream st (lk_sent l))"
    using link_reaches_wires [OF assms(1)] by (simp add: wires_inv_def wire_ok_def)
  ultimately obtain reqs where "on_stream st (lk_read l) = register_frame (client_defaults opts) # reqs"
    using assms(2,3) by (cases "on_stream st (lk_read l)") auto
  then obtain cs where "served (on_stream st (lk_read l)) = Some cs" "cs \<noteq> []"
    using register_frame_registers [of "client_defaults opts"] by (auto simp: served_def)
  moreover have "stream_inv (lk_pc l st) (on_stream st (lk_read l)) (on_stream st (lk_calls l))"
    using link_reaches_server [OF assms(1)] by (simp add: server_inv_def)
  ultimately show ?thesis
    by (auto simp: stream_inv_def split: stream_pc.splits)
qed

lemma wanted_call_dispatch: "c \<in> set (wanted_calls reqs) \<Longrightarrow> \<exists>req \<in> set reqs. dispatch req = Some c"
  by (induction reqs) (auto split: option.splits)

text \<open>A call that a frame asked for: the frame was sent on that stream.\<close>

lemma frame_call_sent:
  assumes "link_reaches opts tr l" and "(st, c) \<in> set (lk_calls l)" and "is_frame_call c"
  obtains req where "(st, req) \<in> set (lk_sent l)" and "dispatch req = Some c"
proof -
  have c: "c \<in> set (on_stream st (lk_calls l))"
    using assms(2) by (simp add: in_on_stream)
  then have "on_stream st (lk_calls l) \<noteq> []" by auto
  with handler_calls [OF assms(1), of st] obtain reqs tail where h:
    "prefix (register_frame (client_defaults opts) # reqs) (on_stream st (lk_sent l))"
    "tail = [] \<or> tail = [OnClose]"
    "on_stream st (lk_calls l) = OnRegister (client_meta opts) # wanted_calls reqs @ tail" by blast
  from c h(2,3) assms(3) have "c \<in> set (wanted_calls reqs)" by auto
  then obtain req where "req \<in> set reqs" "dispatch req = Some c"
    using wanted_call_dispatch by blast
  moreover from this(1) h(1) have "(st, req) \<in> set (lk_sent l)"
    using in_on_stream by (fastforce dest: set_mono_prefix)
  ultimately show thesis using that by blast
qed

lemma dispatch_ingress:
  "dispatch req = Some (OnIngress e) \<Longrightarrow>
     sr_Payload req = Some (StreamRequest_Ingress (Some \<lparr>ing_Envelope = Some e\<rparr>))"
  by (auto simp: dispatch_def getter_defs split: option.splits StreamRequest_Payload.splits)

lemma handler_envelopes_complete:
  assumes "link_reaches opts tr l" and "\<forall>x \<in> set (client_part tr). well_stamped (snd x)"
    and "(st, OnIngress e) \<in> set (lk_calls l)"
  shows "envelope_complete (Some e)"
proof -
  obtain req where req: "(st, req) \<in> set (lk_sent l)" "dispatch req = Some (OnIngress e)"
    by (rule frame_call_sent [OF assms(1,3)]) simp
  obtain c where c: "NewClient opts = Inr c"
    "client_run (init_sys c) (client_part tr) (lk_client l)"
    using link_client_reaches [OF assms(1)] by (rule client_reachesE)
  from run_complete_inv [OF c(2) init_complete_inv [OF c(1)] assms(2)] req(1)
  have "frame_complete req" by (force simp: complete_inv_def lk_sent_def)
  with dispatch_ingress [OF req(2)] show ?thesis by (simp add: frame_complete_def)
qed

section \<open>What the subscribers get\<close>

text \<open>The deliveries, or broadcasts, the application asked for, as a client would be handed them.\<close>

definition requested ::
  "('v received \<Rightarrow> 'v queued list) \<Rightarrow> (('v, 'c) bridge_env \<times> 'v link_event) list \<Rightarrow> 'v queued list" where
  "requested pick tr = picks pick (map snd (application_sent tr))"

lemma subseq_mset: "subseq xs ys \<Longrightarrow> mset xs \<subseteq># mset ys"
  by (induction rule: list_emb.induct) (auto intro: subset_mset.order_trans)

lemma received_requested:
  assumes "link_reaches opts tr l"
  shows "mset (received_in pick (client_part tr)) \<subseteq># mset (requested pick tr)"
proof -
  have "mset (lk_in l) \<subseteq># mset (lk_out l)"
    using link_reaches_wires [OF assms] by (simp add: wires_inv_def wire_ok_mset)
  also have "mset (lk_out l) \<subseteq># mset (application_sent tr)"
    by (rule subseq_mset [OF link_reaches_application [OF assms]])
  finally have "mset (map snd (lk_in l)) \<subseteq># mset (map snd (application_sent tr))"
    by (simp add: image_mset_subseteq_mono)
  then show ?thesis
    unfolding link_reaches_received [OF assms] requested_def by (rule picks_mono)
qed

lemma subscribers_get_requested:
  assumes "link_reaches opts tr l"
  shows "deliveries (lk_client l) \<subseteq># mset (requested pick_deliver tr)"
    and "broadcasts (lk_client l) \<subseteq># mset (requested pick_broadcast tr)"
proof -
  obtain c where c: "NewClient opts = Inr c"
    "client_run (init_sys c) (client_part tr) (lk_client l)"
    using link_client_reaches [OF assms] by (rule client_reachesE)
  note acc = run_accounts [OF c(2)] init_accounts [OF c(1)]
  from acc have "deliveries (lk_client l) \<subseteq># mset (received_in pick_deliver (client_part tr))" by blast
  also note received_requested [OF assms]
  finally show "deliveries (lk_client l) \<subseteq># mset (requested pick_deliver tr)" .
  from acc have "broadcasts (lk_client l) \<subseteq># mset (received_in pick_broadcast (client_part tr))" by blast
  also note received_requested [OF assms]
  finally show "broadcasts (lk_client l) \<subseteq># mset (requested pick_broadcast tr)" .
qed

lemma on_stream_all: "fst ` set xs \<subseteq> {st} \<Longrightarrow> map snd xs = on_stream st xs"
  by (induction xs) auto

lemma subscribers_in_order:
  assumes "link_reaches opts tr l" and "LClient EvConnLost \<notin> snd ` set tr"
  shows "\<exists>st. prefix (rev (map fst (sy_taken (lk_client l)))) (picks pick_deliver (on_stream st (lk_out l)))"
proof -
  obtain st where st: "fst ` set (lk_in l) \<subseteq> {st}"
    using link_reaches_conn [OF assms] by (auto simp: conn_inv_def used_streams_def)
  obtain c where c: "NewClient opts = Inr c"
    "client_run (init_sys c) (client_part tr) (lk_client l)"
    using link_client_reaches [OF assms(1)] by (rule client_reachesE)
  have "EvConnLost \<notin> snd ` set (client_part tr)"
    using assms(2)
    by (auto simp: client_part_def map_filter_def client_event_def image_iff split: link_event.splits)
  from run_order_inv [OF c(2) init_order_inv [OF c(1)] init_invariants(5) [OF c(1)] this]
  have "prefix (rev (map fst (sy_taken (lk_client l)))) (picks pick_deliver (map snd (lk_in l)))"
    unfolding link_reaches_received [OF assms(1)]
    by (auto simp: order_inv_def delivered_order_def dest: append_prefixD)
  also have "map snd (lk_in l) = on_stream st (lk_in l)" by (rule on_stream_all [OF st])
  also have "prefix (picks pick_deliver (on_stream st (lk_in l))) (picks pick_deliver (on_stream st (lk_out l)))"
    using link_reaches_wires [OF assms(1)] by (simp add: wires_inv_def wire_ok_def picks_prefix)
  finally show ?thesis by blast
qed

section \<open>Which acknowledgements arrive\<close>

text \<open>What the application sends: deliveries name their message, broadcasts name nothing.\<close>

lemma receive_application [simp]:
  "NormalizeEnvelope p (Some e) = Some e' \<Longrightarrow>
     receive (deliver_response p e) = ToDeliver (e', Message_GetRequestId (env_Message e'))"
  "NormalizeEnvelope p (Some e) = Some e' \<Longrightarrow> receive (broadcast_response p e) = ToBroadcast (e', '''')"
  "receive (heartbeat_response n) = Ignored"
  by (auto simp: deliver_response_def broadcast_response_def heartbeat_response_def
      receive_def getter_defs BroadcastFrame_Reset_def split: option.splits)

lemma requested_broadcasts: "q \<in> set (requested pick_broadcast tr) \<Longrightarrow> snd q = ''''"
proof -
  assume "q \<in> set (requested pick_broadcast tr)"
  then obtain st resp ev where r: "(st, resp) \<in> set (application_sends ev)" "q \<in> set (pick_broadcast (receive resp))"
    by (auto simp: requested_def picks_def application_sent_def)
  show ?thesis
  proof (cases ev)
    case (LDeliver st' p e)
    with r NormalizeEnvelope_Some [of p e] show ?thesis by (auto simp: application_sends_def)
  next
    case (LBroadcast st' p e)
    with r NormalizeEnvelope_Some [of p e] show ?thesis by (auto simp: application_sends_def)
  qed (use r in \<open>auto simp: application_sends_def\<close>)
qed

lemma dispatch_good_ack:
  assumes "good_frame opts f" and "dispatch f = Some (OnAck a)"
  shows "f = ack_frame (ak_MessageID a) (ak_BroadcastID a)"
    and "ak_MessageID a \<noteq> '''' \<or> ak_BroadcastID a \<noteq> ''''"
  using assms
  by (auto simp: good_frame_def dispatch_def register_frame_def ingress_frame_def heartbeat_frame_def
      ack_frame_def getter_defs split: option.splits)

lemma count_filter_le: "length (filter (\<lambda>x. P x \<and> snd x = y) xs) \<le> count_list (map snd xs) y"
  by (induction xs) auto

lemma calls_of_ack:
  assumes "link_reaches opts tr l"
  shows "count_list (map snd (lk_calls l)) (OnAck a) \<le>
    ack_total (ak_MessageID a) (ak_BroadcastID a) (lk_client l)"
proof -
  let ?f = "ack_frame (ak_MessageID a) (ak_BroadcastID a)"
  have read: "mset (lk_read l) \<subseteq># mset (lk_sent l)"
    using link_reaches_wires [OF assms] by (simp add: wires_inv_def wire_ok_mset)
  have "count_list (map snd (lk_calls l)) (OnAck a) \<le> length (filter (asks_ack a) (lk_read l))"
    using link_reaches_acks [OF assms] by (simp add: acks_inv_def)
  also have "\<dots> \<le> length (filter (asks_ack a) (lk_sent l))"
    by (rule length_filter_mset [OF read])
  also have "filter (asks_ack a) (lk_sent l) = filter (\<lambda>x. asks_ack a x \<and> snd x = ?f) (lk_sent l)"
    by (intro filter_cong refl)
       (metis asks_ack_def dispatch_good_ack(1) sent_frames_good [OF assms] prod.collapse)
  also have "length \<dots> \<le> count_list (map snd (lk_sent l)) ?f"
    using count_filter_le [of "asks_ack a" ?f] .
  finally show ?thesis by (simp add: ack_total_def lk_sent_def)
qed

lemma ack_calls_bounded:
  assumes "link_reaches opts tr l" and "(st, OnAck a) \<in> set (lk_calls l)"
  shows "ak_MessageID a \<noteq> ''''" and "ak_BroadcastID a = ''''"
    and "count_list (map snd (lk_calls l)) (OnAck a) \<le> acked_in (ak_MessageID a) (sy_taken (lk_client l))"
proof -
  let ?m = "ak_MessageID a" and ?b = "ak_BroadcastID a" and ?s = "lk_client l"
  obtain req where "(st, req) \<in> set (lk_sent l)" "dispatch req = Some (OnAck a)"
    by (rule frame_call_sent [OF assms]) simp
  with dispatch_good_ack(2) sent_frames_good [OF assms(1)] have named: "?m \<noteq> '''' \<or> ?b \<noteq> ''''"
    by blast
  have "OnAck a \<in> set (map snd (lk_calls l))" using assms(2) by force
  then have "0 < count_list (map snd (lk_calls l)) (OnAck a)"
    by (metis count_list_0_iff gr0I)
  also note calls_of_ack [OF assms(1), of a]
  finally have "0 < ack_total ?m ?b ?s" .
  moreover have total: "ack_total ?m ?b ?s \<le> acked_as ?m ?b ?s"
    using reaches_ids_inv [OF link_client_reaches [OF assms(1)]] named by (simp add: ids_inv_def)
  ultimately have pos: "0 < acked_as ?m ?b ?s" by simp
  have "acked_in i (sy_takenB ?s) = 0" if "i \<noteq> ''''" for i
  proof -
    have "snd (fst x) = ''''" if "x \<in> set (sy_takenB ?s)" for x
    proof -
      have "fst x \<in># broadcasts ?s" using that by (force simp: broadcasts_def)
      with subscribers_get_requested(2) [OF assms(1)] have "fst x \<in> set (requested pick_broadcast tr)"
        by (metis mset_subset_eqD set_mset_mset)
      then show ?thesis by (rule requested_broadcasts)
    qed
    with \<open>i \<noteq> ''''\<close> show ?thesis by (auto simp: acked_in_def filter_empty_conv)
  qed
  with pos named show b: "?b = ''''" by (auto simp: acked_as_def split: if_splits)
  with named show "?m \<noteq> ''''" by simp
  from calls_of_ack [OF assms(1), of a] total b
  show "count_list (map snd (lk_calls l)) (OnAck a) \<le> acked_in ?m (sy_taken ?s)"
    by (simp add: acked_as_def)
qed

lemma acked_requested:
  assumes "link_reaches opts tr l"
  shows "acked_in m (sy_taken (lk_client l)) \<le> length (filter (\<lambda>q. snd q = m) (requested pick_deliver tr))"
proof -
  have "mset (map fst (sy_taken (lk_client l))) \<subseteq># deliveries (lk_client l)"
    unfolding deliveries_def by (simp add: add.assoc)
  also note subscribers_get_requested(1) [OF assms]
  finally show ?thesis
    using acked_in_le [of m "sy_taken (lk_client l)"] length_filter_mset le_trans by blast
qed

text \<open>The same in terms of what the application called: \<open>SendDeliver\<close> and \<open>SendBroadcast\<close>, as its events
  record them.\<close>

definition asked_deliveries ::
  "(('v, 'c) bridge_env \<times> 'v link_event) list \<Rightarrow> 'v queued list" where
  "asked_deliveries tr =
     List.map_filter
       (\<lambda>x. case snd x of
          LDeliver st p e \<Rightarrow>
            map_option (\<lambda>e'. (e', Message_GetRequestId (env_Message e'))) (NormalizeEnvelope p (Some e))
        | _ \<Rightarrow> None) tr"

definition asked_broadcasts ::
  "(('v, 'c) bridge_env \<times> 'v link_event) list \<Rightarrow> 'v queued list" where
  "asked_broadcasts tr =
     List.map_filter
       (\<lambda>x. case snd x of
          LBroadcast st p e \<Rightarrow> map_option (\<lambda>e'. (e', '''')) (NormalizeEnvelope p (Some e))
        | _ \<Rightarrow> None) tr"

lemma requested_Cons:
  "requested pick (x # tr) = picks pick (map snd (application_sends (snd x))) @ requested pick tr"
  by (simp add: requested_def application_sent_def)

lemma requested_asked:
  "requested pick_deliver tr = asked_deliveries tr" "requested pick_broadcast tr = asked_broadcasts tr"
proof -
  have "requested pick_deliver tr = asked_deliveries tr \<and> requested pick_broadcast tr = asked_broadcasts tr"
  proof (induction tr)
    case Nil
    then show ?case
      by (simp add: requested_def application_sent_def asked_deliveries_def asked_broadcasts_def
          map_filter_simps)
  next
    case (Cons x tr)
    have norm: "\<exists>e'. NormalizeEnvelope p (Some e) = Some e'" for p and e :: "'a TransportEnvelope"
      using NormalizeEnvelope_Some by blast
    show ?case
    proof (cases "snd x")
      case (LDeliver st p e)
      with Cons norm [of p e] show ?thesis
        by (auto simp: requested_Cons application_sends_def asked_deliveries_def asked_broadcasts_def
            map_filter_simps)
    next
      case (LBroadcast st p e)
      with Cons norm [of p e] show ?thesis
        by (auto simp: requested_Cons application_sends_def asked_deliveries_def asked_broadcasts_def
            map_filter_simps)
    qed (use Cons in \<open>simp_all add: requested_Cons application_sends_def asked_deliveries_def
        asked_broadcasts_def map_filter_simps\<close>)
  qed
  then show "requested pick_deliver tr = asked_deliveries tr"
    "requested pick_broadcast tr = asked_broadcasts tr" by blast+
qed

end
