(* ===== verification/Link_Runs.thy ===== *)
theory Link_Runs
  imports Link_Guarantees
begin

text \<open>
  Runs of client and server together that exist: the start of a client whose registration the
  handler accepts, and the way of a delivery to a subscriber and of its acknowledgement back.
\<close>

lemma link_run_one: "link_step env l ev l' \<Longrightarrow> link_run l [(env, ev)] l'"
  using link_snoc [OF link_Nil, of env l ev l'] by simp

lemma link_run_append: "link_run l2 tr2 l3 \<Longrightarrow> link_run l1 tr1 l2 \<Longrightarrow> link_run l1 (tr1 @ tr2) l3"
proof (induction rule: link_run.induct)
  case (link_Nil l)
  then show ?case by simp
next
  case (link_snoc l tr l' env ev l'')
  then have "link_run l1 ((tr1 @ tr) @ [(env, ev)]) l''" by (blast intro: link_run.link_snoc)
  then show ?case by simp
qed

lemma link_run_Cons: "link_step env l ev l' \<Longrightarrow> link_run l' tr l'' \<Longrightarrow> link_run l ((env, ev) # tr) l''"
  using link_run_append [OF _ link_run_one] by fastforce

lemma link_reaches_append:
  "link_reaches opts tr1 l \<Longrightarrow> link_run l tr2 l' \<Longrightarrow> link_reaches opts (tr1 @ tr2) l'"
  by (auto simp: link_reaches_def split: sum.splits intro: link_run_append)

text \<open>A frame that leads to a call, and the return of the method called.\<close>

lemma frame_handled:
  assumes "on_stream st (lk_sent l) = on_stream st (lk_read l) @ [f]" and "st \<in> set (lk_opened l)"
    and "stream_react (lk_pc l st) (Received f) = Some (InHandler c, [c])"
  obtains l' where "link_run l [(env, LServer st (Received f)), (env, LServer st (Returned None))] l'"
    and "lk_client l' = lk_client l" and "lk_pc l' st = Looping"
    and "lk_calls l' = lk_calls l @ [(st, c)]" and "lk_read l' = lk_read l @ [(st, f)]"
    and "lk_in l' = lk_in l" and "lk_out l' = lk_out l" and "lk_opened l' = lk_opened l"
proof -
  let ?l1 = "l\<lparr>lk_pc := (lk_pc l)(st := InHandler c), lk_calls := lk_calls l @ map (Pair st) [c],
    lk_read := lk_read l @ [(st, f)]\<rparr>"
  let ?l2 = "?l1\<lparr>lk_pc := (lk_pc ?l1)(st := Looping), lk_calls := lk_calls ?l1 @ map (Pair st) []\<rparr>"
  have "in_flight st (lk_read l) (lk_sent l) = [f]" using assms(1) by (simp add: in_flight_def)
  then have 1: "link_step env l (LServer st (Received f)) ?l1"
    by (rule server_receives [OF _ assms(3)])
  have 2: "link_step env ?l1 (LServer st (Returned None)) ?l2"
    by (rule server_moves) (use assms(2) in simp_all)
  show thesis
    by (rule that [OF link_run_Cons [OF 1 link_run_one [OF 2]]]) simp_all
qed

section \<open>Registration\<close>

inductive_cases connect_stepE: "client_step env s EvConnect s'"
inductive_cases register_stepE: "client_step env s EvRegister s'"

text \<open>Client and server have agreed on a stream, and nothing is under way on it.\<close>

definition linked :: "nat \<Rightarrow> 'v link \<Rightarrow> bool" where
  "linked st l \<longleftrightarrow>
     in_service st (lk_client l) \<and> lk_pc l st = Looping \<and> (\<exists>meta. (st, OnRegister meta) \<in> set (lk_calls l)) \<and>
     on_stream st (lk_in l) = on_stream st (lk_out l) \<and>
     on_stream st (lk_read l) = on_stream st (lk_sent l) \<and> st \<in> set (lk_opened l)"

definition link_startup ::
  "Options \<Rightarrow> nat \<Rightarrow> ('v, 'c) bridge_env \<Rightarrow> (('v, 'c) bridge_env \<times> 'v link_event) list" where
  "link_startup opts st env =
     map (Pair env)
       [LClient (EvStart Background), LClient EvConnect, LClient EvRegister,
        LServer st (Received (register_frame (client_defaults opts))), LServer st (Returned None)]"

lemma startup_steps:
  assumes "client_run (init_sys c) (startup env) s" and "in_service st s"
  obtains s1 s2 r where "client_step env (init_sys c) (EvStart Background) s1"
    and "client_step env s1 EvConnect s2" and "client_step env s2 EvRegister s"
    and "sy_run s2 = RunRegistering r st"
proof -
  from assms(1) obtain s1 s2 where s: "client_step env (init_sys c) (EvStart Background) s1"
    "client_step env s1 EvConnect s2" "client_step env s2 EvRegister s"
    by (auto simp: startup_def client_run_three_iff)
  have "\<exists>r. sy_run s2 = RunRegistering r st"
  proof (rule register_stepE [OF s(3)])
    fix r st' c' g
    assume reg: "sy_run s2 = RunRegistering r st'" "connect_register env st' (sy_client s2) = (c', None)"
      "s = s2\<lparr>sy_client := c', sy_run := RunConnected, sy_cons := (g, Receiving) # sy_cons s2,
         sy_hbs := g # sy_hbs s2\<rparr>"
    have "cl_stream (sy_client s2) = Some st'"
      by (rule connect_stepE [OF s(2)]) (use reg(1) in auto)
    with connect_register_fields [OF reg(2)] reg(3) assms(2) have "st' = st"
      by (simp add: in_service_def)
    with reg(1) show ?thesis by blast
  qed (use assms(2) in \<open>auto simp: in_service_def\<close>)
  with s show thesis using that by blast
qed

lemma link_startup_reaches:
  fixes env :: "('v, 'c) bridge_env"
  assumes "NewClient opts = Inr c" and "o_Metadata opts = []" and "cooperative env opts conn st"
  shows "\<exists>l. link_reaches opts (link_startup opts st env) l \<and> linked st l \<and> lk_out l = [] \<and>
    lk_calls l = [(st, OnRegister (client_meta opts))] \<and>
    client_run (init_sys c) (startup env) (lk_client l) \<and>
    cl_inflight (sy_client (lk_client l)) = cl_inflight c \<and> lk_opened l = [st]"
proof -
  obtain s where s: "client_run (init_sys c) (startup env) s" "in_service st s"
    "cl_sent (sy_client s) = [(st, register_frame (client_defaults opts))]"
    "cl_inflight (sy_client s) = cl_inflight c"
    using startup_in_service [OF assms] by blast
  obtain s1 s2 r where steps: "client_step env (init_sys c) (EvStart Background) s1"
    "client_step env s1 EvConnect s2" "client_step env s2 EvRegister s" "sy_run s2 = RunRegistering r st"
    by (rule startup_steps [OF s(1,2)])
  let ?l0 = "init_link c"
  let ?l1 = "?l0\<lparr>lk_client := s1\<rparr>"
  let ?l2 = "?l1\<lparr>lk_client := s2, lk_opened := st # lk_opened ?l1\<rparr>"
  let ?l3 = "?l2\<lparr>lk_client := s\<rparr>"
  let ?f = "register_frame (client_defaults opts) :: 'v StreamRequest" and ?c = "OnRegister (client_meta opts)"
  have 1: "link_step env ?l0 (LClient (EvStart Background)) ?l1"
    by (rule client_moves) (use steps(1) in \<open>simp_all add: init_link_def\<close>)
  have 2: "link_step env ?l1 (LClient EvConnect) ?l2"
    by (rule client_opens) (use steps(2,4) in \<open>simp_all add: init_link_def\<close>)
  have 3: "link_step env ?l2 (LClient EvRegister) ?l3"
    by (rule client_moves) (use steps(3) in simp_all)
  obtain reg where reg: "StreamRequest_GetRegister (Some ?f) = Some reg"
    using register_frame_registers by blast
  have "register_meta reg = client_meta opts"
    using good_register(2) [OF _ reg] by simp
  with reg have react: "stream_react (lk_pc ?l3 st) (Received ?f) = Some (InHandler ?c, [?c])"
    by (simp add: init_link_def)
  have frame: "on_stream st (lk_sent ?l3) = on_stream st (lk_read ?l3) @ [?f]" "st \<in> set (lk_opened ?l3)"
    using s(3) by (simp_all add: lk_sent_def init_link_def)
  obtain l' where l': "link_run ?l3 [(env, LServer st (Received ?f)), (env, LServer st (Returned None))] l'"
    "lk_client l' = s" "lk_pc l' st = Looping" "lk_calls l' = [(st, ?c)]" "lk_read l' = [(st, ?f)]"
    "lk_in l' = []" "lk_out l' = []" "lk_opened l' = [st]"
    by (rule frame_handled [OF frame react, of env]) (simp add: init_link_def)
  have "link_run ?l0 (link_startup opts st env) l'"
    using link_run_Cons [OF 1 link_run_Cons [OF 2 link_run_Cons [OF 3 l'(1)]]]
    by (simp only: link_startup_def list.map)
  moreover have "linked st l'"
    using s(2,3) l' by (auto simp: linked_def lk_sent_def)
  ultimately show ?thesis
    using assms(1) s(1,4) l' by (auto simp: link_reaches_def)
qed

section \<open>A delivery and its acknowledgement\<close>

definition round_trip ::
  "('v, 'c) bridge_env \<Rightarrow> nat \<Rightarrow> string \<times> pb_timestamp \<Rightarrow> 'v TransportEnvelope \<Rightarrow> string \<Rightarrow>
     (('v, 'c) bridge_env \<times> 'v link_event) list" where
  "round_trip env st p e m =
     map (Pair env)
       [LDeliver st p e, LClient EvRecvCall, LRecv st (deliver_response p e), LClient EvHand,
        LClient EvTake, LClient (EvAck None), LServer st (Received (ack_frame m '''')),
        LServer st (Returned None)]"

text \<open>The client's side of it: the steps from \<open>Recv\<close> to the acknowledgement.\<close>

lemma deliver_and_ack:
  assumes "in_service st s" and "chan_has_room (cl_deliverCh (sy_client s))"
    and "ch_buf (cl_deliverCh (sy_client s)) = []" and "receive resp = ToDeliver (e, m)"
    and "m \<noteq> ''''" and "\<And>f. be_Send env st f = None"
  obtains g s1 s2 s3 s4 s5 where "client_step env s EvRecvCall s1" and "sy_cons s1 = [(g, InRecv st)]"
    and "s2 = s1\<lparr>sy_cons := [(g, Handing (ToDeliver (e, m)))]\<rparr>"
    and "client_step env s1 (EvRecv resp) s2" and "client_step env s2 EvHand s3"
    and "client_step env s3 EvTake s4" and "client_step env s4 (EvAck None) s5"
    and "in_service st s5" and "sy_taken s5 = ((e, m), True) # sy_taken s"
    and "cl_sent (sy_client s5) = cl_sent (sy_client s) @ [(st, ack_frame m '''')]"
proof -
  obtain g where g: "sy_cons s = [] @ (g, Receiving) # []" using assms(1) by (auto simp: in_service_def)
  let ?q = "(e, m)"
  let ?c = "sy_client s"
  let ?s1 = "s\<lparr>sy_cons := [] @ (g, InRecv st) # []\<rparr>"
  let ?s2 = "s\<lparr>sy_cons := [] @ (g, Handing (ToDeliver ?q)) # []\<rparr>"
  let ?ch = "chan_push ?q (cl_deliverCh ?c)"
  let ?s3 = "s\<lparr>sy_client := ?c\<lparr>cl_deliverCh := ?ch\<rparr>, sy_cons := [] @ (g, Receiving) # []\<rparr>"
  let ?c4 = "(sy_client ?s3)\<lparr>cl_deliverCh := (cl_deliverCh (sy_client ?s3))\<lparr>ch_buf := []\<rparr>\<rparr>"
  let ?s4 = "?s3\<lparr>sy_client := ?c4, sy_taken := [] @ (?q, False) # sy_taken s\<rparr>"
  let ?c5 = "?c4\<lparr>cl_sent := cl_sent ?c4 @ [(st, ack_frame m '''')]\<rparr>"
  let ?s5 = "?s4\<lparr>sy_client := ?c5, sy_taken := [] @ (?q, True) # sy_taken s\<rparr>"
  have 1: "client_step env s EvRecvCall ?s1"
    using recv_call [of s "[]" g "[]" st env] assms(1) g by (simp add: in_service_def)
  have 2: "client_step env ?s1 (EvRecv resp) ?s2"
    using recv [of ?s1 "[]" g st "[]" env resp] assms(1,4) by (simp add: in_service_def)
  have 3: "client_step env ?s2 EvHand ?s3"
    using hand_deliver [of ?s2 "[]" g ?q "[]" env] assms(1,2) by (simp add: in_service_def)
  have 4: "client_step env ?s3 EvTake ?s4"
    using take_deliver [of ?s3 ?q "[]" env] assms(1,3) by (simp add: in_service_def chan_push_def)
  have "sendAck env (Some Background) m '''' ?c4 = (?c5, None)"
    using assms(1,5,6) by (simp add: sendAck_def stream_Send_def in_service_def Let_def
        ctx_or_background_def)
  then have "\<exists>d. Delivery_Ack None (Some (client_delivery env ?q), ?c4) = ((d, ?c5), None)"
    using assms(5) by (simp add: Delivery_Ack_def client_delivery_def newDelivery_def Let_def
        ctx_or_background_def)
  then obtain d where d: "Delivery_Ack None (Some (client_delivery env ?q), sy_client ?s4) = ((d, ?c5), None)"
    by auto
  have 5: "client_step env ?s4 (EvAck None) ?s5"
    using ack_deliver [of ?s4 "[]" ?q "sy_taken s" None env d ?c5 None] d assms(1)
    by (simp add: in_service_def)
  have "in_service st ?s5" using assms(1) by (simp add: in_service_def)
  with 1 2 3 4 5 show thesis by (intro that [of ?s1 g ?s2 ?s3 ?s4 ?s5]) simp_all
qed

lemma round_trip_runs:
  fixes l :: "'v link"
  assumes "linked st l" and "chan_has_room (cl_deliverCh (sy_client (lk_client l)))"
    and "ch_buf (cl_deliverCh (sy_client (lk_client l))) = []"
    and "NormalizeEnvelope p (Some e) = Some e'" and "m = Message_GetRequestId (env_Message e')"
    and "m \<noteq> ''''" and "\<And>f. be_Send env st f = None"
  shows "\<exists>l'. link_run l (round_trip env st p e m) l' \<and> linked st l' \<and>
    sy_taken (lk_client l') = ((e', m), True) # sy_taken (lk_client l) \<and>
    lk_calls l' = lk_calls l @
      [(st, OnAck \<lparr>ak_MessageID = m, ak_BroadcastID = '''', ak_Status = '''', ak_Reason = ''''\<rparr>)]"
proof -
  let ?s = "lk_client l" and ?resp = "deliver_response p e" and ?f = "ack_frame m '''' :: 'v StreamRequest"
  let ?a = "\<lparr>ak_MessageID = m, ak_BroadcastID = '''', ak_Status = '''', ak_Reason = ''''\<rparr>"
  obtain meta where l: "in_service st ?s" "lk_pc l st = Looping" "(st, OnRegister meta) \<in> set (lk_calls l)"
    "on_stream st (lk_in l) = on_stream st (lk_out l)"
    "on_stream st (lk_read l) = on_stream st (lk_sent l)" "st \<in> set (lk_opened l)"
    using assms(1) by (auto simp: linked_def)
  have rcv: "receive ?resp = ToDeliver (e', m)" using assms(4,5) by simp
  obtain g s1 s2 s3 s4 s5 where s: "client_step env ?s EvRecvCall s1" "sy_cons s1 = [(g, InRecv st)]"
    "s2 = s1\<lparr>sy_cons := [(g, Handing (ToDeliver (e', m)))]\<rparr>" "client_step env s1 (EvRecv ?resp) s2"
    "client_step env s2 EvHand s3" "client_step env s3 EvTake s4" "client_step env s4 (EvAck None) s5"
    "in_service st s5" "sy_taken s5 = ((e', m), True) # sy_taken ?s"
    "cl_sent (sy_client s5) = cl_sent (sy_client ?s) @ [(st, ?f)]"
    by (rule deliver_and_ack [OF l(1) assms(2,3) rcv assms(6,7)])
  let ?l1 = "l\<lparr>lk_out := lk_out l @ [(st, ?resp)]\<rparr>"
  let ?l2 = "?l1\<lparr>lk_client := s1\<rparr>"
  let ?L = "l\<lparr>lk_out := lk_out l @ [(st, ?resp)], lk_in := lk_in l @ [(st, ?resp)]\<rparr>"
  let ?l6 = "?L\<lparr>lk_client := s5\<rparr>"
  have 1: "link_step env l (LDeliver st p e) ?l1"
    by (rule server_delivers [OF l(3), where answer = None and r = None])
       (simp add: SendDeliver_def session_send_def wire_Send_def deliver_response_def)
  have 2: "link_step env ?l1 (LClient EvRecvCall) ?l2"
    by (rule client_moves) (use s(1) in simp_all)
  have "in_flight st (lk_in ?l2) (lk_out ?l2) = [?resp]"
    using l(4) by (simp add: in_flight_def)
  then have "link_step env ?l2 (LRecv st ?resp) (?l2\<lparr>lk_client := s2, lk_in := lk_in ?l2 @ [(st, ?resp)]\<rparr>)"
    by (intro client_receives [where xs = "[]" and ys = "[]" and g = g and rest = "[]"])
       (use s(2,3,4) rcv in simp_all)
  moreover have "?l2\<lparr>lk_client := s2, lk_in := lk_in ?l2 @ [(st, ?resp)]\<rparr> = ?L\<lparr>lk_client := s2\<rparr>" by simp
  ultimately have 3: "link_step env ?l2 (LRecv st ?resp) (?L\<lparr>lk_client := s2\<rparr>)" by (simp only:)
  have moves: "link_step env (?L\<lparr>lk_client := t\<rparr>) (LClient ev) (?L\<lparr>lk_client := t'\<rparr>)"
    if "client_step env t ev t'" "ev \<noteq> EvConnect" "\<forall>resp. ev \<noteq> EvRecv resp" for t t' ev
    using client_moves [of env "?L\<lparr>lk_client := t\<rparr>" ev t'] that by simp
  have 4: "link_step env (?L\<lparr>lk_client := s2\<rparr>) (LClient EvHand) (?L\<lparr>lk_client := s3\<rparr>)"
    by (rule moves [OF s(5)]) simp_all
  have 5: "link_step env (?L\<lparr>lk_client := s3\<rparr>) (LClient EvTake) (?L\<lparr>lk_client := s4\<rparr>)"
    by (rule moves [OF s(6)]) simp_all
  have 6: "link_step env (?L\<lparr>lk_client := s4\<rparr>) (LClient (EvAck None)) ?l6"
    by (rule moves [OF s(7)]) simp_all
  have "dispatch ?f = Some (OnAck ?a)"
    by (simp add: dispatch_def ack_frame_def getter_defs)
  then have react: "stream_react (lk_pc ?l6 st) (Received ?f) = Some (InHandler (OnAck ?a), [OnAck ?a])"
    using l(2) by simp
  have frame: "on_stream st (lk_sent ?l6) = on_stream st (lk_read ?l6) @ [?f]" "st \<in> set (lk_opened ?l6)"
    using l(5,6) s(10) by (simp_all add: lk_sent_def)
  obtain l' where l': "link_run ?l6 [(env, LServer st (Received ?f)), (env, LServer st (Returned None))] l'"
    "lk_client l' = s5" "lk_pc l' st = Looping" "lk_calls l' = lk_calls l @ [(st, OnAck ?a)]"
    "lk_read l' = lk_read l @ [(st, ?f)]" "lk_in l' = lk_in l @ [(st, ?resp)]"
    "lk_out l' = lk_out l @ [(st, ?resp)]" "lk_opened l' = lk_opened l"
    by (rule frame_handled [OF frame react, of env]) simp
  have "link_run l (round_trip env st p e m) l'"
    using link_run_Cons [OF 1 link_run_Cons [OF 2 link_run_Cons [OF 3 link_run_Cons [OF 4
          link_run_Cons [OF 5 link_run_Cons [OF 6 l'(1)]]]]]]
    by (simp only: round_trip_def list.map)
  moreover have "linked st l'"
    using l s(8,10) l' by (auto simp: linked_def lk_sent_def)
  ultimately show ?thesis using s(9) l' by auto
qed

text \<open>Right after the start the queue of deliveries is empty and has room.\<close>

lemma startup_queue:
  fixes s :: "'v sys" and env :: "('v, 'c) bridge_env"
  assumes "NewClient opts = Inr c" and "client_run (init_sys c) (startup env) s"
  shows "ch_buf (cl_deliverCh (sy_client s)) = []" and "chan_has_room (cl_deliverCh (sy_client s))"
    and "sy_taken s = []"
proof -
  have reach: "client_reaches opts (startup env) s"
    using assms by (simp add: client_reaches_def)
  have "received_in pick_deliver (startup env) = []"
    by (simp add: received_in_def startup_def came_in_def)
  with run_accounts [OF assms(2)] init_accounts [OF assms(1)] have empty: "deliveries s = {#}" by simp
  then show buf: "ch_buf (cl_deliverCh (sy_client s)) = []" and "sy_taken s = []"
    by (simp_all add: deliveries_def)
  have "0 < o_DeliverBuffer (cl_opts (sy_client s))"
    using reaches_opts [OF reach] by (simp add: client_defaults_def)
  with reaches_queue_inv [OF reach] startup_open [OF assms] buf
  show "chan_has_room (cl_deliverCh (sy_client s))"
    by (simp add: queue_inv_def chan_has_room_def)
qed

end
