(* ===== verification/Client_Connections.thy ===== *)
theory Client_Connections
  imports Client_Traces Client_Runs
begin

text \<open>
  The bridge client over all its connections. The run loop opens the next connection only after
  the consumer of the last one has reported its error and gone, so there is never more than one
  consumer; and a consumer gives a response up only once the client was closed or its context
  cancelled, after which no further connection is consumed. Hence the subscribers get what came in,
  in the order it came in, over any number of reconnections.
\<close>

section \<open>One consumer at a time\<close>

text \<open>
  While the run context lasts, the context of the connection in service is live. The last clause
  says so for the connection that is being registered.
\<close>

definition lone_inv :: "'v sys \<Rightarrow> bool" where
  "lone_inv s \<longleftrightarrow>
     (cl_startOnce (sy_client s) \<longrightarrow> cl_runCancel (sy_client s)) \<and>
     (before_connection (sy_run s) \<longrightarrow> sy_cons s = []) \<and>
     (sy_run s = RunFinished \<longrightarrow> ctx_done (cl_runCtx (sy_client s))) \<and>
     (sy_cons s = [] \<or> (\<exists>x. sy_cons s = [x])) \<and>
     (sy_run s = RunConnected \<longrightarrow>
        (\<exists>ch. cl_recvErr (sy_client s) = Some ch \<and> (ch_buf ch = [] \<or> sy_cons s = [])) \<and>
        (\<not> ctx_done (cl_runCtx (sy_client s)) \<longrightarrow>
           fst ` set (sy_cons s) \<subseteq> set (cl_liveCtxs (sy_client s)))) \<and>
     (\<forall>r st g. sy_run s = RunRegistering r st \<longrightarrow> cl_cancel (sy_client s) = Some g \<longrightarrow>
        ctx_done (cl_runCtx (sy_client s)) \<or> g \<in> set (cl_liveCtxs (sy_client s)))"

lemma lone_inv_cong:
  assumes "lone_inv s"
    and "cl_startOnce (sy_client s') = cl_startOnce (sy_client s)"
    and "cl_runCancel (sy_client s') = cl_runCancel (sy_client s)"
    and "cl_runCtx (sy_client s') = cl_runCtx (sy_client s)"
    and "cl_cancel (sy_client s') = cl_cancel (sy_client s)"
    and "cl_liveCtxs (sy_client s') = cl_liveCtxs (sy_client s)"
    and "cl_recvErr (sy_client s') = cl_recvErr (sy_client s)"
    and "sy_run s' = sy_run s" and "sy_cons s' = sy_cons s"
  shows "lone_inv s'"
  using assms(1) unfolding lone_inv_def assms(2-) .

lemma lone_consumer:
  assumes "lone_inv s" and "sy_cons s = xs @ x # ys"
  shows "xs = []" and "ys = []" and "\<not> before_connection (sy_run s)"
  using assms by (auto simp: lone_inv_def append_eq_Cons_conv)

text \<open>A consumer that moves on stays the only one.\<close>

lemma lone_inv_moves:
  assumes "lone_inv s" and "sy_cons s = xs @ (g, pc) # ys"
  shows "lone_inv (s\<lparr>sy_cons := xs @ (g, pc') # ys\<rparr>)"
    and "lone_inv (s\<lparr>sy_client := (sy_client s)\<lparr>cl_deliverCh := ch\<rparr>, sy_cons := xs @ (g, pc') # ys\<rparr>)"
    and "lone_inv (s\<lparr>sy_client := (sy_client s)\<lparr>cl_broadcastCh := chb\<rparr>, sy_cons := xs @ (g, pc') # ys\<rparr>)"
    and "lone_inv (s\<lparr>sy_cons := xs @ ys\<rparr>)"
  using lone_consumer [OF assms] assms by (auto simp: lone_inv_def)

lemma lone_inv_connect:
  assumes "lone_inv s" and "connect_stream env (sy_client s) = (c', e)" and "before_connection (sy_run s)"
    and "before_connection pc"
  shows "lone_inv (s\<lparr>sy_client := c', sy_run := pc\<rparr>)"
proof -
  have g: "cl_cancel c' = Some (cl_nextCtx (sy_client s))"
    using assms(2) by (auto simp: connect_stream_def Let_def split: sum.splits)
  from connect_stream_fields [OF assms(2)] connect_stream_live [OF assms(2)] assms(1,3,4)
  show ?thesis by (cases pc) (simp_all add: lone_inv_def g)
qed

lemma client_Close_context:
  "cl_runCancel c \<Longrightarrow> cl_stopOnce c \<and> fst (client_Close env c) = c \<or>
     ctx_done (cl_runCtx (fst (client_Close env c)))"
  by (simp add: client_Close_def Let_def cancel_ctx_def close_conn_def run_cancel_def split: option.split)

lemma ctx_done_cancelled_of [simp]: "ctx_done ctx \<Longrightarrow> ctx_cancelled ctx = ctx"
  by (cases ctx) (auto simp: ctx_done_def ctx_cancelled_def)

lemma client_Close_done: "ctx_done (cl_runCtx c) \<Longrightarrow> ctx_done (cl_runCtx (fst (client_Close env c)))"
  by (simp add: client_Close_def Let_def cancel_ctx_def close_conn_def run_cancel_def split: option.split)

lemma lone_inv_close:
  assumes "lone_inv s" and "wg_inv s"
  shows "lone_inv (s\<lparr>sy_client := fst (client_Close env (sy_client s))\<rparr>)"
proof (cases "cl_startOnce (sy_client s)")
  case True
  with assms(1) have "cl_runCancel (sy_client s)" by (simp add: lone_inv_def)
  from client_Close_context [OF this, of env] show ?thesis
  proof (elim disjE conjE)
    assume "fst (client_Close env (sy_client s)) = sy_client s"
    with assms(1) show ?thesis by simp
  next
    assume "ctx_done (cl_runCtx (fst (client_Close env (sy_client s))))"
    with assms(1) show ?thesis by (simp add: lone_inv_def client_Close_keeps)
  qed
next
  case False
  with assms show ?thesis by (auto simp: lone_inv_def wg_inv_def client_Close_keeps)
qed

lemma lone_inv_step:
  "client_step env s ev s' \<Longrightarrow> lone_inv s \<Longrightarrow> wg_inv s \<Longrightarrow> lone_inv s'"
proof (induction rule: client_step.induct)
  case (start_first s env ctx)
  then show ?case by (auto simp: wg_inv_def lone_inv_def client_Start_fields)
next
  case (connect_ok s r env c' st)
  then show ?case by (intro lone_inv_connect) simp_all
next
  case (connect_fail s r env c' e)
  then show ?case by (intro lone_inv_connect) simp_all
next
  case (register_ok s r st env c' g)
  then have "cl_recvErr c' = Some (make_chan 1)"
    by (auto simp: connect_register_def split: prod.splits option.splits)
  with register_ok connect_register_fields [OF register_ok(3)] connect_register_live [OF register_ok(3)]
  show ?case
    by (auto simp: lone_inv_def make_chan_def connect_register_def stream_Send_def split: prod.splits option.splits)
next
  case (register_fail s r st env c' e)
  with connect_register_fields [OF register_fail(3)] show ?case by (auto simp: lone_inv_def)
next
  case (recv_call s xs g ys st env)
  then show ?case by (intro lone_inv_moves)
next
  case (recv s xs g st ys env resp)
  then show ?case by (intro lone_inv_moves)
next
  case (recv_err s xs g st ys ch env e)
  from lone_consumer [OF recv_err(5,2)] recv_err(2,5) show ?case by (auto simp: lone_inv_def)
next
  case (recv_err_unset s xs g st ys env e)
  then show ?case by (intro lone_inv_moves)
next
  case (hand_deliver s xs g q ys env)
  then show ?case by (intro lone_inv_moves)
next
  case (hand_broadcast s xs g q ys env)
  then show ?case by (intro lone_inv_moves)
next
  case (consumer_exit s xs g d ys env)
  then show ?case by (intro lone_inv_moves)
next
  case (close s env)
  then show ?case by (intro lone_inv_close)
next
  case (cancel s env)
  then show ?case by (auto simp: lone_inv_def run_cancel_def)
next
  case (connected_done s c' env)
  then show ?case by (auto simp: lone_inv_def cleanup_def cancel_ctx_def close_conn_def Let_def split: option.splits)
next
  case (connected_lost s ch e rest env)
  then show ?case by (auto simp: lone_inv_def cleanup_def cancel_ctx_def close_conn_def Let_def split: option.splits)
next
  case (connected_lost_done s ch e rest c' env)
  then show ?case by (auto simp: lone_inv_def cleanup_def cancel_ctx_def close_conn_def Let_def split: option.splits)
next
  case (timer s r env)
  then show ?case by (simp add: lone_inv_def)
next
  case (backoff_done s r env)
  then show ?case by (simp add: lone_inv_def)
qed (erule lone_inv_cong; auto simp: releaseSlot_def split: option.splits list.splits
      dest!: acquireSlot_fields publish_send_fields sendHeartbeat_fields client_Ack_fields
        client_BroadcastAck_fields)+

lemma init_lone_inv: "NewClient opts = Inr c \<Longrightarrow> lone_inv (init_sys c)"
  by (auto simp: lone_inv_def init_sys_def NewClient_def Let_def split: if_splits)

section \<open>Order over all connections\<close>

definition broadcast_order :: "'v sys \<Rightarrow> 'v queued list" where
  "broadcast_order s =
     rev (map fst (sy_takenB s)) @ ch_buf (cl_broadcastCh (sy_client s)) @ held pick_broadcast s"

text \<open>No consumer is left, and there will be none.\<close>

definition gone :: "'v sys \<Rightarrow> bool" where
  "gone s \<longleftrightarrow> sy_cons s = [] \<and> \<not> before_connection (sy_run s) \<and> ctx_done (cl_runCtx (sy_client s))"

definition seq_inv :: "'v sys \<Rightarrow> 'v queued list \<Rightarrow> 'v queued list \<Rightarrow> bool" where
  "seq_inv s recd recb \<longleftrightarrow>
     (\<exists>ld lb. recd = delivered_order s @ ld \<and> recb = broadcast_order s @ lb \<and>
        (ld = [] \<and> lb = [] \<or> gone s))"

lemmas seq_defs = delivered_order_def broadcast_order_def held_def

lemma seq_inv_cong:
  assumes "seq_inv s recd recb" and "delivered_order s' = delivered_order s"
    and "broadcast_order s' = broadcast_order s" and "gone s \<longrightarrow> gone s'"
    and "extra = []" and "extrab = []"
  shows "seq_inv s' (recd @ extra) (recb @ extrab)"
  using assms unfolding seq_inv_def by auto

lemma seq_consumer:
  assumes "seq_inv s recd recb" and "sy_cons s = xs @ x # ys"
  shows "recd = delivered_order s" and "recb = broadcast_order s"
  using assms by (auto simp: seq_inv_def gone_def)

lemma seq_inv_exact: "recd = delivered_order s \<Longrightarrow> recb = broadcast_order s \<Longrightarrow> seq_inv s recd recb"
  by (simp add: seq_inv_def)

lemma held_by_both:
  "pick_deliver (receive resp) = held_by pick_deliver (case receive resp of Ignored \<Rightarrow> Receiving | d \<Rightarrow> Handing d)"
  "pick_broadcast (receive resp) = held_by pick_broadcast (case receive resp of Ignored \<Rightarrow> Receiving | d \<Rightarrow> Handing d)"
  by (auto split: received.split)

lemma seq_inv_step:
  "client_step env s ev s' \<Longrightarrow> seq_inv s recd recb \<Longrightarrow> lone_inv s \<Longrightarrow> wg_inv s \<Longrightarrow>
     seq_inv s' (recd @ came_in pick_deliver ev) (recb @ came_in pick_broadcast ev)"
proof (induction rule: client_step.induct)
  case (start_first s env ctx)
  then show ?case
    by (intro seq_inv_cong [OF start_first(3)]) (auto simp: wg_inv_def seq_defs gone_def client_Start_fields)
next
  case (recv_call s xs g ys st env)
  from seq_consumer [OF recv_call(4,2)] lone_consumer [OF recv_call(5,2)] recv_call(2) show ?case
    by (intro seq_inv_exact) (simp_all add: seq_defs)
next
  case (recv s xs g st ys env resp)
  from seq_consumer [OF recv(3,2)] lone_consumer [OF recv(4,2)] recv(2) show ?case
    by (intro seq_inv_exact) (simp_all add: seq_defs held_by_both)
next
  case (recv_err s xs g st ys ch env e)
  from seq_consumer [OF recv_err(5,2)] lone_consumer [OF recv_err(6,2)] recv_err(2) show ?case
    by (intro seq_inv_exact) (simp_all add: seq_defs)
next
  case (recv_err_unset s xs g st ys env e)
  from seq_consumer [OF recv_err_unset(4,2)] lone_consumer [OF recv_err_unset(5,2)] recv_err_unset(2)
  show ?case by (intro seq_inv_exact) (simp_all add: seq_defs)
next
  case (hand_deliver s xs g q ys env)
  from seq_consumer [OF hand_deliver(4,2)] lone_consumer [OF hand_deliver(5,2)] hand_deliver(2)
  show ?case by (intro seq_inv_exact) (simp_all add: seq_defs chan_push_def)
next
  case (hand_broadcast s xs g q ys env)
  from seq_consumer [OF hand_broadcast(4,2)] lone_consumer [OF hand_broadcast(5,2)] hand_broadcast(2)
  show ?case by (intro seq_inv_exact) (simp_all add: seq_defs chan_push_def)
next
  case (consumer_exit s xs g d ys env)
  note only = lone_consumer [OF consumer_exit(5,2)]
  with consumer_exit(2) have cons: "sy_cons s = [(g, Handing d)]" by simp
  from only(3) have "sy_run s = RunConnected \<or> sy_run s = RunFinished"
    by (auto simp: before_connection_def)
  with consumer_exit(3,5) cons have "ctx_done (cl_runCtx (sy_client s))"
    by (auto simp: lone_inv_def)
  with seq_consumer [OF consumer_exit(4,2)] only cons consumer_exit(2) show ?case
    unfolding seq_inv_def
    by (intro exI [of _ "held_by pick_deliver (Handing d)"] exI [of _ "held_by pick_broadcast (Handing d)"])
       (simp add: seq_defs gone_def)
next
  case (take_deliver s q rest env)
  then show ?case by (intro seq_inv_cong [OF take_deliver(3)]) (auto simp: seq_defs gone_def)
next
  case (take_broadcast s q rest env)
  then show ?case by (intro seq_inv_cong [OF take_broadcast(3)]) (auto simp: seq_defs gone_def)
next
  case (ack_deliver s xs q ys ctx env d c' err)
  from client_Ack_fields [OF ack_deliver(3)] ack_deliver(2) show ?case
    by (intro seq_inv_cong [OF ack_deliver(4)]) (auto simp: seq_defs gone_def)
next
  case (ack_broadcast s xs q ys ctx env d c' err)
  from client_BroadcastAck_fields [OF ack_broadcast(3)] ack_broadcast(2) show ?case
    by (intro seq_inv_cong [OF ack_broadcast(4)]) (auto simp: seq_defs gone_def)
qed ((erule seq_inv_cong; auto simp: seq_defs gone_def client_Close_keeps client_Close_done run_cancel_def
      dest!: step_fields)+)

lemma run_seq_inv:
  "client_run s0 tr s \<Longrightarrow> seq_inv s0 [] [] \<Longrightarrow> lone_inv s0 \<Longrightarrow> wg_inv s0 \<Longrightarrow>
     seq_inv s (received_in pick_deliver tr) (received_in pick_broadcast tr) \<and> lone_inv s \<and> wg_inv s"
  by (induction rule: client_run.induct) (auto intro: seq_inv_step lone_inv_step wg_inv_step)

lemma reaches_seq_inv:
  assumes "client_reaches opts tr s"
  shows "seq_inv s (received_in pick_deliver tr) (received_in pick_broadcast tr)" and "lone_inv s"
proof -
  obtain c where c: "NewClient opts = Inr c" "client_run (init_sys c) tr s"
    using assms by (rule client_reachesE)
  have "seq_inv (init_sys c) [] []"
    using NewClient_fields(2,3) [OF c(1)] by (simp add: seq_inv_def seq_defs init_sys_def make_chan_def)
  from run_seq_inv [OF c(2) this init_lone_inv [OF c(1)] init_invariants(5) [OF c(1)]]
  show "seq_inv s (received_in pick_deliver tr) (received_in pick_broadcast tr)" "lone_inv s" by blast+
qed

end
