(* ===== verification/Link_Order.thy ===== *)
theory Link_Order
  imports Link_Runs Client_Connections
begin

text \<open>
  Client and server over any number of reconnections: the client receives on one stream after the
  other, in the order it opened them, so its subscribers get what the sessions sent, stream by
  stream and on each in order and without gaps; and a stream the client has given up is never
  received on again, so what was under way on it is lost.
\<close>

section \<open>One stream after the other\<close>

text \<open>Only the stream opened last is received on.\<close>

definition newest :: "nat \<Rightarrow> 'v link \<Rightarrow> bool" where
  "newest st l \<longleftrightarrow> (\<exists>rest. lk_opened l = st # rest)"

definition order_link :: "'v link \<Rightarrow> bool" where
  "order_link l \<longleftrightarrow>
     distinct (lk_opened l) \<and> fst ` set (lk_in l) \<subseteq> set (lk_opened l) \<and>
     map snd (lk_in l) = concat (map (\<lambda>st. on_stream st (lk_in l)) (rev (lk_opened l))) \<and>
     (\<forall>st. cl_stream (sy_client (lk_client l)) = Some st \<longrightarrow> newest st l) \<and>
     (\<forall>x \<in> set (sy_cons (lk_client l)). \<forall>st. snd x = InRecv st \<longrightarrow> newest st l)"

lemma on_stream_other: "st \<notin> fst ` set xs \<Longrightarrow> on_stream st xs = []"
  by (induction xs) auto

text \<open>What a step of the client alone does to its stream and to the consumers inside \<open>Recv\<close>.\<close>

lemma step_stream:
  "client_step env s ev s' \<Longrightarrow> ev \<noteq> EvConnect \<Longrightarrow>
     cl_stream (sy_client s') = None \<or> cl_stream (sy_client s') = cl_stream (sy_client s)"
  by (induction rule: client_step.induct)
     (auto simp: client_Start_fields client_Close_keeps run_cancel_def dest!: step_fields)

lemma step_receivers:
  "client_step env s ev s' \<Longrightarrow> x \<in> set (sy_cons s') \<Longrightarrow> snd x = InRecv st \<Longrightarrow>
     x \<in> set (sy_cons s) \<or> cl_stream (sy_client s) = Some st"
  by (induction rule: client_step.induct) (auto split: received.splits)

lemma step_connect:
  "client_step env s EvConnect s' \<Longrightarrow> sy_cons s' = sy_cons s \<and> before_connection (sy_run s) \<and>
     (\<forall>r st. sy_run s' = RunRegistering r st \<longrightarrow> cl_stream (sy_client s') = Some st) \<and>
     (\<forall>r. sy_run s' = RunBackoff r \<longrightarrow> cl_stream (sy_client s') = cl_stream (sy_client s))"
  by (cases rule: client_step.cases [of env s EvConnect s']) (auto dest!: connect_stream_fields)

lemma order_link_step:
  "link_step env l ev l' \<Longrightarrow> order_link l \<Longrightarrow> lone_inv (lk_client l) \<Longrightarrow> order_link l'"
proof (induction rule: link_step.induct)
  case (client_moves env l ev s')
  from step_stream [OF client_moves(1,2)] step_receivers [OF client_moves(1)] client_moves(4)
  show ?case by (fastforce simp: order_link_def newest_def)
next
  case (client_opens env l s' r st)
  note step = step_connect [OF client_opens(1)]
  then have none: "sy_cons s' = []" using client_opens(5) by (auto simp: lone_inv_def)
  have "on_stream st (lk_in l) = []"
    using client_opens(3,4) by (intro on_stream_other) (auto simp: order_link_def)
  with step none client_opens(2,3,4) show ?case
    by (auto simp: order_link_def newest_def)
next
  case (client_cannot_open env l s' r)
  note step = step_connect [OF client_cannot_open(1)]
  with client_cannot_open(2,3) show ?case by (auto simp: order_link_def newest_def)
next
  case (client_receives l xs g st ys resp rest s' env)
  from client_receives(1,5) obtain old where old: "lk_opened l = st # old"
    by (fastforce simp: order_link_def newest_def)
  let ?in = "lk_in l @ [(st, resp)]"
  have rest: "map (\<lambda>st'. on_stream st' ?in) (rev old) = map (\<lambda>st'. on_stream st' (lk_in l)) (rev old)"
    using old client_receives(5) by (auto simp: order_link_def)
  have "map snd ?in = concat (map (\<lambda>st'. on_stream st' ?in) (rev (lk_opened l)))"
    unfolding old rev.simps map_append concat_append rest
    using old client_receives(5) by (simp add: order_link_def)
  moreover have "newest st' l" if "x \<in> set (sy_cons s')" "snd x = InRecv st'" for x st'
    using that client_receives(1,3,5) by (auto simp: order_link_def split: received.splits)
  ultimately show ?case
    using old client_receives(3,5) unfolding order_link_def newest_def by simp
qed (simp_all add: order_link_def newest_def)

lemma init_order_link: "NewClient opts = Inr c \<Longrightarrow> order_link (init_link c)"
  by (auto simp: order_link_def init_link_def init_sys_def NewClient_def Let_def split: if_splits)

lemma link_reaches_lone: "link_reaches opts tr l \<Longrightarrow> lone_inv (lk_client l)"
  by (rule reaches_seq_inv(2) [OF link_client_reaches])

text \<open>Invariants of the joint state that need those of its client on the way.\<close>

lemma link_run_from:
  fixes tr tr0 :: "(('v, 'c) bridge_env \<times> 'v link_event) list"
  assumes run: "link_run l0 tr l" and reach: "link_reaches opts tr0 l0" and init: "P l0"
    and step: "\<And>(env :: ('v, 'c) bridge_env) l (tr :: (('v, 'c) bridge_env \<times> 'v link_event) list) ev l'.
      link_reaches opts tr l \<Longrightarrow> P l \<Longrightarrow> link_step env l ev l' \<Longrightarrow> P l'"
  shows "P l"
  using run reach init
proof (induction rule: link_run.induct)
  case (link_snoc l tr l' env ev l'')
  from link_snoc.prems(1) link_snoc.hyps(1) have "link_reaches opts (tr0 @ tr) l'"
    by (rule link_reaches_append)
  with link_snoc step show ?case by blast
qed

lemma link_reaches_order:
  assumes "link_reaches opts tr l"
  shows "order_link l"
proof -
  obtain c where c: "NewClient opts = Inr c" "link_run (init_link c) tr l"
    using assms by (rule link_reachesE)
  have start: "link_reaches opts [] (init_link c)"
    using c(1) by (simp add: link_reaches_def link_Nil)
  show ?thesis
    using c(2) start init_order_link [OF c(1)]
    by (rule link_run_from) (rule order_link_step [OF _ _ link_reaches_lone])
qed

section \<open>What the subscribers get\<close>

text \<open>What came in for the subscribers, stream by stream.\<close>

definition came :: "('v received \<Rightarrow> 'v queued list) \<Rightarrow> 'v link \<Rightarrow> 'v queued list" where
  "came pick l = concat (map (\<lambda>st. picks pick (on_stream st (lk_in l))) (rev (lk_opened l)))"

lemma picks_concat: "picks pick (concat xss) = concat (map (picks pick) xss)"
  by (induction xss) simp_all

lemma subscribers_get_in_order:
  assumes "link_reaches opts tr l"
  shows "prefix (delivered_order (lk_client l)) (came pick_deliver l)"
    and "prefix (broadcast_order (lk_client l)) (came pick_broadcast l)"
    and "\<not> ctx_done (cl_runCtx (sy_client (lk_client l))) \<Longrightarrow>
      delivered_order (lk_client l) = came pick_deliver l \<and>
      broadcast_order (lk_client l) = came pick_broadcast l"
proof -
  have "received_in pick (client_part tr) = came pick l" for pick
    using link_reaches_order [OF assms]
    by (simp add: link_reaches_received [OF assms] order_link_def came_def picks_concat comp_def)
  with reaches_seq_inv(1) [OF link_client_reaches [OF assms]]
  have seq: "seq_inv (lk_client l) (came pick_deliver l) (came pick_broadcast l)" by simp
  then show "prefix (delivered_order (lk_client l)) (came pick_deliver l)"
    "prefix (broadcast_order (lk_client l)) (came pick_broadcast l)"
    by (auto simp: seq_inv_def)
  show "delivered_order (lk_client l) = came pick_deliver l \<and>
      broadcast_order (lk_client l) = came pick_broadcast l"
    if "\<not> ctx_done (cl_runCtx (sy_client (lk_client l)))"
    using seq that by (auto simp: seq_inv_def gone_def)
qed

section \<open>What was under way is lost\<close>

text \<open>Between two connections the client has no consumer and no stream in use.\<close>

definition between_streams :: "'v sys \<Rightarrow> bool" where
  "between_streams s \<longleftrightarrow>
     (\<exists>r. sy_run s = RunConnecting r \<or> sy_run s = RunBackoff r) \<or>
     sy_run s = RunFinished \<and> sy_cons s = []"

definition past :: "nat list \<Rightarrow> 'v link \<Rightarrow> bool" where
  "past old l \<longleftrightarrow> (\<exists>new. lk_opened l = new @ old \<and> (new = [] \<longrightarrow> between_streams (lk_client l)))"

lemma between_streams_step:
  "client_step env s ev s' \<Longrightarrow> between_streams s \<Longrightarrow> lone_inv s \<Longrightarrow> wg_inv s \<Longrightarrow> ev \<noteq> EvConnect \<Longrightarrow>
     between_streams s'"
  by (induction rule: client_step.induct)
     (auto simp: between_streams_def lone_inv_def wg_inv_def client_Close_keeps run_cancel_def
      dest!: step_fields)

lemma past_step:
  "link_step env l ev l' \<Longrightarrow> past old l \<Longrightarrow> lone_inv (lk_client l) \<Longrightarrow> wg_inv (lk_client l) \<Longrightarrow> past old l'"
proof (induction rule: link_step.induct)
  case (client_moves env l ev s')
  then show ?case using between_streams_step [OF client_moves(1)] by (auto simp: past_def)
next
  case (client_receives l xs g st ys resp rest s' env)
  then show ?case by (auto simp: past_def between_streams_def lone_inv_def)
next
  case (client_cannot_open env l s' r)
  then show ?case by (auto simp: past_def between_streams_def)
qed (auto simp: past_def)

lemma past_receives_nothing:
  assumes "link_step env l ev l'" and "past old l" and "order_link l" and "lone_inv (lk_client l)"
    and "st \<in> set old"
  shows "on_stream st (lk_in l') = on_stream st (lk_in l)"
  using assms(1)
proof (cases rule: link_step_cases_recv)
  case (recv st' resp xs g ys)
  from recv(2) assms(3) obtain rest where rest: "lk_opened l = st' # rest"
    by (fastforce simp: order_link_def newest_def)
  obtain new where new: "lk_opened l = new @ old" "new = [] \<longrightarrow> between_streams (lk_client l)"
    using assms(2) by (auto simp: past_def)
  have "new \<noteq> []"
    using new(2) recv(2) assms(4) by (auto simp: between_streams_def lone_inv_def)
  with new(1) rest assms(3,5) have "st \<noteq> st'"
    by (cases new) (auto simp: order_link_def)
  with recv(3) show ?thesis by simp
qed simp

lemma link_reaches_wg: "link_reaches opts tr l \<Longrightarrow> wg_inv (lk_client l)"
  by (rule reaches_wg_inv [OF link_client_reaches])

lemma given_up_streams_silent:
  fixes tr tr' :: "(('v, 'c) bridge_env \<times> 'v link_event) list"
  assumes "link_run l tr' l'" and "link_reaches opts tr l"
    and "sy_run (lk_client l) = RunConnecting r \<or> sy_run (lk_client l) = RunBackoff r"
    and "st \<in> set (lk_opened l)"
  shows "on_stream st (lk_in l') = on_stream st (lk_in l)"
proof -
  let ?P = "\<lambda>k. past (lk_opened l) k \<and> on_stream st (lk_in k) = on_stream st (lk_in l)"
  have "?P l" using assms(3) by (auto simp: past_def between_streams_def)
  with assms(1,2) have "?P l'"
  proof (rule link_run_from [where P = ?P])
    fix env :: "('v, 'c) bridge_env" and k and tr :: "(('v, 'c) bridge_env \<times> 'v link_event) list" and ev k'
    assume k: "link_reaches opts tr k" "?P k" "link_step env k ev k'"
    from past_step [OF k(3)] past_receives_nothing [OF k(3) _ link_reaches_order [OF k(1)] _ assms(4)]
      k(2) link_reaches_lone [OF k(1)] link_reaches_wg [OF k(1)]
    show "?P k'" by simp
  qed
  then show ?thesis ..
qed

lemma link_run_out: "link_run l tr l' \<Longrightarrow> \<exists>xs. lk_out l' = lk_out l @ xs"
proof (induction rule: link_run.induct)
  case (link_snoc l tr l' env ev l'')
  with step_application [OF link_snoc.hyps(2)] show ?case by auto
qed simp

lemma in_flight_stays:
  assumes "on_stream st got' = on_stream st got"
  shows "prefix (in_flight st got sent) (in_flight st got' (sent @ xs))"
  using assms by (auto simp: in_flight_def)

text \<open>Steps of the client alone, but for opening streams and receiving, leave the rest alone.\<close>

lemma link_run_client_moves:
  "client_run s tr s' \<Longrightarrow> s = lk_client l \<Longrightarrow>
     \<forall>x \<in> set tr. snd x \<noteq> EvConnect \<and> (\<forall>resp. snd x \<noteq> EvRecv resp) \<Longrightarrow>
     link_run l (map (\<lambda>x. (fst x, LClient (snd x))) tr) (l\<lparr>lk_client := s'\<rparr>)"
proof (induction rule: client_run.induct)
  case (run_Nil s)
  then show ?case by (simp add: link_Nil)
next
  case (run_snoc s tr s' env ev s'')
  then have run: "link_run l (map (\<lambda>x. (fst x, LClient (snd x))) tr) (l\<lparr>lk_client := s'\<rparr>)" by simp
  have "link_step env (l\<lparr>lk_client := s'\<rparr>) (LClient ev) (l\<lparr>lk_client := s''\<rparr>)"
    using client_moves [of env "l\<lparr>lk_client := s'\<rparr>" ev s''] run_snoc.hyps(2) run_snoc.prems(2) by simp
  from link_run.link_snoc [OF run this] show ?case by simp
qed

lemma link_run_opened:
  "link_run l tr l' \<Longrightarrow> LClient EvConnect \<notin> snd ` set tr \<Longrightarrow> lk_opened l' = lk_opened l"
proof (induction rule: link_run.induct)
  case (link_snoc l tr l' env ev l'')
  from link_snoc.hyps(2) link_snoc.prems have "lk_opened l'' = lk_opened l'"
    by (cases rule: link_step.cases) auto
  with link_snoc show ?case by simp
qed simp

end
