(* ===== verification/Bridge_Network.thy ===== *)
theory Bridge_Network
  imports Link_Order
begin

text \<open>
  One bridge server with any number of clients, and the life of the server: \<open>Serve\<close> opens it for
  streams, \<open>Close\<close> stops it gracefully. Each client with its streams is a joint state of
  \<open>Bridge_Link\<close>; the handler goroutines run side by side and share nothing but the application.
\<close>

section \<open>The network\<close>

text \<open>
  How far \<open>Close\<close> has come: not called, inside \<open>GracefulStop\<close>, or returned. \<open>GracefulStop\<close> is
  documented to stop the server from accepting connections and calls, and to block until all pending
  calls are finished.
\<close>

datatype close_pc = NotClosed | Stopping | Stopped

record 'v network =
  nw_server :: server
  nw_close :: close_pc
  nw_links :: "nat \<Rightarrow> 'v link"

definition init_network :: "server \<Rightarrow> (nat \<Rightarrow> 'v client) \<Rightarrow> 'v network" where
  "init_network srv c =
     \<lparr>nw_server = srv, nw_close = NotClosed, nw_links = (\<lambda>i. init_link (c i))\<rparr>"

definition accepting :: "'v network \<Rightarrow> bool" where
  "accepting n \<longleftrightarrow> sv_running (nw_server n) \<and> nw_close n \<noteq> Stopping"

definition all_ended :: "'v network \<Rightarrow> bool" where
  "all_ended n \<longleftrightarrow>
     (\<forall>i. \<forall>st \<in> set (lk_opened (nw_links n i)). \<exists>e. lk_pc (nw_links n i) st = Ended e)"

datatype 'v net_event =
    NServe
  | NCloseCall
  | NCloseReturn
  | NClient nat "'v link_event"
  | NRefused nat nat go_error

text \<open>
  A server is served once. \<open>Close\<close> runs its body once; a second caller waits for the first. A stream
  a client opens while the server does not accept any is one whose handler never runs.
\<close>

inductive net_step ::
  "('v, 'c) bridge_env \<Rightarrow> 'v network \<Rightarrow> 'v net_event \<Rightarrow> 'v network \<Rightarrow> bool" where
  serve:
    "\<not> sv_grpcServer (nw_server n) \<Longrightarrow>
     server_Serve Listen (be_LoadX509KeyPair env) (Some (h :: ('v, unit) handler)) (nw_server n) = (srv, r) \<Longrightarrow>
     net_step env n NServe (n\<lparr>nw_server := srv\<rparr>)"
| close_unserved:
    "\<not> sv_stopOnce (nw_server n) \<Longrightarrow> \<not> sv_grpcServer (nw_server n) \<Longrightarrow>
     net_step env n NCloseCall
       (n\<lparr>nw_server := fst (server_Close (nw_server n)), nw_close := Stopped\<rparr>)"
| close_begins:
    "\<not> sv_stopOnce (nw_server n) \<Longrightarrow> sv_grpcServer (nw_server n) \<Longrightarrow> nw_close n = NotClosed \<Longrightarrow>
     net_step env n NCloseCall (n\<lparr>nw_close := Stopping\<rparr>)"
| close_returns:
    "nw_close n = Stopping \<Longrightarrow> all_ended n \<Longrightarrow>
     net_step env n NCloseReturn
       (n\<lparr>nw_server := fst (server_Close (nw_server n)), nw_close := Stopped\<rparr>)"
| close_again:
    "sv_stopOnce (nw_server n) \<Longrightarrow>
     net_step env n NCloseCall (n\<lparr>nw_server := fst (server_Close (nw_server n))\<rparr>)"
| link_moves:
    "link_step env (nw_links n i) ev l' \<Longrightarrow>
     lk_opened l' = lk_opened (nw_links n i) \<or> accepting n \<Longrightarrow>
     net_step env n (NClient i ev) (n\<lparr>nw_links := (nw_links n)(i := l')\<rparr>)"
| stream_refused:
    "link_step env (nw_links n i) (LClient EvConnect) l' \<Longrightarrow>
     lk_opened l' = st # lk_opened (nw_links n i) \<Longrightarrow> \<not> accepting n \<Longrightarrow>
     net_step env n (NRefused i st e)
       (n\<lparr>nw_links := (nw_links n)(i := l'\<lparr>lk_pc := (lk_pc l')(st := Ended e)\<rparr>)\<rparr>)"

inductive net_run ::
  "'v network \<Rightarrow> (('v, 'c) bridge_env \<times> 'v net_event) list \<Rightarrow> 'v network \<Rightarrow> bool" where
  net_Nil: "net_run n [] n"
| net_snoc: "net_run n tr n' \<Longrightarrow> net_step env n' ev n'' \<Longrightarrow> net_run n (tr @ [(env, ev)]) n''"

definition net_reaches ::
  "Options \<Rightarrow> (nat \<Rightarrow> Options) \<Rightarrow> (('v, 'c) bridge_env \<times> 'v net_event) list \<Rightarrow> 'v network \<Rightarrow> bool" where
  "net_reaches sopts opts tr n \<longleftrightarrow>
     (\<exists>srv c. NewServer sopts = Inr srv \<and> (\<forall>i. NewClient (opts i) = Inr (c i)) \<and>
        net_run (init_network srv c) tr n)"

section \<open>Streams nobody has opened\<close>

definition unopened :: "'v link \<Rightarrow> bool" where
  "unopened l \<longleftrightarrow>
     (\<forall>r st. sy_run (lk_client l) = RunRegistering r st \<longrightarrow> st \<in> set (lk_opened l)) \<and>
     fst ` set (lk_sent l) \<subseteq> set (lk_opened l) \<and>
     (\<forall>st. st \<notin> set (lk_opened l) \<longrightarrow> lk_pc l st = Opened)"

text \<open>The stream a frame goes out on.\<close>

definition sends_on :: "'v sys \<Rightarrow> 'v sys \<Rightarrow> bool" where
  "sends_on s s' \<longleftrightarrow>
     (\<exists>fs. cl_sent (sy_client s') = cl_sent (sy_client s) @ fs \<and>
        (\<forall>x \<in> set fs. cl_stream (sy_client s) = Some (fst x) \<or>
           (\<exists>r. sy_run s = RunRegistering r (fst x))))"

lemma sends_onI:
  "cl_sent (sy_client s') = cl_sent (sy_client s) @ fs \<Longrightarrow>
     (\<And>x. x \<in> set fs \<Longrightarrow> cl_stream (sy_client s) = Some (fst x) \<or>
        (\<exists>r. sy_run s = RunRegistering r (fst x))) \<Longrightarrow> sends_on s s'"
  by (auto simp: sends_on_def)

lemma sends_on_nothing: "cl_sent (sy_client s') = cl_sent (sy_client s) \<Longrightarrow> sends_on s s'"
  by (rule sends_onI [of _ _ "[]"]) simp_all

lemma sendHeartbeat_stream:
  "sendHeartbeat env n c = Returns c' \<Longrightarrow>
     \<exists>fs. cl_sent c' = cl_sent c @ fs \<and> (\<forall>x \<in> set fs. cl_stream c = Some (fst x))"
  by (auto simp: sendHeartbeat_def stream_Send_def split: option.splits if_splits intro: exI [of _ "[]"])

lemma sendAck_stream:
  "sendAck env ctx m b c = (c', e) \<Longrightarrow>
     \<exists>fs. cl_sent c' = cl_sent c @ fs \<and> (\<forall>x \<in> set fs. cl_stream c = Some (fst x))"
  by (auto simp: sendAck_def stream_Send_def Let_def split: option.splits if_splits intro: exI [of _ "[]"])

lemma client_delivery_Ack:
  "Delivery_Ack ctx (Some (client_delivery env q), c) = ((d, c'), err) \<Longrightarrow>
     c' = c \<or> (\<exists>ctx. c' = fst (sendAck env ctx (snd q) '''' c))"
  by (cases q)
     (auto simp: Delivery_Ack_def client_delivery_def newDelivery_def Let_def split: prod.splits if_splits;
      metis fst_conv)

lemma client_broadcast_Ack:
  "BroadcastDelivery_Ack ctx (Some (client_broadcast env q), c) = ((d, c'), err) \<Longrightarrow>
     c' = c \<or> (\<exists>ctx. c' = fst (sendAck env ctx '''' (snd q) c))"
  by (cases q)
     (auto simp: BroadcastDelivery_Ack_def client_broadcast_def newBroadcastDelivery_def Let_def
      split: prod.splits if_splits; metis fst_conv)

lemma sends_on_ack:
  assumes "c' = sy_client s \<or> (\<exists>ctx. c' = fst (sendAck env ctx m b (sy_client s)))"
    and "sy_client s' = c'"
  shows "sends_on s s'"
  using assms(1)
proof (elim disjE exE)
  fix ctx assume "c' = fst (sendAck env ctx m b (sy_client s))"
  then obtain e where "sendAck env ctx m b (sy_client s) = (c', e)" by (metis prod.collapse)
  from sendAck_stream [OF this] assms(2) show ?thesis by (auto simp: sends_on_def)
qed (simp add: assms(2) sends_on_nothing)

lemma step_sends_on: "client_step env s ev s' \<Longrightarrow> sends_on s s'"
proof (induction rule: client_step.induct)
  case (register_ok s r st env c' g)
  from connect_register_fields [OF register_ok(3)] register_ok(2) show ?case
    by (intro sends_onI [of _ _ "[(st, register_frame (cl_opts (sy_client s)))]"]) auto
next
  case (publish_send s xs p e ys env c' err)
  then obtain st fs where "cl_stream (sy_client s) = Some st"
    "c' = (sy_client s)\<lparr>cl_sent := cl_sent (sy_client s) @ fs\<rparr>" "fs = [] \<or> fs = [(st, ingress_frame p e)]"
    using publish_send_fields [OF publish_send(3)] by (metis (full_types))
  then show ?case by (intro sends_onI [of _ _ fs]) auto
next
  case (heartbeat s g env n c')
  obtain fs where "cl_sent c' = cl_sent (sy_client s) @ fs"
    "\<forall>x \<in> set fs. cl_stream (sy_client s) = Some (fst x)"
    using sendHeartbeat_stream [OF heartbeat(3)] by blast
  then show ?case by (intro sends_onI [of _ _ fs]) simp_all
next
  case (ack_deliver s xs q ys ctx env d c' err)
  from client_delivery_Ack [OF ack_deliver(3)] show ?case by (rule sends_on_ack) simp
next
  case (ack_broadcast s xs q ys ctx env d' c' err)
  from client_broadcast_Ack [OF ack_broadcast(3)] show ?case by (rule sends_on_ack) simp
next
  case (connect_ok s r env c' st)
  from connect_stream_fields [OF connect_ok(3)] show ?case by (intro sends_on_nothing) simp
next
  case (connect_fail s r env c' e)
  from connect_stream_fields [OF connect_fail(3)] show ?case by (intro sends_on_nothing) simp
next
  case (register_fail s r st env c' e)
  from connect_register_fields [OF register_fail(3)] show ?case by (intro sends_on_nothing) simp
next
  case (publish_acquire s c' ctx env p e)
  from acquireSlot_fields [OF publish_acquire(3)] show ?case by (intro sends_on_nothing) auto
next
  case (publish_ctx s c' err ctx env p e)
  from acquireSlot_fields [OF publish_ctx(3)] show ?case by (intro sends_on_nothing) auto
qed (rule sends_on_nothing, simp add: client_Start_fields client_Close_keeps run_cancel_def)+

lemma step_registering:
  "client_step env s ev s' \<Longrightarrow> ev \<noteq> EvConnect \<Longrightarrow> sy_run s' = RunRegistering r st \<Longrightarrow>
     sy_run s = RunRegistering r st"
  by (induction rule: client_step.induct) auto

lemma sent_on_opened:
  assumes "sends_on (lk_client l) s'" and "unopened l" and "order_link l"
  shows "fst ` set (cl_sent (sy_client s')) \<subseteq> set (lk_opened l)"
proof -
  obtain fs where fs: "cl_sent (sy_client s') = lk_sent l @ fs"
    "\<forall>x \<in> set fs. cl_stream (sy_client (lk_client l)) = Some (fst x) \<or>
       (\<exists>r. sy_run (lk_client l) = RunRegistering r (fst x))"
    using assms(1) by (auto simp: sends_on_def lk_sent_def)
  have "fst x \<in> set (lk_opened l)" if "x \<in> set fs" for x
  proof -
    have "newest (fst x) l \<or> (\<exists>r. sy_run (lk_client l) = RunRegistering r (fst x))"
      using fs(2) that assms(3) by (auto simp: order_link_def)
    with assms(2) show ?thesis by (auto simp: unopened_def newest_def)
  qed
  with assms(2) show ?thesis unfolding fs(1) by (auto simp: unopened_def)
qed

lemma unopened_client:
  assumes "client_step env (lk_client l) ev s'" and "ev \<noteq> EvConnect" and "unopened l" and "order_link l"
  shows "unopened (l\<lparr>lk_client := s'\<rparr>)"
proof -
  from sent_on_opened [OF step_sends_on [OF assms(1)] assms(3,4)] step_registering [OF assms(1,2)] assms(3) show ?thesis
    by (auto simp: unopened_def lk_sent_def)
qed

lemma unopened_step: "link_step env l ev l' \<Longrightarrow> unopened l \<Longrightarrow> order_link l \<Longrightarrow> wires_inv l \<Longrightarrow> unopened l'"
proof (induction rule: link_step.induct)
  case (client_moves env l ev s')
  then show ?case by (intro unopened_client)
next
  case (client_opens env l s' r st)
  from sent_on_opened [OF step_sends_on [OF client_opens(1)] client_opens(4,5)] client_opens(2,4)
  show ?case by (auto simp: unopened_def lk_sent_def)
next
  case (client_cannot_open env l s' r)
  from sent_on_opened [OF step_sends_on [OF client_cannot_open(1)] client_cannot_open(3,4)]
    client_cannot_open(2,3)
  show ?case by (auto simp: unopened_def lk_sent_def)
next
  case (client_receives l xs g st ys resp rest s' env)
  then have "unopened (l\<lparr>lk_client := s'\<rparr>)" by (intro unopened_client [OF client_receives(4)]) auto
  then show ?case by (simp add: unopened_def lk_sent_def)
next
  case (server_receives st l req rest pc' cs env)
  then have "on_stream st (lk_sent l) \<noteq> []" by (auto simp: in_flight_def)
  then have "st \<in> fst ` set (lk_sent l)" using on_stream_other by blast
  with server_receives(3) show ?case by (auto simp: unopened_def lk_sent_def)
next
  case (server_moves ev st l pc' cs env)
  then show ?case by (auto simp: unopened_def lk_sent_def)
qed (simp_all add: unopened_def lk_sent_def)

lemma link_reaches_unopened:
  assumes "link_reaches opts tr l"
  shows "unopened l"
proof -
  obtain c where c: "NewClient opts = Inr c" "link_run (init_link c) tr l"
    using assms by (rule link_reachesE)
  have start: "link_reaches opts [] (init_link c)"
    using c(1) by (simp add: link_reaches_def link_Nil)
  have "unopened (init_link c)"
    using NewClient_fields(5) [OF c(1)] by (simp add: unopened_def init_link_def init_sys_def lk_sent_def)
  with c(2) start show ?thesis
    by (rule link_run_from) (rule unopened_step [OF _ _ link_reaches_order link_reaches_wires])
qed

section \<open>Each client on its own\<close>

text \<open>What a network run is to one of its clients.\<close>

definition link_events :: "nat \<Rightarrow> 'v net_event \<Rightarrow> 'v link_event list" where
  "link_events i ev =
     (case ev of
        NClient j e \<Rightarrow> if j = i then [e] else []
      | NRefused j st e \<Rightarrow> if j = i then [LClient EvConnect, LServer st (RecvFailed e)] else []
      | _ \<Rightarrow> [])"

definition link_part ::
  "nat \<Rightarrow> (('v, 'c) bridge_env \<times> 'v net_event) list \<Rightarrow> (('v, 'c) bridge_env \<times> 'v link_event) list" where
  "link_part i tr = concat (map (\<lambda>x. map (Pair (fst x)) (link_events i (snd x))) tr)"

lemma link_part_simps [simp]:
  "link_part i [] = []"
  "link_part i (tr @ [(env, ev)]) = link_part i tr @ map (Pair env) (link_events i ev)"
  by (simp_all add: link_part_def)

lemma link_events_simps [simp]:
  "link_events i NServe = []" "link_events i NCloseCall = []" "link_events i NCloseReturn = []"
  "link_events i (NClient j e) = (if j = i then [e] else [])"
  "link_events i (NRefused j st err) =
     (if j = i then [LClient EvConnect, LServer st (RecvFailed err)] else [])"
  by (simp_all add: link_events_def)

lemma refused_is_failure:
  assumes "link_reaches opts tr l" and "link_step env l (LClient EvConnect) l'"
    and "lk_opened l' = st # lk_opened l"
  shows "link_run l [(env, LClient EvConnect), (env, LServer st (RecvFailed e))]
    (l'\<lparr>lk_pc := (lk_pc l')(st := Ended e)\<rparr>)"
proof -
  have "distinct (lk_opened l')" and fresh: "lk_pc l' = lk_pc l" "lk_calls l' = lk_calls l"
    using order_link_step [OF assms(2) link_reaches_order [OF assms(1)] link_reaches_lone [OF assms(1)]] assms(2)
    by (auto simp: order_link_def elim: link_step.cases)
  then have "lk_pc l' st = Opened"
    using link_reaches_unopened [OF assms(1)] assms(3) by (auto simp: unopened_def)
  moreover have "lk_calls l' @ map (Pair st) [] = lk_calls l'" by simp
  ultimately have "link_step env l' (LServer st (RecvFailed e)) (l'\<lparr>lk_pc := (lk_pc l')(st := Ended e)\<rparr>)"
    using server_moves [of "RecvFailed e" st l' "Ended e" "[]" env] assms(3) by simp
  with assms(2) show ?thesis using link_run_Cons link_run_one by blast
qed

lemma net_run_links:
  fixes tr :: "(('v, 'c) bridge_env \<times> 'v net_event) list"
    and tr0 :: "(('v, 'c) bridge_env \<times> 'v link_event) list"
  assumes "net_run n0 tr n" and "link_reaches opts tr0 (nw_links n0 i)"
  shows "link_run (nw_links n0 i) (link_part i tr) (nw_links n i)"
  using assms
proof (induction rule: net_run.induct)
  case (net_Nil n)
  then show ?case by (simp add: link_Nil)
next
  case (net_snoc n tr n' env ev n'')
  then have run: "link_run (nw_links n i) (link_part i tr) (nw_links n' i)" by simp
  then have reach: "link_reaches opts (tr0 @ link_part i tr) (nw_links n' i)"
    using net_snoc.prems by (intro link_reaches_append)
  from net_snoc.hyps(2) run reach show ?case
  proof (induction rule: net_step.induct)
    case (link_moves env n' j ev l')
    then show ?case by (auto intro: link_run.link_snoc)
  next
    case (stream_refused env n' j l' st e)
    show ?case
    proof (cases "j = i")
      case True
      with refused_is_failure [OF stream_refused(5) _ _, of env l' st e] stream_refused
      show ?thesis by (auto intro: link_run_append)
    qed (use stream_refused in simp)
  qed simp_all
qed

lemma net_reachesE:
  assumes "net_reaches sopts opts tr n"
  obtains srv c where "NewServer sopts = Inr srv" and "\<forall>i. NewClient (opts i) = Inr (c i)"
    and "net_run (init_network srv c) tr n"
  using assms by (auto simp: net_reaches_def)

lemma net_client_reaches:
  fixes tr :: "(('v, 'c) bridge_env \<times> 'v net_event) list"
  assumes "net_reaches sopts opts tr n"
  shows "link_reaches (opts i) (link_part i tr) (nw_links n i)"
proof -
  obtain srv c where c: "\<forall>i. NewClient (opts i) = Inr (c i)" "net_run (init_network srv c) tr n"
    using assms by (rule net_reachesE)
  have start: "link_reaches (opts i) ([] :: (('v, 'c) bridge_env \<times> 'v link_event) list) (nw_links (init_network srv c) i)"
    using c(1) by (simp add: link_reaches_def link_Nil init_network_def)
  from link_reaches_append [OF start net_run_links [OF c(2) start]] show ?thesis by simp
qed

lemma net_run_append: "net_run n2 tr2 n3 \<Longrightarrow> net_run n1 tr1 n2 \<Longrightarrow> net_run n1 (tr1 @ tr2) n3"
proof (induction rule: net_run.induct)
  case (net_snoc n tr n' env ev n'')
  then have "net_run n1 ((tr1 @ tr) @ [(env, ev)]) n''" by (blast intro: net_run.net_snoc)
  then show ?case by simp
qed simp

lemma net_reaches_append:
  "net_reaches sopts opts tr1 n \<Longrightarrow> net_run n tr2 n' \<Longrightarrow> net_reaches sopts opts (tr1 @ tr2) n'"
  by (auto simp: net_reaches_def intro: net_run_append)

section \<open>Closing the server\<close>

text \<open>A stream the handler accepted is one it has been told the end of when it has ended.\<close>

definition told_inv :: "'v stream_pc \<Rightarrow> 'v handler_call list \<Rightarrow> bool" where
  "told_inv pc calls \<longleftrightarrow>
     (case pc of
        Opened \<Rightarrow> calls = []
      | InHandler (OnRegister meta) \<Rightarrow> calls = [OnRegister meta]
      | Leaving e \<Rightarrow> calls \<noteq> [] \<and> last calls = OnClose
      | Ended e \<Rightarrow> calls = [] \<or> (\<exists>meta. calls = [OnRegister meta]) \<or> last calls = OnClose
      | _ \<Rightarrow> True)"

lemma dispatch_not_register: "dispatch req \<noteq> Some (OnRegister meta)"
  by (auto simp: dispatch_def split: option.splits StreamRequest_Payload.splits)

lemma told_inv_react:
  assumes "stream_react pc ev = Some (pc', cs)" and "told_inv pc calls"
  shows "told_inv pc' (calls @ cs)"
  using assms dispatch_not_register
  by (induction pc ev rule: stream_react.induct)
     (auto simp: told_inv_def split: option.splits handler_call.splits stream_pc.splits)

definition told :: "'v link \<Rightarrow> bool" where
  "told l \<longleftrightarrow> (\<forall>st. told_inv (lk_pc l st) (on_stream st (lk_calls l)))"

lemma told_step: "link_step env l ev l' \<Longrightarrow> told l \<Longrightarrow> told l'"
  by (induction rule: link_step.induct) (auto simp: told_def dest: told_inv_react)

lemma init_told: "told (init_link c)"
  by (simp add: told_def told_inv_def init_link_def)

lemma link_reaches_told: "link_reaches opts tr l \<Longrightarrow> told l"
  by (erule link_reachesE, erule link_run_invariant) (auto intro: init_told told_step)

text \<open>\<open>Close\<close> has returned, having closed the server that was served.\<close>

definition closed_down :: "'v network \<Rightarrow> bool" where
  "closed_down n \<longleftrightarrow>
     sv_grpcServer (nw_server n) \<and> \<not> sv_running (nw_server n) \<and> sv_stopOnce (nw_server n) \<and>
     nw_close n = Stopped \<and> all_ended n"

lemma server_Close_fields:
  "sv_grpcServer (fst (server_Close s)) = sv_grpcServer s"
  "sv_stopOnce (fst (server_Close s))"
  "sv_stopOnce s \<Longrightarrow> fst (server_Close s) = s"
  "\<not> sv_stopOnce s \<Longrightarrow> sv_grpcServer s \<Longrightarrow> \<not> sv_running (fst (server_Close s))"
  by (simp_all add: server_Close_def Let_def split: option.split)

text \<open>A stream that has ended stays so, and its handler is left alone.\<close>

definition link_ended :: "'v link \<Rightarrow> bool" where
  "link_ended l \<longleftrightarrow> (\<forall>st \<in> set (lk_opened l). \<exists>e. lk_pc l st = Ended e)"

lemma all_ended_links: "all_ended n \<longleftrightarrow> (\<forall>i. link_ended (nw_links n i))"
  by (simp add: all_ended_def link_ended_def)

lemma ended_link_step:
  "link_step env l ev l' \<Longrightarrow> link_ended l \<Longrightarrow> unopened l \<Longrightarrow> wires_inv l \<Longrightarrow>
     lk_calls l' = lk_calls l \<and> lk_pc l' = lk_pc l"
proof (induction rule: link_step.induct)
  case (server_receives st l req rest pc' cs env)
  then have "on_stream st (lk_sent l) \<noteq> []" by (auto simp: in_flight_def)
  then have "st \<in> fst ` set (lk_sent l)" using on_stream_other by blast
  with server_receives(4) have "st \<in> set (lk_opened l)" by (auto simp: unopened_def)
  with server_receives(2,3) show ?case by (auto simp: link_ended_def)
qed (auto simp: link_ended_def)

lemma ended_link_moves:
  assumes "link_step env l ev l'" and "link_ended l" and "unopened l" and "wires_inv l"
    and "lk_opened l' = lk_opened l"
  shows "link_ended l'"
  using ended_link_step [OF assms(1-4)] assms(2,5) by (simp add: link_ended_def)

lemma closed_down_step:
  assumes "net_step env n ev n'" and "net_reaches sopts opts tr n" and "closed_down n"
  shows "closed_down n' \<and> (\<forall>i. lk_calls (nw_links n' i) = lk_calls (nw_links n i))"
proof -
  have inv: "unopened (nw_links n i)" "wires_inv (nw_links n i)" "link_ended (nw_links n i)" for i
    using link_reaches_unopened [OF net_client_reaches [OF assms(2)]]
      link_reaches_wires [OF net_client_reaches [OF assms(2)]] assms(3)
    by (auto simp: closed_down_def all_ended_links)
  from assms(1,3) inv show ?thesis
  proof (induction rule: net_step.induct)
    case (link_moves env n i ev l')
    then have "lk_opened l' = lk_opened (nw_links n i)" by (auto simp: closed_down_def accepting_def)
    with ended_link_step [OF link_moves(1,6,4,5)] ended_link_moves [OF link_moves(1,6,4,5)] link_moves(3)
    show ?case by (auto simp: closed_down_def all_ended_links)
  next
    case (stream_refused env n i l' st e)
    with ended_link_step [OF stream_refused(1,7,5,6)] show ?case
      by (auto simp: closed_down_def all_ended_links link_ended_def)
  next
    case (close_again n env)
    then show ?case by (simp add: server_Close_fields)
  qed (auto simp: closed_down_def)
qed

lemma net_run_from:
  fixes tr tr0 :: "(('v, 'c) bridge_env \<times> 'v net_event) list"
  assumes run: "net_run n0 tr n" and reach: "net_reaches sopts opts tr0 n0" and init: "P n0"
    and step: "\<And>(env :: ('v, 'c) bridge_env) n (tr :: (('v, 'c) bridge_env \<times> 'v net_event) list) ev n'.
      net_reaches sopts opts tr n \<Longrightarrow> P n \<Longrightarrow> net_step env n ev n' \<Longrightarrow> P n'"
  shows "P n"
  using run reach init
proof (induction rule: net_run.induct)
  case (net_snoc n tr n' env ev n'')
  from net_snoc.prems(1) net_snoc.hyps(1) have "net_reaches sopts opts (tr0 @ tr) n'"
    by (rule net_reaches_append)
  with net_snoc step show ?case by blast
qed

text \<open>\<open>Close\<close> is in \<open>GracefulStop\<close> only with a server to stop.\<close>

definition closing_inv :: "'v network \<Rightarrow> bool" where
  "closing_inv n \<longleftrightarrow>
     (nw_close n = Stopping \<longrightarrow> sv_grpcServer (nw_server n) \<and> \<not> sv_stopOnce (nw_server n))"

lemma server_Serve_stopOnce:
  "server_Serve Listen Load h s = (s', r) \<Longrightarrow> sv_stopOnce s' = sv_stopOnce s"
  by (auto simp: server_Serve_def Let_def split: option.splits sum.splits)

lemma closing_inv_step: "net_step env n ev n' \<Longrightarrow> closing_inv n \<Longrightarrow> closing_inv n'"
  by (induction rule: net_step.induct) (auto simp: closing_inv_def server_Close_fields)

lemma net_reaches_closing:
  assumes "net_reaches sopts opts tr n"
  shows "closing_inv n"
proof -
  obtain srv c where c: "net_run (init_network srv c) tr n" using assms by (rule net_reachesE)
  then show ?thesis
  proof (induction "init_network srv c" tr n rule: net_run.induct)
    case net_Nil
    then show ?case by (simp add: closing_inv_def init_network_def)
  qed (rule closing_inv_step)
qed

lemma close_return_closes:
  assumes "net_step env n NCloseReturn n'" and "closing_inv n"
  shows "closed_down n' \<and> nw_links n' = nw_links n"
  using assms
  by (cases rule: net_step.cases [of env n NCloseReturn n'])
     (auto simp: closed_down_def closing_inv_def server_Close_fields all_ended_def)

lemma silent_after_close:
  fixes tr tr' :: "(('v, 'c) bridge_env \<times> 'v net_event) list" and env :: "('v, 'c) bridge_env"
  assumes "net_reaches sopts opts tr n" and "net_step env n NCloseReturn n1" and "net_run n1 tr' n2"
  shows "lk_calls (nw_links n2 i) = lk_calls (nw_links n i)" and "closed_down n2"
proof -
  have n1: "closed_down n1" "nw_links n1 = nw_links n"
    using close_return_closes [OF assms(2) net_reaches_closing [OF assms(1)]] by simp_all
  have reach: "net_reaches sopts opts (tr @ [(env, NCloseReturn)]) n1"
    by (rule net_reaches_append [OF assms(1)]) (use net_snoc [OF net_Nil assms(2)] in simp)
  let ?P = "\<lambda>k. closed_down k \<and> (\<forall>i. lk_calls (nw_links k i) = lk_calls (nw_links n i))"
  have "?P n1" using n1 by simp
  with assms(3) reach have "?P n2"
  proof (rule net_run_from [where P = ?P])
    fix env :: "('v, 'c) bridge_env" and k ev k' and tr :: "(('v, 'c) bridge_env \<times> 'v net_event) list"
    assume "net_reaches sopts opts tr k" "?P k" "net_step env k ev k'"
    with closed_down_step [of env k ev k' sopts opts tr] show "?P k'" by simp
  qed
  then show "lk_calls (nw_links n2 i) = lk_calls (nw_links n i)" "closed_down n2" by simp_all
qed

lemma sessions_ended_at_close:
  assumes "net_reaches sopts opts tr n" and "closed_down n"
  shows "on_stream st (lk_calls (nw_links n i)) = [] \<or>
    (\<exists>meta. on_stream st (lk_calls (nw_links n i)) = [OnRegister meta]) \<or>
    last (on_stream st (lk_calls (nw_links n i))) = OnClose"
proof (cases "st \<in> set (lk_opened (nw_links n i))")
  case True
  then obtain e where "lk_pc (nw_links n i) st = Ended e"
    using assms(2) by (auto simp: closed_down_def all_ended_def)
  with link_reaches_told [OF net_client_reaches [OF assms(1), of i]] show ?thesis
    by (auto simp: told_def told_inv_def split: stream_pc.splits dest: spec [of _ st])
next
  case False
  then have "lk_pc (nw_links n i) st = Opened"
    using link_reaches_unopened [OF net_client_reaches [OF assms(1), of i]] by (auto simp: unopened_def)
  with link_reaches_told [OF net_client_reaches [OF assms(1), of i]] show ?thesis
    by (auto simp: told_def told_inv_def split: stream_pc.splits dest: spec [of _ st])
qed

text \<open>\<open>GracefulStop\<close> ends no stream: only the client, the network or the handler does.\<close>

definition in_session :: "'v stream_pc \<Rightarrow> bool" where
  "in_session pc \<longleftrightarrow> pc = Looping \<or> (\<exists>c. pc = InHandler c)"

definition ends_session :: "'v stream_event \<Rightarrow> bool" where
  "ends_session ev \<longleftrightarrow> (\<exists>e. ev = RecvFailed e) \<or> (\<exists>e. ev = Returned (Some e))"

lemma in_session_react:
  "stream_react pc ev = Some (pc', cs) \<Longrightarrow> in_session pc \<Longrightarrow> \<not> ends_session ev \<Longrightarrow> in_session pc'"
  by (induction pc ev rule: stream_react.induct)
     (auto simp: in_session_def ends_session_def split: option.splits)

lemma in_session_link_step:
  "link_step env l ev l' \<Longrightarrow> in_session (lk_pc l st) \<Longrightarrow>
     (\<forall>sev. ev = LServer st sev \<longrightarrow> \<not> ends_session sev) \<Longrightarrow>
     set (lk_opened l) \<subseteq> set (lk_opened l') \<and> in_session (lk_pc l' st)"
  by (induction rule: link_step.induct) (auto dest: in_session_react)

lemma opens_new_stream:
  "link_step env l (LClient EvConnect) l' \<Longrightarrow> lk_opened l' = st # lk_opened l \<Longrightarrow>
     st \<notin> set (lk_opened l) \<and> lk_pc l' = lk_pc l"
  by (cases rule: link_step.cases [of env l "LClient EvConnect" l']) auto

lemma close_waits_step:
  assumes "net_step env n ev n'" and "nw_close n = Stopping" and "closing_inv n"
    and "st \<in> set (lk_opened (nw_links n i))" and "in_session (lk_pc (nw_links n i) st)"
    and "\<forall>sev. ev = NClient i (LServer st sev) \<longrightarrow> \<not> ends_session sev"
  shows "nw_close n' = Stopping \<and> st \<in> set (lk_opened (nw_links n' i)) \<and>
    in_session (lk_pc (nw_links n' i) st)"
  using assms
proof (induction rule: net_step.induct)
  case (close_returns n env)
  then have "\<exists>e. lk_pc (nw_links n i) st = Ended e" by (simp add: all_ended_def)
  with close_returns(6) show ?case by (auto simp: in_session_def)
next
  case (link_moves env n j ev l')
  then show ?case using in_session_link_step [of env "nw_links n i" ev l' st] by (cases "j = i") auto
next
  case (stream_refused env n j l' st' e)
  then show ?case using opens_new_stream [OF stream_refused(1,2)] by (cases "j = i") auto
qed (auto simp: closing_inv_def)


lemma close_returns_closed: "net_step env n NCloseReturn n' \<Longrightarrow> nw_close n' = Stopped"
  by (cases rule: net_step.cases [of env n NCloseReturn n']) auto

lemma close_waits:
  fixes tr tr' :: "(('v, 'c) bridge_env \<times> 'v net_event) list"
  assumes "net_reaches sopts opts tr n" and "nw_close n = Stopping"
    and "st \<in> set (lk_opened (nw_links n i))"
    and "lk_pc (nw_links n i) st = Looping \<or> (\<exists>c. lk_pc (nw_links n i) st = InHandler c)"
    and "net_run n tr' n'"
    and "\<forall>e. NClient i (LServer st (RecvFailed e)) \<notin> snd ` set tr'"
    and "\<forall>e. NClient i (LServer st (Returned (Some e))) \<notin> snd ` set tr'"
  shows "nw_close n' = Stopping \<and> NCloseReturn \<notin> snd ` set tr'"
proof -
  have lasts: "\<forall>x \<in> set tr'. \<forall>sev. snd x = NClient i (LServer st sev) \<longrightarrow> \<not> ends_session sev"
    using assms(6,7) by (force simp: ends_session_def)
  have begun: "in_session (lk_pc (nw_links n i) st)"
    using assms(4) by (simp add: in_session_def)
  have "nw_close n' = Stopping \<and> st \<in> set (lk_opened (nw_links n' i)) \<and>
      in_session (lk_pc (nw_links n' i) st) \<and> closing_inv n' \<and> NCloseReturn \<notin> snd ` set tr'"
    using assms(5) lasts begun assms(2,3) net_reaches_closing [OF assms(1)]
  proof (induction rule: net_run.induct)
    case (net_snoc n tr n' env ev n'')
    then have "nw_close n'' = Stopping \<and> st \<in> set (lk_opened (nw_links n'' i)) \<and>
        in_session (lk_pc (nw_links n'' i) st)"
      using close_waits_step [OF net_snoc.hyps(2), of st i] by simp
    moreover have "ev \<noteq> NCloseReturn"
      using close_returns_closed [of env n' n''] net_snoc.hyps(2) calculation by auto
    ultimately show ?case
      using closing_inv_step [OF net_snoc.hyps(2)] net_snoc by auto
  qed simp
  then show ?thesis by simp
qed

section \<open>Runs of one client in the network\<close>

lemma net_run_one: "net_step env n ev n' \<Longrightarrow> net_run n [(env, ev)] n'"
  using net_snoc [OF net_Nil, of env n ev n'] by simp

lemma net_run_link:
  "link_run l tr l' \<Longrightarrow> nw_links n i = l \<Longrightarrow> accepting n \<Longrightarrow>
     net_run n (map (\<lambda>x. (fst x, NClient i (snd x))) tr) (n\<lparr>nw_links := (nw_links n)(i := l')\<rparr>)"
proof (induction rule: link_run.induct)
  case (link_Nil l)
  then have same: "n\<lparr>nw_links := (nw_links n)(i := l)\<rparr> = n" by (cases n) auto
  show ?case unfolding same by (simp add: net_Nil)
next
  case (link_snoc l tr l' env ev l'')
  let ?n = "n\<lparr>nw_links := (nw_links n)(i := l')\<rparr>"
  have "net_step env ?n (NClient i ev) (?n\<lparr>nw_links := (nw_links ?n)(i := l'')\<rparr>)"
    by (rule link_moves) (use link_snoc.hyps(2) link_snoc.prems(2) in \<open>simp_all add: accepting_def\<close>)
  then have step: "net_step env ?n (NClient i ev) (n\<lparr>nw_links := (nw_links n)(i := l'')\<rparr>)" by simp
  from link_snoc.IH link_snoc.prems have "net_run n (map (\<lambda>x. (fst x, NClient i (snd x))) tr) ?n"
    by blast
  from net_run.net_snoc [OF this step] show ?case by (simp only: map_append list.map fst_conv snd_conv)
qed

end
