(* ===== verification/Client_Shutdown.thy ===== *)
theory Client_Shutdown
  imports Client_Runs
begin

text \<open>
  The end of a bridge client whose run context is done: the goroutines have only a bounded number
  of steps left to leave, and when none of them can take one more, the wait group is at zero. The
  steps counted are those of the run loop that follow its context, and the exits of the heartbeat
  loops and consumers; that a timer fires, or that a heartbeat is still sent, is not one of them.
\<close>

definition leaving :: "'v event \<Rightarrow> bool" where
  "leaving ev =
     (case ev of
        EvConnect \<Rightarrow> True | EvRegister \<Rightarrow> True | EvRunDone \<Rightarrow> True | EvConnLost \<Rightarrow> True
      | EvHeartbeatExit \<Rightarrow> True | EvConsumerExit \<Rightarrow> True | EvRecvErr e \<Rightarrow> True | _ \<Rightarrow> False)"

lemma leaving_simps [simp]:
  "leaving EvConnect" "leaving EvRegister" "leaving EvRunDone" "leaving EvConnLost"
  "leaving EvHeartbeatExit" "leaving EvConsumerExit" "leaving (EvRecvErr e)"
  by (simp_all add: leaving_def)

text \<open>How far the run loop is from its end. A registration brings a heartbeat loop and a consumer
  into the world, and is worth more than both.\<close>

definition run_distance :: "run_pc \<Rightarrow> nat" where
  "run_distance pc =
     (case pc of
        RunIdle \<Rightarrow> 0 | RunConnecting r \<Rightarrow> 5 | RunRegistering r st \<Rightarrow> 4 | RunBackoff r \<Rightarrow> 1
      | RunConnected \<Rightarrow> 1 | RunFinished \<Rightarrow> 0)"

definition potential :: "'v sys \<Rightarrow> nat" where
  "potential s = run_distance (sy_run s) + length (sy_hbs s) + length (sy_cons s)"

lemma leaving_decreases:
  "client_step env s ev s' \<Longrightarrow> leaving ev \<Longrightarrow> ctx_done (cl_runCtx (sy_client s)) \<Longrightarrow>
     potential s' < potential s \<and> ctx_done (cl_runCtx (sy_client s'))"
  by (induction rule: client_step.induct)
     (auto simp: potential_def run_distance_def leaving_def
       dest!: connect_stream_fields connect_register_fields)

lemma leaving_bounded:
  assumes "client_run s tr s'" and "ctx_done (cl_runCtx (sy_client s))"
    and "\<forall>x \<in> set tr. leaving (snd x)"
  shows "length tr + potential s' \<le> potential s \<and> ctx_done (cl_runCtx (sy_client s'))"
  using assms
proof (induction rule: client_run.induct)
  case (run_Nil s)
  then show ?case by simp
next
  case (run_snoc s tr s' env ev s'')
  then have "length tr + potential s' \<le> potential s" "ctx_done (cl_runCtx (sy_client s'))" by simp_all
  with leaving_decreases [OF run_snoc.hyps(2)] run_snoc.prems(2) show ?case by fastforce
qed

text \<open>A client that is not drained has such a step.\<close>

lemma connecting_moves:
  assumes "sy_panic s = None" and "sy_run s = RunConnecting r"
  shows "\<exists>s'. client_step env s EvConnect s'"
proof -
  obtain c' e where ce: "connect_stream env (sy_client s) = (c', e)" by fastforce
  show ?thesis
  proof (cases e)
    case None
    then obtain st where "cl_stream c' = Some st" using connect_stream_fields [OF ce] by auto
    with assms ce None show ?thesis by (blast intro: client_step.connect_ok)
  next
    case (Some e1)
    with assms ce show ?thesis by (blast intro: client_step.connect_fail)
  qed
qed

lemma registering_moves:
  assumes "sy_panic s = None" and "sy_run s = RunRegistering r st" and "stop_inv s"
  shows "\<exists>s'. client_step env s EvRegister s'"
proof -
  obtain c' e where ce: "connect_register env st (sy_client s) = (c', e)" by fastforce
  show ?thesis
  proof (cases e)
    case None
    then obtain g where "cl_cancel c' = Some g"
      using connect_register_fields [OF ce] assms(2,3) by (auto simp: stop_inv_def)
    with assms ce None show ?thesis by (blast intro: client_step.register_ok)
  next
    case (Some e1)
    with assms ce show ?thesis by (blast intro: client_step.register_fail)
  qed
qed

lemma run_loop_moves:
  assumes "stopping s" and "stop_inv s" and "run_count (sy_run s) \<noteq> 0"
  shows "\<exists>ev s'. leaving ev \<and> client_step env s ev s'"
proof (cases "sy_run s")
  case (RunConnecting r)
  with assms(1) connecting_moves show ?thesis unfolding stopping_def by (metis leaving_simps(1))
next
  case (RunRegistering r st)
  with assms(1,2) registering_moves show ?thesis unfolding stopping_def by (metis leaving_simps(2))
next
  case (RunBackoff r)
  with assms(1) backoff_done show ?thesis unfolding stopping_def by (metis leaving_simps(3))
next
  case RunConnected
  with assms(1) connected_done show ?thesis unfolding stopping_def by (metis leaving_simps(3))
qed (use assms(3) in \<open>simp_all add: run_count_def\<close>)

lemma heartbeat_leaves:
  assumes "stopping s" and "stop_inv s" and "sy_hbs s \<noteq> []"
  shows "\<exists>s'. client_step env s EvHeartbeatExit s'"
proof -
  obtain g gs where "sy_hbs s = [] @ g # gs" using assms(3) by (cases "sy_hbs s") auto
  moreover have "g \<notin> set (cl_liveCtxs (sy_client s))"
    using assms(1,2) by (simp add: stop_inv_def stopping_def)
  ultimately show ?thesis
    using assms(1) by (blast intro: heartbeat_exit [of s "[]"] dest: stopping_def [THEN iffD1])
qed

lemma leaves_or_drained:
  assumes "stopping s" and "stop_inv s" and "wg_inv s"
  shows "cl_wg (sy_client s) = 0 \<or> (\<exists>ev s'. leaving ev \<and> client_step env s ev s')"
proof (cases "run_count (sy_run s) = 0 \<and> sy_hbs s = []")
  case True
  with assms(3) show ?thesis by (simp add: wg_inv_def)
next
  case False
  with run_loop_moves [OF assms(1,2)] heartbeat_leaves [OF assms(1,2)] show ?thesis
    by (metis leaving_simps(5))
qed

lemma reaches_run:
  "client_reaches opts tr s \<Longrightarrow> client_run s tr' s' \<Longrightarrow> client_reaches opts (tr @ tr') s'"
  by (auto simp: client_reaches_def split: sum.splits intro: client_run_append)

end
