(* ===== verification/Bridge_Samples.thy ===== *)
theory Bridge_Samples
  imports Client_Shutdown Link_Runs
begin

text \<open>
  A configuration of the bridge client, and the states it reaches over a network that
  cooperates: in service, and with a publisher in flight.
\<close>

definition sample_options :: Options where
  "sample_options =
     \<lparr>o_Address = ''h:1'', o_Namespace = ''ns'', o_NodeID = ''n1'', o_DeliverBuffer = 2,
      o_BroadcastBuffer = 0, o_DialTimeout = 0, o_HeartbeatInterval = 0,
      o_ReconnectBackoff = 0, o_MaxReconnectBackoff = 0, o_TLSCertFile = '''',
      o_TLSKeyFile = '''', o_Insecure = True, o_Metadata = [], o_SupportedVersions = [],
      o_BridgeVersion = '''', o_EnableBackpressure = True, o_MaxInFlightDeliver = 1,
      o_GracefulShutdownTimeout = 0\<rparr>"

text \<open>The same without a back-pressure limit, and with metadata.\<close>

definition unlimited_options :: Options where
  "unlimited_options = sample_options\<lparr>o_EnableBackpressure := False\<rparr>"

definition metadata_options :: Options where
  "metadata_options = sample_options\<lparr>o_Metadata := [(''k'', ''v'')]\<rparr>"

definition sample_env :: "(unit, unit) bridge_env" where
  "sample_env = plain_env 3 5"

definition sample_message_env :: "unit TransportEnvelope" where
  "sample_message_env =
     TransportEnvelope_Reset\<lparr>env_Message := Some (Message_Reset\<lparr>msg_RequestId := ''m1''\<rparr>)\<rparr>"

definition sample_stamp :: "string \<times> pb_timestamp" where
  "sample_stamp = (''id'', \<lparr>ts_seconds = 1, ts_nanos = 0\<rparr>)"

lemma sample_env_simps [simp]:
  "cooperative sample_env opts 3 5" "grpc_rejects_done sample_env"
  by (simp_all add: sample_env_def)

lemma sample_options_fields [simp]:
  "o_Metadata sample_options = []" "o_EnableBackpressure sample_options"
  "o_MaxInFlightDeliver sample_options = 1" "o_Metadata unlimited_options = []"
  "\<not> o_EnableBackpressure unlimited_options" "o_Metadata metadata_options \<noteq> []"
  by (simp_all add: sample_options_def unlimited_options_def metadata_options_def)

lemma NewClient_samples:
  "\<exists>c :: unit client. NewClient sample_options = Inr c \<and> cl_inflight c = Some (make_chan 1) \<and>
     \<not> cl_stopOnce c"
  "\<exists>c :: unit client. NewClient unlimited_options = Inr c"
  "\<exists>c :: unit client. NewClient metadata_options = Inr c"
  by (simp_all add: NewClient_def sample_options_def unlimited_options_def metadata_options_def
      client_defaults_def Let_def)

lemma sample_service:
  "\<exists>s :: unit sys. client_reaches sample_options (startup sample_env) s \<and> in_service 5 s \<and>
     cl_sent (sy_client s) = [(5, register_frame (client_defaults sample_options))] \<and>
     cl_inflight (sy_client s) = Some (make_chan 1) \<and> sy_pubs s = []"
proof -
  obtain c :: "unit client" where
    c: "NewClient sample_options = Inr c" "cl_inflight c = Some (make_chan 1)"
    using NewClient_samples(1) by blast
  obtain s where s: "client_run (init_sys c) (startup sample_env) s" "in_service 5 s"
    "cl_sent (sy_client s) = [(5, register_frame (client_defaults sample_options))]"
    "cl_inflight (sy_client s) = cl_inflight c"
    using startup_in_service [OF c(1), of sample_env 3 5] by auto
  have r: "client_reaches sample_options (startup sample_env) s"
    using c(1) s(1) by (simp add: client_reaches_def)
  from reaches_slot_inv [OF this] s(4) c(2) have "sy_pubs s = []"
    by (simp add: slot_inv_def make_chan_def)
  with r s c(2) show ?thesis by auto
qed

lemma sample_service_open:
  "\<exists>s :: unit sys. client_reaches sample_options (startup sample_env) s \<and> in_service 5 s \<and>
     \<not> cl_stopOnce (sy_client s)"
proof -
  obtain s :: "unit sys" where s: "client_reaches sample_options (startup sample_env) s" "in_service 5 s"
    using sample_service by blast
  with startup_open show ?thesis by (metis client_reachesE)
qed

text \<open>With metadata the first attempt fails, and leaves its connection open.\<close>

lemma sample_refused:
  "\<exists>s :: unit sys. client_reaches metadata_options
       [(sample_env, EvStart Background), (sample_env, EvConnect)] s \<and>
     cl_openConns (sy_client s) = [3]"
proof -
  obtain c :: "unit client" where c: "NewClient metadata_options = Inr c"
    using NewClient_samples(3) by blast
  then have f: "\<not> cl_startOnce c" "cl_openConns c = []"
    "o_Metadata (cl_opts c) \<noteq> []" "o_Insecure (cl_opts c)"
    by (auto simp: NewClient_def Let_def client_defaults_def metadata_options_def sample_options_def)
  let ?s1 = "(init_sys c)\<lparr>sy_client := fst (client_Start Background c),
     sy_run := RunConnecting (base_backoff (cl_opts c))\<rparr>"
  have 1: "client_step sample_env (init_sys c) (EvStart Background) ?s1"
    using start_first [of "init_sys c" sample_env Background] f(1) by (simp add: init_sys_def)
  have "\<exists>c' e. connect_stream sample_env (sy_client ?s1) = (c', Some e) \<and> cl_openConns c' = [3]"
    using f ctx_done_cancelled [of Background]
    by (simp add: connect_stream_def client_creds_def sample_env_def plain_env_def client_Start_fields
        Let_def ctx_done_def)
  then obtain c' e where c': "connect_stream sample_env (sy_client ?s1) = (c', Some e)" "cl_openConns c' = [3]"
    by blast
  have 2: "client_step sample_env ?s1 EvConnect
      (?s1\<lparr>sy_client := c', sy_run := RunBackoff (base_backoff (cl_opts c))\<rparr>)"
    by (rule connect_fail) (use c'(1) in \<open>simp_all add: init_sys_def\<close>)
  show ?thesis
    using run_snoc [OF client_run_one [OF 1] 2] c c'(2)
    by (intro exI [of _ "?s1\<lparr>sy_client := c', sy_run := RunBackoff (base_backoff (cl_opts c))\<rparr>"])
       (simp add: client_reaches_def)
qed

text \<open>One more step: a publisher takes the only slot.\<close>

definition publishing :: "((unit, unit) bridge_env \<times> unit event) list" where
  "publishing =
     startup sample_env @ [(sample_env, EvPublish Background sample_stamp sample_message_env)]"

lemma sample_publishing:
  "\<exists>s :: unit sys. client_reaches sample_options publishing s \<and>
     sy_pubs s = [PubSending sample_stamp sample_message_env] \<and> sy_panic s = None \<and>
     cl_stream (sy_client s) = Some 5"
proof -
  obtain s :: "unit sys" where s: "client_reaches sample_options (startup sample_env) s"
    "in_service 5 s" "cl_inflight (sy_client s) = Some (make_chan 1)" "sy_pubs s = []"
    using sample_service by blast
  let ?c = "(sy_client s)\<lparr>cl_inflight := Some (chan_push () (make_chan 1))\<rparr>"
  let ?s = "s\<lparr>sy_client := ?c,
    sy_pubs := PubSending sample_stamp sample_message_env # sy_pubs s\<rparr>"
  have "(?c, None) \<in> set (acquireSlot Background (sy_client s))"
    using s(3) by (simp add: acquireSlot_def chan_has_room_def make_chan_def)
  then have "client_step sample_env s (EvPublish Background sample_stamp sample_message_env) ?s"
    using s(2) by (intro publish_acquire) (simp_all add: in_service_def)
  with s(1) have "client_reaches sample_options publishing ?s"
    by (auto simp: client_reaches_def publishing_def split: sum.splits intro: run_snoc)
  with s(2,4) show ?thesis by (intro exI [of _ ?s]) (simp add: in_service_def)
qed

lemma sample_published:
  "\<exists>s :: unit sys. client_reaches sample_options (publishing @ [(sample_env, EvPubSend)]) s \<and>
     (5, ingress_frame sample_stamp sample_message_env) \<in> set (cl_sent (sy_client s))"
proof -
  obtain s :: "unit sys" where s: "client_reaches sample_options publishing s"
    "sy_pubs s = [PubSending sample_stamp sample_message_env]" "sy_panic s = None"
    "cl_stream (sy_client s) = Some 5"
    using sample_publishing by blast
  let ?c = "(sy_client s)\<lparr>cl_sent := cl_sent (sy_client s) @
    [(5, ingress_frame sample_stamp sample_message_env)]\<rparr>"
  have "publish_send sample_env sample_stamp sample_message_env (sy_client s) = Returns (?c, None)"
    using s(4) by (simp add: publish_send_def stream_Send_def sample_env_def plain_env_def)
  then have "client_step sample_env s EvPubSend (s\<lparr>sy_client := ?c, sy_pubs := [] @ PubReleasing None # []\<rparr>)"
    using s(2,3) by (intro client_step.publish_send) simp_all
  from reaches_run [OF s(1) client_run_one [OF this]] show ?thesis by fastforce
qed

text \<open>Or a delivery goes all the way to a subscriber.\<close>

definition sample_response :: "unit StreamResponse" where
  "sample_response =
     \<lparr>sp_Payload = Some (StreamResponse_Deliver (Some \<lparr>dlv_Envelope = Some sample_message_env\<rparr>))\<rparr>"

definition sample_queued :: "unit queued" where
  "sample_queued = (sample_message_env, ''m1'')"

lemma receive_sample: "receive sample_response = ToDeliver sample_queued"
  unfolding sample_response_def receive_Deliver
  by (simp add: sample_queued_def sample_message_env_def getter_defs)

definition delivering :: "((unit, unit) bridge_env \<times> unit event) list" where
  "delivering =
     startup sample_env @ map (Pair sample_env) [EvRecvCall, EvRecv sample_response, EvHand, EvTake]"

lemma deliver_to_subscriber:
  assumes "in_service st s" and "chan_has_room (cl_deliverCh (sy_client s))"
    and "ch_buf (cl_deliverCh (sy_client s)) = []" and "receive resp = ToDeliver q"
  shows "\<exists>s'. client_run s (map (Pair env) [EvRecvCall, EvRecv resp, EvHand, EvTake]) s' \<and>
    sy_taken s' = (q, False) # sy_taken s"
proof -
  obtain g where g: "sy_cons s = [] @ (g, Receiving) # []" using assms(1) by (auto simp: in_service_def)
  let ?s1 = "s\<lparr>sy_cons := [] @ (g, InRecv st) # []\<rparr>"
  let ?s2 = "s\<lparr>sy_cons := [] @ (g, Handing (ToDeliver q)) # []\<rparr>"
  let ?ch = "chan_push q (cl_deliverCh (sy_client s))"
  let ?s3 = "s\<lparr>sy_client := (sy_client s)\<lparr>cl_deliverCh := ?ch\<rparr>, sy_cons := [] @ (g, Receiving) # []\<rparr>"
  let ?s4 = "?s3\<lparr>sy_client := (sy_client ?s3)\<lparr>cl_deliverCh := (cl_deliverCh (sy_client ?s3))\<lparr>ch_buf := []\<rparr>\<rparr>,
    sy_taken := (q, False) # sy_taken ?s3\<rparr>"
  have 1: "client_step env s EvRecvCall ?s1"
    using recv_call [of s "[]" g "[]" st env] assms(1) g by (simp add: in_service_def)
  have 2: "client_step env ?s1 (EvRecv resp) ?s2"
    using recv [of ?s1 "[]" g st "[]" env resp] assms(1,4) by (simp add: in_service_def)
  have 3: "client_step env ?s2 EvHand ?s3"
    using hand_deliver [of ?s2 "[]" g q "[]" env] assms(1,2) by (simp add: in_service_def)
  have 4: "client_step env ?s3 EvTake ?s4"
    by (rule take_deliver) (use assms(1,3) in \<open>simp_all add: in_service_def chan_push_def\<close>)
  show ?thesis
    using run_snoc [OF run_snoc [OF run_snoc [OF client_run_one [OF 1] 2] 3] 4]
    by (intro exI [of _ ?s4]) simp
qed

lemma sample_delivering:
  "\<exists>s :: unit sys. client_reaches sample_options delivering s \<and> sy_taken s = [(sample_queued, False)]"
proof -
  obtain s :: "unit sys" where s: "client_reaches sample_options (startup sample_env) s" "in_service 5 s"
    using sample_service by blast
  obtain c where c: "NewClient sample_options = Inr c" "client_run (init_sys c) (startup sample_env) s"
    using s(1) by (rule client_reachesE)
  note q = startup_queue [OF c]
  from deliver_to_subscriber [OF s(2) q(2,1) receive_sample, of sample_env] obtain s' where
    s': "client_run s (map (Pair sample_env) [EvRecvCall, EvRecv sample_response, EvHand, EvTake]) s'"
    "sy_taken s' = (sample_queued, False) # sy_taken s" by blast
  with reaches_run [OF s(1) s'(1)] q(3) show ?thesis
    by (intro exI [of _ s']) (simp add: delivering_def)
qed

text \<open>Cancelling its context puts a client in service on its way out.\<close>

lemma sample_cancelled:
  "\<exists>s :: unit sys. client_reaches sample_options (startup sample_env @ [(sample_env, EvCancel)]) s \<and>
     ctx_done (cl_runCtx (sy_client s)) \<and> sy_run s = RunConnected \<and> sy_panic s = None"
proof -
  obtain s :: "unit sys" where s: "client_reaches sample_options (startup sample_env) s" "in_service 5 s"
    using sample_service by blast
  have "client_step sample_env s EvCancel (s\<lparr>sy_client := run_cancel (sy_client s)\<rparr>)"
    using s(2) by (intro cancel) (simp_all add: in_service_def)
  from reaches_run [OF s(1) client_run_one [OF this]] s(2) show ?thesis
    by (intro exI [of _ "s\<lparr>sy_client := run_cancel (sy_client s)\<rparr>"])
       (simp add: in_service_def run_cancel_def)
qed

section \<open>Client and server together\<close>

definition linking :: "((unit, unit) bridge_env \<times> unit link_event) list" where
  "linking = link_startup sample_options 5 sample_env"

text \<open>The identifier the sample envelope carries is kept.\<close>

definition linked_trip :: "((unit, unit) bridge_env \<times> unit link_event) list" where
  "linked_trip = linking @ round_trip sample_env 5 sample_stamp sample_message_env ''m1''"

definition sample_ack :: Ack where
  "sample_ack = \<lparr>ak_MessageID = ''m1'', ak_BroadcastID = '''', ak_Status = '''', ak_Reason = ''''\<rparr>"

lemma sample_linked:
  "\<exists>l :: unit link. link_reaches sample_options linking l \<and> linked 5 l \<and>
     lk_calls l = [(5, OnRegister (client_meta sample_options))] \<and> sy_taken (lk_client l) = [] \<and>
     ch_buf (cl_deliverCh (sy_client (lk_client l))) = [] \<and>
     chan_has_room (cl_deliverCh (sy_client (lk_client l))) \<and>
     cl_inflight (sy_client (lk_client l)) = Some (make_chan 1) \<and> lk_opened l = [5]"
proof -
  obtain c :: "unit client" where c: "NewClient sample_options = Inr c" "cl_inflight c = Some (make_chan 1)"
    using NewClient_samples(1) by blast
  obtain l :: "unit link" where "link_reaches sample_options (link_startup sample_options 5 sample_env) l"
    "linked 5 l" "lk_calls l = [(5, OnRegister (client_meta sample_options))]"
    "client_run (init_sys c) (startup sample_env) (lk_client l)"
    "cl_inflight (sy_client (lk_client l)) = cl_inflight c" "lk_opened l = [5]"
    using link_startup_reaches [OF c(1), of sample_env 3 5] by auto
  with startup_queue [OF c(1) this(4)] c(2) show ?thesis by (auto simp: linking_def)
qed

lemma sample_normalized:
  "\<exists>e'. NormalizeEnvelope sample_stamp (Some sample_message_env) = Some e' \<and>
     Message_GetRequestId (env_Message e') = ''m1''"
  by (simp add: NormalizeEnvelope_def NormalizeMessage_def sample_message_env_def getter_defs Let_def)

lemma sample_trip:
  "\<exists>(l :: unit link) e'. link_reaches sample_options linked_trip l \<and>
     NormalizeEnvelope sample_stamp (Some sample_message_env) = Some e' \<and>
     sy_taken (lk_client l) = [((e', ''m1''), True)] \<and>
     lk_calls l = [(5, OnRegister (client_meta sample_options)), (5, OnAck sample_ack)]"
proof -
  obtain l :: "unit link" where l: "link_reaches sample_options linking l" "linked 5 l"
    "lk_calls l = [(5, OnRegister (client_meta sample_options))]" "sy_taken (lk_client l) = []"
    "ch_buf (cl_deliverCh (sy_client (lk_client l))) = []"
    "chan_has_room (cl_deliverCh (sy_client (lk_client l)))"
    using sample_linked by blast
  obtain e' where e': "NormalizeEnvelope sample_stamp (Some sample_message_env) = Some e'"
    "''m1'' = Message_GetRequestId (env_Message e')"
    using sample_normalized by metis
  have send: "be_Send sample_env 5 f = None" for f by (simp add: sample_env_def plain_env_def)
  obtain l' where "link_run l (round_trip sample_env 5 sample_stamp sample_message_env ''m1'') l'"
    "sy_taken (lk_client l') = ((e', ''m1''), True) # sy_taken (lk_client l)"
    "lk_calls l' = lk_calls l @ [(5, OnAck sample_ack)]"
    using round_trip_runs [OF l(2,6,5) e' _ send] unfolding sample_ack_def by auto
  with link_reaches_append [OF l(1)] l(3,4) e'(1) show ?thesis
    unfolding linked_trip_def by fastforce
qed

text \<open>A publisher's envelope reaches the handler.\<close>

definition linked_ingress :: "((unit, unit) bridge_env \<times> unit link_event) list" where
  "linked_ingress = linking @ map (Pair sample_env)
     [LClient (EvPublish Background sample_stamp sample_message_env), LClient EvPubSend,
      LServer 5 (Received (ingress_frame sample_stamp sample_message_env)), LServer 5 (Returned None)]"

lemma publish_sent:
  assumes "in_service 5 s" and "cl_inflight (sy_client s) = Some (make_chan 1)"
  obtains s1 s2 where "client_step sample_env s (EvPublish Background sample_stamp sample_message_env) s1"
    and "client_step sample_env s1 EvPubSend s2"
    and "cl_sent (sy_client s2) = cl_sent (sy_client s) @ [(5, ingress_frame sample_stamp sample_message_env)]"
proof -
  let ?c1 = "(sy_client s)\<lparr>cl_inflight := Some (chan_push () (make_chan 1))\<rparr>"
  let ?s1 = "s\<lparr>sy_client := ?c1, sy_pubs := PubSending sample_stamp sample_message_env # sy_pubs s\<rparr>"
  let ?c2 = "?c1\<lparr>cl_sent := cl_sent ?c1 @ [(5, ingress_frame sample_stamp sample_message_env)]\<rparr>"
  have "(?c1, None) \<in> set (acquireSlot Background (sy_client s))"
    using assms(2) by (simp add: acquireSlot_def chan_has_room_def make_chan_def)
  then have 1: "client_step sample_env s (EvPublish Background sample_stamp sample_message_env) ?s1"
    using assms(1) by (intro publish_acquire) (simp_all add: in_service_def)
  have "publish_send sample_env sample_stamp sample_message_env ?c1 = Returns (?c2, None)"
    using assms(1) by (simp add: in_service_def publish_send_def stream_Send_def sample_env_def plain_env_def)
  then have 2: "client_step sample_env ?s1 EvPubSend
      (?s1\<lparr>sy_client := ?c2, sy_pubs := [] @ PubReleasing None # sy_pubs s\<rparr>)"
    using assms(1) by (intro client_step.publish_send) (simp_all add: in_service_def)
  show thesis by (rule that [OF 1 2]) simp
qed

lemma sample_ingress:
  "\<exists>(l :: unit link) e. link_reaches sample_options linked_ingress l \<and> (5, OnIngress e) \<in> set (lk_calls l)"
proof -
  let ?f = "ingress_frame sample_stamp sample_message_env :: unit StreamRequest"
  obtain l :: "unit link" where l: "link_reaches sample_options linking l" "linked 5 l"
    "cl_inflight (sy_client (lk_client l)) = Some (make_chan 1)"
    using sample_linked by blast
  then have serv: "in_service 5 (lk_client l)" by (simp add: linked_def)
  obtain s1 s2 where s: "client_step sample_env (lk_client l) (EvPublish Background sample_stamp sample_message_env) s1"
    "client_step sample_env s1 EvPubSend s2"
    "cl_sent (sy_client s2) = cl_sent (sy_client (lk_client l)) @ [(5, ?f)]"
    by (rule publish_sent [OF serv l(3)])
  let ?l2 = "l\<lparr>lk_client := s2\<rparr>"
  have 1: "link_step sample_env l (LClient (EvPublish Background sample_stamp sample_message_env)) (l\<lparr>lk_client := s1\<rparr>)"
    by (rule client_moves [OF s(1)]) simp_all
  have 2: "link_step sample_env (l\<lparr>lk_client := s1\<rparr>) (LClient EvPubSend) ?l2"
    using client_moves [of sample_env "l\<lparr>lk_client := s1\<rparr>" EvPubSend s2] s(2) by simp
  obtain e' where "NormalizeEnvelope sample_stamp (Some sample_message_env) = Some e'"
    using sample_normalized by blast
  then have "dispatch ?f = Some (OnIngress e')"
    by (simp add: dispatch_def ingress_frame_def getter_defs)
  then have react: "stream_react (lk_pc ?l2 5) (Received ?f) = Some (InHandler (OnIngress e'), [OnIngress e'])"
    using l(2) by (simp add: linked_def)
  have frame: "on_stream 5 (lk_sent ?l2) = on_stream 5 (lk_read ?l2) @ [?f]" "5 \<in> set (lk_opened ?l2)"
    using l(2) s(3) by (simp_all add: linked_def lk_sent_def)
  obtain l' where l': "link_run ?l2 [(sample_env, LServer 5 (Received ?f)), (sample_env, LServer 5 (Returned None))] l'"
    "lk_calls l' = lk_calls ?l2 @ [(5, OnIngress e')]"
    by (rule frame_handled [OF frame react, of sample_env])
  have "link_reaches sample_options linked_ingress l'"
    using link_reaches_append [OF l(1) link_run_Cons [OF 1 link_run_Cons [OF 2 l'(1)]]]
    by (simp add: linked_ingress_def)
  with l'(2) show ?thesis by (intro exI [of _ l'] exI [of _ e']) simp
qed

lemma sample_ingress_stamped: "\<forall>x \<in> set (client_part linked_ingress). well_stamped (snd x)"
  by (simp add: linked_ingress_def linking_def link_startup_def client_part_def map_filter_simps
      well_stamped_def stamp_ok_def sample_stamp_def ts_IsZero_def Let_def)

section \<open>A handler that fails\<close>

text \<open>It keeps a log of its calls and fails on the heartbeat with nonce 2.\<close>

definition failing_handler :: "(unit, unit handler_call list) handler" where
  "failing_handler sess c log =
     (log @ [c], if c = OnHeartbeat ''2'' then Some RedisNil else None)"

definition sample_register :: RegisterFrame where
  "sample_register =
     \<lparr>reg_NodeId = o_NodeID sample_options, reg_Namespace = o_Namespace sample_options,
      reg_SupportedVersions = o_SupportedVersions sample_options,
      reg_BridgeVersion = o_BridgeVersion sample_options\<rparr>"

definition sample_calls :: "unit handler_call list" where
  "sample_calls =
     [OnRegister (register_meta sample_register), OnHeartbeat ''1'', OnHeartbeat ''2'', OnClose]"

lemma dispatch_heartbeat [simp]: "dispatch (heartbeat_frame n) = Some (OnHeartbeat n)"
  by (simp add: dispatch_def heartbeat_frame_def getter_defs)

lemma sample_stream:
  "bridgeService_Stream failing_handler (\<lambda>_ log. (log, None))
     (register_frame sample_options # [heartbeat_frame ''1'', heartbeat_frame ''2'', heartbeat_frame ''3''])
     ContextCanceled [] = (sample_calls, sample_calls, RedisNil)"
proof -
  have "StreamRequest_GetRegister (Some (register_frame sample_options :: unit StreamRequest)) =
      Some sample_register"
    by (simp add: register_frame_def sample_register_def getter_defs)
  then show ?thesis
    by (simp add: bridgeService_Stream_def failing_handler_def sample_calls_def Let_def)
qed

end
