(* ===== verification/Network_Samples.thy ===== *)
theory Network_Samples
  imports Bridge_Network Bridge_Samples
begin

text \<open>
  Concrete runs of the joint model for the witnesses: a client that loses its connection with a
  delivery under way, and a server that is served, used by a client and closed.
\<close>

section \<open>A lost connection\<close>

definition losing :: "((unit, unit) bridge_env \<times> unit link_event) list" where
  "losing = (sample_env, LDeliver 5 sample_stamp sample_message_env) #
     map (\<lambda>x. (fst x, LClient (snd x)))
       [(sample_env, EvRecvCall), (sample_env, EvRecvErr ContextCanceled), (sample_env, EvConnLost)]"

lemma sample_lost:
  "\<exists>(l :: unit link) r. link_reaches sample_options (linking @ losing) l \<and>
     sy_run (lk_client l) = RunConnecting r \<and> sy_panic (lk_client l) = None \<and>
     \<not> ctx_done (cl_runCtx (sy_client (lk_client l))) \<and> lk_opened l = [5] \<and>
     in_flight 5 (lk_in l) (lk_out l) = [deliver_response sample_stamp sample_message_env]"
proof -
  let ?resp = "deliver_response sample_stamp sample_message_env :: unit StreamResponse"
  obtain l :: "unit link" where l: "link_reaches sample_options linking l" "linked 5 l" "lk_opened l = [5]"
    using sample_linked by blast
  then obtain meta where meta: "(5, OnRegister meta) \<in> set (lk_calls l)" by (auto simp: linked_def)
  let ?l1 = "l\<lparr>lk_out := lk_out l @ [(5, ?resp)]\<rparr>"
  have 1: "link_step sample_env l (LDeliver 5 sample_stamp sample_message_env) ?l1"
    by (rule server_delivers [OF meta, where answer = None and r = None])
       (simp add: SendDeliver_def session_send_def wire_Send_def deliver_response_def)
  have "in_service 5 (lk_client ?l1)" using l(2) by (simp add: linked_def)
  from lose_connection [OF this, of sample_env ContextCanceled] obtain s' r where s':
    "client_run (lk_client ?l1)
       [(sample_env, EvRecvCall), (sample_env, EvRecvErr ContextCanceled), (sample_env, EvConnLost)] s'"
    "sy_run s' = RunConnecting r" "sy_panic s' = None" "\<not> ctx_done (cl_runCtx (sy_client s'))" by blast
  have "link_reaches sample_options (linking @ losing) (?l1\<lparr>lk_client := s'\<rparr>)"
    unfolding losing_def
    by (rule link_reaches_append [OF l(1) link_run_Cons [OF 1 link_run_client_moves [OF s'(1)]]]) auto
  with s'(2-4) l(2,3) show ?thesis
    by (intro exI [of _ "?l1\<lparr>lk_client := s'\<rparr>"] exI [of _ r]) (auto simp: linked_def in_flight_def)
qed

text \<open>The client comes back on another stream.\<close>

definition second_env :: "(unit, unit) bridge_env" where
  "second_env = plain_env 4 6"

lemma reopens:
  fixes l :: "unit link"
  assumes "link_reaches sample_options tr l" and "sy_run (lk_client l) = RunConnecting r"
    and "sy_panic (lk_client l) = None" and "\<not> ctx_done (cl_runCtx (sy_client (lk_client l)))"
    and "lk_opened l = [5]"
  shows "\<exists>l'. link_run l [(second_env, LClient EvConnect)] l' \<and> lk_opened l' = [6, 5] \<and>
    sy_taken (lk_client l') = sy_taken (lk_client l)"
proof -
  let ?s = "lk_client l"
  have opts: "cl_opts (sy_client ?s) = client_defaults sample_options"
    by (rule reaches_opts [OF link_client_reaches [OF assms(1)]])
  then have md: "o_Metadata (cl_opts (sy_client ?s)) = []" by (simp add: client_defaults_def)
  have co: "cooperative second_env (cl_opts (sy_client ?s)) 4 6" by (simp add: second_env_def)
  obtain c' where c': "connect_stream second_env (sy_client ?s) = (c', None)" "cl_stream c' = Some 6"
    using connect_stream_cooperative [OF co md assms(4)] by simp
  let ?s' = "?s\<lparr>sy_client := c', sy_run := RunRegistering r 6\<rparr>"
  have "client_step second_env ?s EvConnect ?s'"
    by (rule client_step.connect_ok [OF assms(3,2) c'])
  then have "link_step second_env l (LClient EvConnect)
      (l\<lparr>lk_client := ?s', lk_opened := 6 # lk_opened l\<rparr>)"
    by (rule client_opens) (use assms(5) in simp_all)
  from link_run_one [OF this] assms(5) show ?thesis
    by (intro exI [of _ "l\<lparr>lk_client := ?s', lk_opened := 6 # lk_opened l\<rparr>"]) simp
qed

lemma sample_lost_reopened:
  "\<exists>(l :: unit link) r l'. link_reaches sample_options (linking @ losing) l \<and>
     sy_run (lk_client l) = RunConnecting r \<and> 5 \<in> set (lk_opened l) \<and>
     in_flight 5 (lk_in l) (lk_out l) = [deliver_response sample_stamp sample_message_env] \<and>
     link_run l [(second_env, LClient EvConnect)] l' \<and> lk_opened l' = [6, 5]"
  using sample_lost reopens by (metis list.set_intros(1))

definition reconnecting :: "((unit, unit) bridge_env \<times> unit link_event) list" where
  "reconnecting = round_trip sample_env 5 sample_stamp sample_message_env ''m1'' @
     map (\<lambda>x. (fst x, LClient (snd x)))
       [(sample_env, EvRecvCall), (sample_env, EvRecvErr ContextCanceled), (sample_env, EvConnLost)] @
     [(second_env, LClient EvConnect)]"

lemma sample_reconnected:
  "\<exists>(l :: unit link) e'. link_reaches sample_options (linking @ reconnecting) l \<and>
     lk_opened l = [6, 5] \<and> sy_taken (lk_client l) = [((e', ''m1''), True)]"
proof -
  let ?trip = "round_trip sample_env 5 sample_stamp sample_message_env ''m1''"
  let ?lose = "[(sample_env, EvRecvCall), (sample_env, EvRecvErr ContextCanceled), (sample_env, EvConnLost)]"
  obtain l :: "unit link" where l: "link_reaches sample_options linking l" "linked 5 l"
    "sy_taken (lk_client l) = []" "ch_buf (cl_deliverCh (sy_client (lk_client l))) = []"
    "chan_has_room (cl_deliverCh (sy_client (lk_client l)))" "lk_opened l = [5]"
    using sample_linked by blast
  obtain e' where e': "NormalizeEnvelope sample_stamp (Some sample_message_env) = Some e'"
    "''m1'' = Message_GetRequestId (env_Message e')"
    using sample_normalized by metis
  have send: "be_Send sample_env 5 f = None" for f by (simp add: sample_env_def plain_env_def)
  obtain l1 where l1: "link_run l ?trip l1" "linked 5 l1"
    "sy_taken (lk_client l1) = ((e', ''m1''), True) # sy_taken (lk_client l)"
    using round_trip_runs [OF l(2,5,4) e' _ send] by auto
  have opened: "lk_opened l1 = [5]"
    using link_run_opened [OF l1(1)] l(6) by (simp add: round_trip_def)
  have "in_service 5 (lk_client l1)" using l1(2) by (simp add: linked_def)
  from lose_connection [OF this, of sample_env ContextCanceled] obtain s' r where s':
    "client_run (lk_client l1) ?lose s'" "sy_run s' = RunConnecting r" "sy_panic s' = None"
    "\<not> ctx_done (cl_runCtx (sy_client s'))" "sy_taken s' = sy_taken (lk_client l1)" by blast
  let ?l2 = "l1\<lparr>lk_client := s'\<rparr>"
  have lose: "link_run l1 (map (\<lambda>x. (fst x, LClient (snd x))) ?lose) ?l2"
    by (rule link_run_client_moves [OF s'(1)]) auto
  note reach = link_reaches_append [OF link_reaches_append [OF l(1) l1(1)] lose]
  obtain l3 where l3: "link_run ?l2 [(second_env, LClient EvConnect)] l3" "lk_opened l3 = [6, 5]"
    "sy_taken (lk_client l3) = sy_taken (lk_client ?l2)"
    using reopens [OF reach] s'(2-4) opened by auto
  from link_reaches_append [OF reach l3(1)] have "link_reaches sample_options (linking @ reconnecting) l3"
    unfolding reconnecting_def append_assoc .
  with l3 s'(5) l1(3) l(3) show ?thesis by (intro exI [of _ l3] exI [of _ e']) simp
qed

section \<open>A server and a client\<close>

definition in_network ::
  "((unit, unit) bridge_env \<times> unit link_event) list \<Rightarrow> ((unit, unit) bridge_env \<times> unit net_event) list" where
  "in_network tr = (sample_env, NServe) # map (\<lambda>x. (fst x, NClient 0 (snd x))) tr"

lemma sample_network:
  assumes "link_reaches sample_options tr l"
  shows "\<exists>n. net_reaches sample_options (\<lambda>_. sample_options) (in_network tr) n \<and> nw_links n 0 = l \<and>
    accepting n \<and> nw_close n = NotClosed \<and> sv_grpcServer (nw_server n) \<and>
    \<not> sv_stopOnce (nw_server n) \<and> (\<forall>i. i \<noteq> 0 \<longrightarrow> lk_opened (nw_links n i) = [])"
proof -
  obtain c where c: "NewClient sample_options = Inr c" "link_run (init_link c) tr l"
    using assms by (rule link_reachesE)
  obtain srv where srv: "NewServer sample_options = Inr srv"
    by (simp add: NewServer_def sample_options_def)
  let ?h = "(\<lambda>sess call w. (w, None)) :: (unit, unit) handler"
  let ?n0 = "init_network srv (\<lambda>_. c)"
  let ?served = "server_Serve (\<lambda>_. Inr 7) (be_LoadX509KeyPair sample_env) (Some ?h) srv"
  let ?n1 = "?n0\<lparr>nw_server := fst ?served\<rparr>"
  let ?n2 = "?n1\<lparr>nw_links := (nw_links ?n1)(0 := l)\<rparr>"
  have s: "\<not> sv_grpcServer srv" "sv_grpcServer (fst ?served)" "sv_running (fst ?served)"
    "\<not> sv_stopOnce (fst ?served)"
    using srv by (auto simp: NewServer_def server_Serve_def server_creds_def sample_options_def
        sample_env_def plain_env_def Let_def)
  have 1: "net_step sample_env ?n0 NServe ?n1"
    using s(1) by (intro serve [where r = "snd ?served"]) (simp_all add: init_network_def)
  have 2: "net_run ?n1 (map (\<lambda>x. (fst x, NClient 0 (snd x))) tr) ?n2"
    by (rule net_run_link [OF c(2)]) (use s(3) in \<open>simp_all add: accepting_def init_network_def\<close>)
  have "net_run ?n0 (in_network tr) ?n2"
    using net_run_append [OF 2 net_run_one [OF 1]] by (simp only: in_network_def append_Cons append_Nil)
  with srv c(1) have "net_reaches sample_options (\<lambda>_. sample_options) (in_network tr) ?n2"
    by (auto simp: net_reaches_def)
  with s show ?thesis
    by (intro exI [of _ ?n2]) (simp add: accepting_def init_network_def init_link_def)
qed

text \<open>\<open>Close\<close> with a session under way, and after it has ended.\<close>

definition closing :: "((unit, unit) bridge_env \<times> unit net_event) list" where
  "closing = in_network linking @ [(sample_env, NCloseCall)]"

lemma sample_closing:
  "\<exists>n :: unit network. net_reaches sample_options (\<lambda>_. sample_options) closing n \<and>
     nw_close n = Stopping \<and> linked 5 (nw_links n 0) \<and> lk_opened (nw_links n 0) = [5] \<and>
     lk_calls (nw_links n 0) = [(5, OnRegister (client_meta sample_options))] \<and>
     (\<forall>i. i \<noteq> 0 \<longrightarrow> lk_opened (nw_links n i) = [])"
proof -
  obtain l :: "unit link" where l: "link_reaches sample_options linking l" "linked 5 l"
    "lk_calls l = [(5, OnRegister (client_meta sample_options))]" "lk_opened l = [5]"
    using sample_linked by blast
  obtain n where n: "net_reaches sample_options (\<lambda>_. sample_options) (in_network linking) n"
    "nw_links n 0 = l" "nw_close n = NotClosed" "sv_grpcServer (nw_server n)"
    "\<not> sv_stopOnce (nw_server n)" "\<forall>i. i \<noteq> 0 \<longrightarrow> lk_opened (nw_links n i) = []"
    using sample_network [OF l(1)] by blast
  have "net_step sample_env n NCloseCall (n\<lparr>nw_close := Stopping\<rparr>)"
    by (rule close_begins) (use n in simp_all)
  from net_reaches_append [OF n(1) net_run_one [OF this]] n l show ?thesis
    by (intro exI [of _ "n\<lparr>nw_close := Stopping\<rparr>"]) (simp add: closing_def)
qed

definition hanging_up :: "((unit, unit) bridge_env \<times> unit net_event) list" where
  "hanging_up = [(sample_env, NClient 0 (LServer 5 (RecvFailed ContextCanceled))),
     (sample_env, NClient 0 (LServer 5 (Returned None)))]"

lemma sample_closed:
  "\<exists>(n :: unit network) n'. net_reaches sample_options (\<lambda>_. sample_options) (closing @ hanging_up) n \<and>
     net_step sample_env n NCloseReturn n' \<and> sv_stopOnce (nw_server n') \<and>
     lk_calls (nw_links n 0) = [(5, OnRegister (client_meta sample_options)), (5, OnClose)]"
proof -
  obtain n :: "unit network" where n: "net_reaches sample_options (\<lambda>_. sample_options) closing n"
    "nw_close n = Stopping" "linked 5 (nw_links n 0)" "lk_opened (nw_links n 0) = [5]"
    "lk_calls (nw_links n 0) = [(5, OnRegister (client_meta sample_options))]"
    "\<forall>i. i \<noteq> 0 \<longrightarrow> lk_opened (nw_links n i) = []"
    using sample_closing by blast
  let ?l = "nw_links n 0"
  let ?l1 = "?l\<lparr>lk_pc := (lk_pc ?l)(5 := Leaving ContextCanceled), lk_calls := lk_calls ?l @ map (Pair 5) [OnClose]\<rparr>"
  let ?l2 = "?l1\<lparr>lk_pc := (lk_pc ?l1)(5 := Ended ContextCanceled), lk_calls := lk_calls ?l1 @ map (Pair 5) []\<rparr>"
  have 1: "link_step sample_env ?l (LServer 5 (RecvFailed ContextCanceled)) ?l1"
    using n(3,4) by (intro server_moves) (simp_all add: linked_def)
  have 2: "link_step sample_env ?l1 (LServer 5 (Returned None)) ?l2"
    using n(4) by (intro server_moves) simp_all
  let ?n1 = "n\<lparr>nw_links := (nw_links n)(0 := ?l1)\<rparr>"
  let ?n2 = "?n1\<lparr>nw_links := (nw_links ?n1)(0 := ?l2)\<rparr>"
  have s1: "net_step sample_env n (NClient 0 (LServer 5 (RecvFailed ContextCanceled))) ?n1"
    by (rule link_moves [OF 1]) simp
  have s2: "net_step sample_env ?n1 (NClient 0 (LServer 5 (Returned None))) ?n2"
    by (rule link_moves) (use 2 in simp_all)
  have reach: "net_reaches sample_options (\<lambda>_. sample_options) (closing @ hanging_up) ?n2"
    using net_reaches_append [OF n(1) net_run_append [OF net_run_one [OF s2] net_run_one [OF s1]]]
    by (simp add: hanging_up_def)
  have ended: "all_ended ?n2" using n(4,6) by (auto simp: all_ended_def)
  let ?n3 = "?n2\<lparr>nw_server := fst (server_Close (nw_server ?n2)), nw_close := Stopped\<rparr>"
  have "net_step sample_env ?n2 NCloseReturn ?n3"
    using n(2) ended by (intro close_returns) simp_all
  with reach n(5) show ?thesis
    by (intro exI [of _ ?n2] exI [of _ ?n3]) (simp add: server_Close_fields)
qed

lemma sample_beat:
  fixes n :: "unit network"
  assumes "linked 5 (nw_links n 0)"
  shows "\<exists>n'. net_run n [(sample_env, NClient 0 (LHeartbeat 5 ''1''))] n'"
proof -
  let ?l = "nw_links n 0"
  obtain meta where meta: "(5, OnRegister meta) \<in> set (lk_calls ?l)"
    using assms by (auto simp: linked_def)
  have "link_step sample_env ?l (LHeartbeat 5 ''1'')
      (?l\<lparr>lk_out := lk_out ?l @ [(5, heartbeat_response ''1'')]\<rparr>)"
    by (rule server_beats [OF meta, where answer = None and r = None])
       (simp add: SendHeartbeat_def session_send_def wire_Send_def heartbeat_response_def)
  from net_run_one [OF link_moves [OF this]] show ?thesis by (rule exI) simp
qed

end
