(* ===== verification/Auth_Store.thy ===== *)
theory Auth_Store
  imports Go_Strings
begin

text \<open>
  \<open>pkg/auth/redis_store.go\<close> and the store interfaces of \<open>pkg/auth/token.go\<close> and
  \<open>pkg/auth/simple_token.go\<close>.

  An interface value is a record of its methods; a nil interface is \<open>None\<close>. The Redis client
  is an argument, the record \<open>redis_cmdable\<close>, over an abstract server state \<open>'r\<close>; every command
  also takes the instant it runs at. \<open>rc_content\<close> is not a command: it says what key holds
  what at which instant when nothing else happens, so that \<open>redis_documented\<close> can state the
  documented effect of each command. A command that reports an error may or may not have been
  run; even so SET and GETDEL only touch their own key.

  The three contracts the token code relies on are locales, each interpreted by the Redis
  implementation below.
\<close>

section \<open>Redis\<close>

record 'r redis_cmdable =
  rc_Set :: "string \<Rightarrow> string \<Rightarrow> nanos \<Rightarrow> nanos \<Rightarrow> 'r \<Rightarrow> 'r \<times> go_error option"
  rc_GetDel :: "string \<Rightarrow> nanos \<Rightarrow> 'r \<Rightarrow> 'r \<times> string go_result"
  rc_Exists :: "string \<Rightarrow> nanos \<Rightarrow> 'r \<Rightarrow> int go_result"
  rc_GetInt64 :: "string \<Rightarrow> nanos \<Rightarrow> 'r \<Rightarrow> i64 \<times> go_error option"
  rc_Incr :: "string \<Rightarrow> nanos \<Rightarrow> 'r \<Rightarrow> 'r \<times> i64 go_result"
  rc_Expire :: "string \<Rightarrow> nanos \<Rightarrow> nanos \<Rightarrow> 'r \<Rightarrow> 'r"
  rc_content :: "'r \<Rightarrow> nanos \<Rightarrow> string \<Rightarrow> string option"

text \<open>
  Documented behaviour. SET with a time to live of at least a millisecond makes the key hold
  the value until a deadline that is the time to live cut to milliseconds; GETDEL returns and
  removes; EXISTS counts; GET with \<open>Int64\<close> reads the decimal rendering back and reports a
  missing key as \<open>redis.Nil\<close> with 0; INCR counts up from a missing key's 0 and keeps the time to
  live; EXPIRE changes no value, only when the key goes.
\<close>

definition set_documented :: "'r redis_cmdable \<Rightarrow> bool" where
  "set_documented rc \<longleftrightarrow>
     (\<forall>k v ttl now r r'. rc_Set rc k v ttl now r = (r', None) \<longrightarrow> Millisecond \<le> ttl \<longrightarrow>
        (\<exists>d. now + ttl - Millisecond < d \<and> d \<le> now + ttl \<and>
          (\<forall>t \<ge> now. rc_content rc r' t k = (if t < d then Some v else None)))) \<and>
     (\<forall>k v ttl now r k' t. k' \<noteq> k \<longrightarrow>
        rc_content rc (fst (rc_Set rc k v ttl now r)) t k' = rc_content rc r t k')"

definition getdel_documented :: "'r redis_cmdable \<Rightarrow> bool" where
  "getdel_documented rc \<longleftrightarrow>
     (\<forall>k now r r' v. rc_GetDel rc k now r = (r', Inr v) \<longrightarrow>
        rc_content rc r now k = Some v \<and> (\<forall>t \<ge> now. rc_content rc r' t k = None)) \<and>
     (\<forall>k now r t. rc_content rc (fst (rc_GetDel rc k now r)) t k \<in> {None, rc_content rc r t k}) \<and>
     (\<forall>k now r k' t. k' \<noteq> k \<longrightarrow>
        rc_content rc (fst (rc_GetDel rc k now r)) t k' = rc_content rc r t k')"

definition exists_documented :: "'r redis_cmdable \<Rightarrow> bool" where
  "exists_documented rc \<longleftrightarrow>
     (\<forall>k now r n. rc_Exists rc k now r = Inr n \<longrightarrow> (0 < n \<longleftrightarrow> rc_content rc r now k \<noteq> None))"

definition get_documented :: "'r redis_cmdable \<Rightarrow> bool" where
  "get_documented rc \<longleftrightarrow>
     (\<forall>k now r v. rc_GetInt64 rc k now r = (v, None) \<longrightarrow>
        (\<exists>s. rc_content rc r now k = Some s \<and> (\<forall>n. s = string_of_int n \<longrightarrow> sint v = n))) \<and>
     (\<forall>k now r v. rc_GetInt64 rc k now r = (v, Some RedisNil) \<longrightarrow>
        v = 0 \<and> rc_content rc r now k = None) \<and>
     (\<forall>k now r v e. rc_GetInt64 rc k now r = (v, Some e) \<longrightarrow> v = 0)"

definition incr_documented :: "'r redis_cmdable \<Rightarrow> bool" where
  "incr_documented rc \<longleftrightarrow>
     (\<forall>k now r r' v. rc_Incr rc k now r = (r', Inr v) \<longrightarrow>
        (\<forall>k' t. k' \<noteq> k \<longrightarrow> rc_content rc r' t k' = rc_content rc r t k') \<and>
        (case rc_content rc r now k of
           None \<Rightarrow> sint v = 1 \<and> (\<forall>t \<ge> now. rc_content rc r' t k = Some (string_of_int 1))
         | Some s \<Rightarrow> (\<forall>n. s = string_of_int n \<longrightarrow>
             sint v = n + 1 \<and>
             (\<forall>t \<ge> now. rc_content rc r' t k =
                (if rc_content rc r t k = None then None else Some (string_of_int (n + 1)))))))"

definition expire_documented :: "'r redis_cmdable \<Rightarrow> bool" where
  "expire_documented rc \<longleftrightarrow>
     (\<forall>k ttl now r r'. rc_Expire rc k ttl now r = r' \<longrightarrow>
        (\<forall>k' t. k' \<noteq> k \<longrightarrow> rc_content rc r' t k' = rc_content rc r t k') \<and>
        (0 < ttl \<longrightarrow> rc_content rc r' now k = rc_content rc r now k) \<and>
        (\<forall>t \<ge> now. rc_content rc r' t k = None \<or> rc_content rc r' t k = rc_content rc r now k))"

text \<open>A value outlives an instant only if it was there before: contents only go with time.\<close>

definition content_lapses :: "'r redis_cmdable \<Rightarrow> bool" where
  "content_lapses rc \<longleftrightarrow>
     (\<forall>r t t' k s. t \<le> t' \<longrightarrow> rc_content rc r t' k = Some s \<longrightarrow> rc_content rc r t k = Some s)"

definition redis_documented :: "'r redis_cmdable \<Rightarrow> bool" where
  "redis_documented rc \<longleftrightarrow>
     set_documented rc \<and> getdel_documented rc \<and> exists_documented rc \<and> get_documented rc \<and>
     incr_documented rc \<and> expire_documented rc \<and> content_lapses rc"

section \<open>Interfaces\<close>

record RefreshMetadata =
  rm_UserID :: i64
  rm_Sequence :: string

record 'r RefreshTokenStore =
  rt_Save :: "string \<Rightarrow> RefreshMetadata \<Rightarrow> nanos \<Rightarrow> nanos \<Rightarrow> 'r \<Rightarrow> 'r \<times> go_error option"
  rt_Consume :: "string \<Rightarrow> nanos \<Rightarrow> 'r \<Rightarrow> 'r \<times> RefreshMetadata option go_result"

record 'r AccessTokenBlocklist =
  bl_Block :: "string \<Rightarrow> nanos \<Rightarrow> nanos \<Rightarrow> 'r \<Rightarrow> 'r \<times> go_error option"
  bl_IsBlocked :: "string \<Rightarrow> nanos \<Rightarrow> 'r \<Rightarrow> bool go_result"

record 'r SessionVersionStore =
  sv_Get :: "i64 \<Rightarrow> nanos \<Rightarrow> 'r \<Rightarrow> i64 \<times> go_error option"
  sv_Incr :: "i64 \<Rightarrow> nanos \<Rightarrow> 'r \<Rightarrow> 'r \<times> i64 go_result"

record 'r TokenVersionStore =
  tv_IncrVersion :: "i64 \<Rightarrow> nanos \<Rightarrow> 'r \<Rightarrow> 'r \<times> i64 go_result"
  tv_GetVersion :: "i64 \<Rightarrow> nanos \<Rightarrow> 'r \<Rightarrow> i64 \<times> go_error option"

text \<open>
  A refresh token can be consumed while it is stored, and once. \<open>stored\<close> is what the store
  holds at an instant; \<open>lawful\<close> says that what the store is built on behaves, \<open>storable\<close> which
  metadata it reproduces exactly.
\<close>

locale refresh_contract =
  fixes lawful :: "'h \<Rightarrow> bool"
    and storable :: "RefreshMetadata \<Rightarrow> bool"
    and iface :: "'h \<Rightarrow> 'r RefreshTokenStore"
    and stored :: "'h \<Rightarrow> 'r \<Rightarrow> nanos \<Rightarrow> string \<Rightarrow> RefreshMetadata option"
  assumes save_stored:
      "lawful h \<Longrightarrow> storable m \<Longrightarrow> rt_Save (iface h) jti m ttl now r = (r', None) \<Longrightarrow> now \<le> t \<Longrightarrow>
       t + Millisecond \<le> now + ttl \<Longrightarrow> stored h r' t jti = Some m"
    and save_expires:
      "lawful h \<Longrightarrow> rt_Save (iface h) jti m ttl now r = (r', None) \<Longrightarrow> Millisecond \<le> ttl \<Longrightarrow>
       now + ttl \<le> t \<Longrightarrow> stored h r' t jti = None"
    and consume_stored:
      "lawful h \<Longrightarrow> rt_Consume (iface h) jti now r = (r', Inr mo) \<Longrightarrow>
       mo \<noteq> None \<and> stored h r now jti = mo"
    and consume_removes:
      "lawful h \<Longrightarrow> rt_Consume (iface h) jti now r = (r', Inr mo) \<Longrightarrow> now \<le> t \<Longrightarrow>
       stored h r' t jti = None"
    and consume_shrinks:
      "lawful h \<Longrightarrow> stored h (fst (rt_Consume (iface h) jti now r)) t jti \<in> {None, stored h r t jti}"
    and consume_frame:
      "lawful h \<Longrightarrow> jti' \<noteq> jti \<Longrightarrow>
       stored h (fst (rt_Consume (iface h) jti now r)) t jti' = stored h r t jti'"
    and save_frame:
      "lawful h \<Longrightarrow> jti' \<noteq> jti \<Longrightarrow>
       stored h (fst (rt_Save (iface h) jti m ttl now r)) t jti' = stored h r t jti'"
begin

lemma consume_missing:
  assumes "lawful h" and "stored h r now jti = None"
  shows "isl (snd (rt_Consume (iface h) jti now r))"
  using consume_stored [OF assms(1)] assms(2)
  by (metis Inr_projr_iff prod.collapse)

lemma consume_once:
  assumes "lawful h" and "rt_Consume (iface h) jti now r = (r', Inr mo)" and "now \<le> t"
  shows "isl (snd (rt_Consume (iface h) jti t r'))"
  by (rule consume_missing [OF assms(1) consume_removes [OF assms]])

lemma consume_after_expiry:
  assumes "lawful h" and "rt_Save (iface h) jti m ttl now r = (r', None)" and "Millisecond \<le> ttl"
    and "now + ttl \<le> t"
  shows "isl (snd (rt_Consume (iface h) jti t r'))"
  by (rule consume_missing [OF assms(1) save_expires [OF assms]])

end

text \<open>A blocked token stays blocked for the time to live it was blocked with.\<close>

locale blocklist_contract =
  fixes lawful :: "'h \<Rightarrow> bool"
    and iface :: "'h \<Rightarrow> 'r AccessTokenBlocklist"
    and blocked :: "'h \<Rightarrow> 'r \<Rightarrow> nanos \<Rightarrow> string \<Rightarrow> bool"
  assumes block_holds:
      "lawful h \<Longrightarrow> bl_Block (iface h) jti ttl now r = (r', None) \<Longrightarrow> now \<le> t \<Longrightarrow>
       t + Millisecond \<le> now + ttl \<Longrightarrow> blocked h r' t jti"
    and block_lapses:
      "lawful h \<Longrightarrow> bl_Block (iface h) jti ttl now r = (r', None) \<Longrightarrow> Millisecond \<le> ttl \<Longrightarrow>
       now + ttl \<le> t \<Longrightarrow> \<not> blocked h r' t jti"
    and block_frame:
      "lawful h \<Longrightarrow> bl_Block (iface h) jti ttl now r = (r', None) \<Longrightarrow> Millisecond \<le> ttl \<Longrightarrow>
       jti' \<noteq> jti \<Longrightarrow> blocked h r' t jti' = blocked h r t jti'"
    and isblocked_sound:
      "lawful h \<Longrightarrow> bl_IsBlocked (iface h) jti now r = Inr b \<Longrightarrow> jti \<noteq> '''' \<Longrightarrow>
       b = blocked h r now jti"
begin

lemma blocked_not_cleared:
  assumes "lawful h" and "bl_Block (iface h) jti ttl now r = (r', None)" and "jti \<noteq> ''''"
    and "now \<le> t" and "t + Millisecond \<le> now + ttl"
  shows "bl_IsBlocked (iface h) jti t r' \<noteq> Inr False"
  using block_holds [OF assms(1,2,4,5)] isblocked_sound [OF assms(1) _ assms(3)] by blast

end

text \<open>
  Per-user version numbers. \<open>version\<close> is the number at an instant, 0 when there is none; \<open>sane\<close>
  is what the store keeps true of the server's state.
\<close>

locale version_contract =
  fixes lawful :: "'h \<Rightarrow> bool"
    and sane :: "'h \<Rightarrow> 'r \<Rightarrow> bool"
    and iface :: "'h \<Rightarrow> 'r TokenVersionStore"
    and version :: "'h \<Rightarrow> 'r \<Rightarrow> nanos \<Rightarrow> i64 \<Rightarrow> int"
  assumes get_sound:
      "lawful h \<Longrightarrow> sane h r \<Longrightarrow> tv_GetVersion (iface h) u now r = (v, None) \<Longrightarrow>
       sint v = version h r now u"
    and incr_sound:
      "lawful h \<Longrightarrow> sane h r \<Longrightarrow> tv_IncrVersion (iface h) u now r = (r', Inr v) \<Longrightarrow>
       sint v = version h r now u + 1 \<and> version h r' now u = sint v"
    and incr_sane:
      "lawful h \<Longrightarrow> sane h r \<Longrightarrow> tv_IncrVersion (iface h) u now r = (r', Inr v) \<Longrightarrow> sane h r'"
    and incr_frame:
      "lawful h \<Longrightarrow> sane h r \<Longrightarrow> tv_IncrVersion (iface h) u now r = (r', Inr v) \<Longrightarrow> u' \<noteq> u \<Longrightarrow>
       version h r' t u' = version h r t u'"
    and version_lapses:
      "lawful h \<Longrightarrow> sane h r \<Longrightarrow> now \<le> t \<Longrightarrow> version h r t u = version h r now u \<or> version h r t u = 0"
begin

text \<open>The version after an increment is never an older one again while time passes, unless the
  store forgets the user.\<close>

lemma version_after_incr:
  assumes "lawful h" and "sane h r" and "tv_IncrVersion (iface h) u now r = (r', Inr v)" and "now \<le> t"
  shows "version h r' t u = sint v \<or> version h r' t u = 0"
  using version_lapses [OF assms(1) incr_sane [OF assms(1-3)] assms(4), of u]
    incr_sound [OF assms(1-3)] by auto

lemma incr_changes_version:
  assumes "lawful h" and "sane h r" and "tv_IncrVersion (iface h) u now r = (r', Inr v)"
  shows "version h r' now u \<noteq> version h r now u"
  using incr_sound [OF assms] by simp

end

end
