(* ===== verification/Redis_Store.thy ===== *)
theory Redis_Store
  imports Auth_Store
begin

text \<open>
  The Redis implementations of \<open>pkg/auth/redis_store.go\<close>: refresh tokens as one-time keys, the
  blocklist of revoked access tokens, the session versions and the token versions. A pointer
  receiver that may be nil is an option, and each \<open>..._iface\<close> is the pointer as an interface
  value. \<open>encoding/json\<close> on the metadata is an argument, with the documented round trip for
  ASCII sequences.
\<close>

section \<open>Prefixes (config.go)\<close>

definition DefaultAccessBlocklistPrefix :: string where
  "DefaultAccessBlocklistPrefix = ''auth:access:block:''"

definition DefaultRefreshStorePrefix :: string where
  "DefaultRefreshStorePrefix = ''auth:refresh:''"

definition DefaultSessionVersionPrefix :: string where
  "DefaultSessionVersionPrefix = ''auth:session:ver:''"

definition DefaultTokenVersionPrefix :: string where
  "DefaultTokenVersionPrefix = ''auth:token:ver:''"

section \<open>Refresh tokens\<close>

record meta_codec =
  mc_Marshal :: "RefreshMetadata \<Rightarrow> string go_result"
  mc_Unmarshal :: "string \<Rightarrow> RefreshMetadata go_result"

definition storable_meta :: "RefreshMetadata \<Rightarrow> bool" where
  "storable_meta m = ascii (rm_Sequence m)"

definition codec_documented :: "meta_codec \<Rightarrow> bool" where
  "codec_documented cd \<longleftrightarrow>
     (\<forall>m s. storable_meta m \<longrightarrow> mc_Marshal cd m = Inr s \<longrightarrow> mc_Unmarshal cd s = Inr m)"

record 'r RedisRefreshStore =
  rrs_client :: "'r redis_cmdable"
  rrs_prefix :: string

definition NewRedisRefreshStore ::
  "'r redis_cmdable option \<Rightarrow> string \<Rightarrow> 'r RedisRefreshStore option" where
  "NewRedisRefreshStore client pfx =
     (case client of
        None \<Rightarrow> None
      | Some cl \<Rightarrow>
          (let pfx = (if pfx = '''' then DefaultRefreshStorePrefix else pfx)
           in Some \<lparr>rrs_client = cl, rrs_prefix = pfx\<rparr>))"

definition RedisRefreshStore_key :: "'r RedisRefreshStore \<Rightarrow> string \<Rightarrow> string" where
  "RedisRefreshStore_key s jti = rrs_prefix s @ jti"

definition RedisRefreshStore_Save ::
  "meta_codec \<Rightarrow> 'r RedisRefreshStore option \<Rightarrow> string \<Rightarrow> RefreshMetadata \<Rightarrow> nanos \<Rightarrow> nanos \<Rightarrow> 'r \<Rightarrow>
     'r \<times> go_error option" where
  "RedisRefreshStore_Save cd s jti meta ttl now r =
     (case s of
        None \<Rightarrow> (r, Some (ErrorsNew ''refresh store not configured''))
      | Some st \<Rightarrow>
          if jti = '''' then (r, Some (ErrorsNew ''refresh store not configured''))
          else
            (case mc_Marshal cd meta of
               Inl e \<Rightarrow> (r, Some e)
             | Inr data \<Rightarrow> rc_Set (rrs_client st) (RedisRefreshStore_key st jti) data ttl now r))"

definition RedisRefreshStore_Consume ::
  "meta_codec \<Rightarrow> 'r RedisRefreshStore option \<Rightarrow> string \<Rightarrow> nanos \<Rightarrow> 'r \<Rightarrow>
     'r \<times> RefreshMetadata option go_result" where
  "RedisRefreshStore_Consume cd s jti now r =
     (case s of
        None \<Rightarrow> (r, Inl (ErrorsNew ''refresh store not configured''))
      | Some st \<Rightarrow>
          if jti = '''' then (r, Inl (ErrorsNew ''refresh store not configured''))
          else
            (case rc_GetDel (rrs_client st) (RedisRefreshStore_key st jti) now r of
               (r', Inl e) \<Rightarrow>
                 (r', Inl (if e = RedisNil then ErrorsNew ''refresh token not found'' else e))
             | (r', Inr val) \<Rightarrow>
                 (case mc_Unmarshal cd val of
                    Inl e \<Rightarrow> (r', Inl e)
                  | Inr meta \<Rightarrow> (r', Inr (Some meta)))))"

definition RedisRefreshStore_iface ::
  "meta_codec \<times> 'r RedisRefreshStore option \<Rightarrow> 'r RefreshTokenStore" where
  "RedisRefreshStore_iface h =
     \<lparr>rt_Save = RedisRefreshStore_Save (fst h) (snd h),
      rt_Consume = RedisRefreshStore_Consume (fst h) (snd h)\<rparr>"

text \<open>What the store holds: the metadata that Redis keeps under the token's key.\<close>

definition refresh_stored ::
  "meta_codec \<times> 'r RedisRefreshStore option \<Rightarrow> 'r \<Rightarrow> nanos \<Rightarrow> string \<Rightarrow> RefreshMetadata option" where
  "refresh_stored h r t jti =
     (case snd h of
        None \<Rightarrow> None
      | Some st \<Rightarrow>
          (case rc_content (rrs_client st) r t (RedisRefreshStore_key st jti) of
             None \<Rightarrow> None
           | Some v \<Rightarrow> (case mc_Unmarshal (fst h) v of Inl _ \<Rightarrow> None | Inr m \<Rightarrow> Some m)))"

definition refresh_lawful :: "meta_codec \<times> 'r RedisRefreshStore option \<Rightarrow> bool" where
  "refresh_lawful h =
     (codec_documented (fst h) \<and>
      (case snd h of None \<Rightarrow> True | Some st \<Rightarrow> redis_documented (rrs_client st)))"

lemma refresh_key_inj [simp]:
  "RedisRefreshStore_key s a = RedisRefreshStore_key s b \<longleftrightarrow> a = b"
  by (simp add: RedisRefreshStore_key_def)

lemma refresh_Save_cases:
  assumes "refresh_lawful (cd, s)" and "RedisRefreshStore_Save cd s jti m ttl now r = (r', None)"
    and "Millisecond \<le> ttl"
  obtains st data d where "s = Some st" and "mc_Marshal cd m = Inr data"
    and "now + ttl - Millisecond < d" and "d \<le> now + ttl"
    and "\<And>t. now \<le> t \<Longrightarrow> rc_content (rrs_client st) r' t (RedisRefreshStore_key st jti) =
           (if t < d then Some data else None)"
proof -
  from assms(2) obtain st data where st: "s = Some st" "mc_Marshal cd m = Inr data"
    "rc_Set (rrs_client st) (RedisRefreshStore_key st jti) data ttl now r = (r', None)"
    by (auto simp: RedisRefreshStore_Save_def split: option.splits sum.splits if_splits)
  from assms(1) st(1) have "set_documented (rrs_client st)"
    by (simp add: refresh_lawful_def redis_documented_def)
  with st(3) assms(3) obtain d where "now + ttl - Millisecond < d" "d \<le> now + ttl"
    "\<forall>t \<ge> now. rc_content (rrs_client st) r' t (RedisRefreshStore_key st jti) =
       (if t < d then Some data else None)"
    unfolding set_documented_def by blast
  with st(1,2) show thesis by (intro that) auto
qed

lemma refresh_Consume_cases:
  assumes "refresh_lawful (cd, s)" and "RedisRefreshStore_Consume cd s jti now r = (r', Inr mo)"
  obtains st v m where "s = Some st" and "mc_Unmarshal cd v = Inr m" and "mo = Some m"
    and "rc_content (rrs_client st) r now (RedisRefreshStore_key st jti) = Some v"
    and "\<And>t. now \<le> t \<Longrightarrow> rc_content (rrs_client st) r' t (RedisRefreshStore_key st jti) = None"
proof -
  from assms(2) obtain st v m where st: "s = Some st" "mc_Unmarshal cd v = Inr m" "mo = Some m"
    "rc_GetDel (rrs_client st) (RedisRefreshStore_key st jti) now r = (r', Inr v)"
    by (auto simp: RedisRefreshStore_Consume_def split: option.splits sum.splits if_splits prod.splits)
  from assms(1) st(1) have "getdel_documented (rrs_client st)"
    by (simp add: refresh_lawful_def redis_documented_def)
  with st(4) have
    "rc_content (rrs_client st) r now (RedisRefreshStore_key st jti) = Some v \<and>
     (\<forall>t \<ge> now. rc_content (rrs_client st) r' t (RedisRefreshStore_key st jti) = None)"
    unfolding getdel_documented_def by blast
  with st(1-3) show thesis by (intro that) auto
qed

text \<open>Whatever they report, the two operations touch the key of their token only.\<close>

lemma refresh_stored_cong:
  "rc_content (rrs_client st) r' t (RedisRefreshStore_key st jti) =
     rc_content (rrs_client st) r t (RedisRefreshStore_key st jti) \<Longrightarrow>
   refresh_stored (cd, Some st) r' t jti = refresh_stored (cd, Some st) r t jti"
  "rc_content (rrs_client st) r' t (RedisRefreshStore_key st jti) = None \<Longrightarrow>
   refresh_stored (cd, Some st) r' t jti = None"
  by (simp_all add: refresh_stored_def)

lemma refresh_runs:
  "fst (RedisRefreshStore_Consume cd (Some st) jti now r) \<in>
     {r, fst (rc_GetDel (rrs_client st) (RedisRefreshStore_key st jti) now r)}"
  "\<exists>data. fst (RedisRefreshStore_Save cd (Some st) jti m ttl now r) \<in>
     {r, fst (rc_Set (rrs_client st) (RedisRefreshStore_key st jti) data ttl now r)}"
  by (auto simp: RedisRefreshStore_Consume_def RedisRefreshStore_Save_def
      split: sum.splits prod.splits)

lemma refresh_frames:
  assumes "refresh_lawful (cd, s)"
  shows "refresh_stored (cd, s) (fst (RedisRefreshStore_Consume cd s jti now r)) t jti \<in>
           {None, refresh_stored (cd, s) r t jti}"
    and "jti' \<noteq> jti \<Longrightarrow>
           refresh_stored (cd, s) (fst (RedisRefreshStore_Consume cd s jti now r)) t jti' =
           refresh_stored (cd, s) r t jti'"
    and "jti' \<noteq> jti \<Longrightarrow>
           refresh_stored (cd, s) (fst (RedisRefreshStore_Save cd s jti m ttl now r)) t jti' =
           refresh_stored (cd, s) r t jti'"
proof -
  have doc: "getdel_documented (rrs_client st) \<and> set_documented (rrs_client st)" if "s = Some st" for st
    using assms that by (simp add: refresh_lawful_def redis_documented_def)
  note none = RedisRefreshStore_Consume_def RedisRefreshStore_Save_def
  show "refresh_stored (cd, s) (fst (RedisRefreshStore_Consume cd s jti now r)) t jti \<in>
           {None, refresh_stored (cd, s) r t jti}"
  proof (cases s)
    case (Some st)
    have key: "rc_content (rrs_client st) (fst (rc_GetDel (rrs_client st) k now r)) t k \<in>
        {None, rc_content (rrs_client st) r t k}" for k
      using doc [OF Some] unfolding getdel_documented_def by blast
    have "refresh_stored (cd, Some st) (fst (rc_GetDel (rrs_client st)
        (RedisRefreshStore_key st jti) now r)) t jti \<in> {None, refresh_stored (cd, Some st) r t jti}"
      using key [of "RedisRefreshStore_key st jti"]
      by (elim insertE) (auto dest: refresh_stored_cong(1) [where cd = cd] refresh_stored_cong(2) [where cd = cd])
    with refresh_runs(1) [of cd st jti now r] show ?thesis
      unfolding Some by auto
  qed (simp add: none)
  assume j: "jti' \<noteq> jti"
  then have k: "RedisRefreshStore_key st jti' \<noteq> RedisRefreshStore_key st jti" for st by simp
  show "refresh_stored (cd, s) (fst (RedisRefreshStore_Consume cd s jti now r)) t jti' =
           refresh_stored (cd, s) r t jti'"
  proof (cases s)
    case (Some st)
    have "rc_content (rrs_client st) (fst (rc_GetDel (rrs_client st) (RedisRefreshStore_key st jti)
        now r)) t (RedisRefreshStore_key st jti') =
        rc_content (rrs_client st) r t (RedisRefreshStore_key st jti')"
      using doc [OF Some] k unfolding getdel_documented_def by blast
    with refresh_runs(1) [of cd st jti now r] show ?thesis
      unfolding Some by (auto intro: refresh_stored_cong)
  qed (simp add: none)
  show "refresh_stored (cd, s) (fst (RedisRefreshStore_Save cd s jti m ttl now r)) t jti' =
           refresh_stored (cd, s) r t jti'"
  proof (cases s)
    case (Some st)
    have "rc_content (rrs_client st) (fst (rc_Set (rrs_client st) (RedisRefreshStore_key st jti)
        v ttl now r)) t (RedisRefreshStore_key st jti') =
        rc_content (rrs_client st) r t (RedisRefreshStore_key st jti')" for v
      using doc [OF Some] k unfolding set_documented_def by blast
    with refresh_runs(2) [of cd st jti m ttl now r] show ?thesis
      unfolding Some by (auto intro: refresh_stored_cong)
  qed (simp add: none)
qed

interpretation redis_refresh:
  refresh_contract refresh_lawful storable_meta RedisRefreshStore_iface refresh_stored
proof unfold_locales
  fix h :: "meta_codec \<times> 'r RedisRefreshStore option" and jti m ttl now r r' t
  obtain cd s where h: "h = (cd, s)" by (cases h)
  assume a: "refresh_lawful h" "rt_Save (RedisRefreshStore_iface h) jti m ttl now r = (r', None)"
  then have b: "refresh_lawful (cd, s)" "RedisRefreshStore_Save cd s jti m ttl now r = (r', None)"
    by (simp_all add: h RedisRefreshStore_iface_def)
  show "refresh_stored h r' t jti = Some m"
    if "storable_meta m" "now \<le> t" "t + Millisecond \<le> now + ttl"
  proof -
    from that have ms: "Millisecond \<le> ttl" by simp
    have cd: "mc_Marshal cd m = Inr v \<Longrightarrow> mc_Unmarshal cd v = Inr m" for v
      using b(1) that(1) by (simp add: refresh_lawful_def codec_documented_def)
    show ?thesis
      by (rule refresh_Save_cases [OF b ms]) (use that cd in \<open>simp add: h refresh_stored_def\<close>)
  qed
  show "refresh_stored h r' t jti = None" if "Millisecond \<le> ttl" "now + ttl \<le> t"
    by (rule refresh_Save_cases [OF b that(1)]) (use that in \<open>simp add: h refresh_stored_def\<close>)
next
  fix h :: "meta_codec \<times> 'r RedisRefreshStore option" and jti mo now r r' t
  obtain cd s where h: "h = (cd, s)" by (cases h)
  assume "refresh_lawful h" "rt_Consume (RedisRefreshStore_iface h) jti now r = (r', Inr mo)"
  then have b: "refresh_lawful (cd, s)" "RedisRefreshStore_Consume cd s jti now r = (r', Inr mo)"
    by (simp_all add: h RedisRefreshStore_iface_def)
  show "mo \<noteq> None \<and> refresh_stored h r now jti = mo"
    by (rule refresh_Consume_cases [OF b]) (simp add: h refresh_stored_def)
  show "refresh_stored h r' t jti = None" if "now \<le> t"
    by (rule refresh_Consume_cases [OF b]) (use that in \<open>simp add: h refresh_stored_def\<close>)
next
  fix h :: "meta_codec \<times> 'r RedisRefreshStore option" and jti jti' m ttl now r t
  obtain cd s where h: "h = (cd, s)" by (cases h)
  assume "refresh_lawful h"
  then have b: "refresh_lawful (cd, s)" by (simp add: h)
  show "refresh_stored h (fst (rt_Consume (RedisRefreshStore_iface h) jti now r)) t jti \<in>
      {None, refresh_stored h r t jti}"
    using refresh_frames(1) [OF b] by (simp add: h RedisRefreshStore_iface_def)
  assume j: "jti' \<noteq> jti"
  show "refresh_stored h (fst (rt_Consume (RedisRefreshStore_iface h) jti now r)) t jti' =
      refresh_stored h r t jti'"
    using refresh_frames(2) [OF b j] by (simp add: h RedisRefreshStore_iface_def)
  show "refresh_stored h (fst (rt_Save (RedisRefreshStore_iface h) jti m ttl now r)) t jti' =
      refresh_stored h r t jti'"
    using refresh_frames(3) [OF b j] by (simp add: h RedisRefreshStore_iface_def)
qed

section \<open>The blocklist of access tokens\<close>

record 'r RedisAccessBlocklist =
  rab_client :: "'r redis_cmdable"
  rab_prefix :: string

definition NewRedisAccessBlocklist ::
  "'r redis_cmdable option \<Rightarrow> string \<Rightarrow> 'r RedisAccessBlocklist option" where
  "NewRedisAccessBlocklist client pfx =
     (case client of
        None \<Rightarrow> None
      | Some cl \<Rightarrow>
          (let pfx = (if pfx = '''' then DefaultAccessBlocklistPrefix else pfx)
           in Some \<lparr>rab_client = cl, rab_prefix = pfx\<rparr>))"

definition RedisAccessBlocklist_key :: "'r RedisAccessBlocklist \<Rightarrow> string \<Rightarrow> string" where
  "RedisAccessBlocklist_key b jti = rab_prefix b @ jti"

definition RedisAccessBlocklist_Block ::
  "'r RedisAccessBlocklist option \<Rightarrow> string \<Rightarrow> nanos \<Rightarrow> nanos \<Rightarrow> 'r \<Rightarrow> 'r \<times> go_error option" where
  "RedisAccessBlocklist_Block b jti ttl now r =
     (case b of
        None \<Rightarrow> (r, Some (ErrorsNew ''blocklist not configured''))
      | Some bl \<Rightarrow>
          if jti = '''' then (r, Some (ErrorsNew ''blocklist not configured''))
          else rc_Set (rab_client bl) (RedisAccessBlocklist_key bl jti) ''1'' ttl now r)"

definition RedisAccessBlocklist_IsBlocked ::
  "'r RedisAccessBlocklist option \<Rightarrow> string \<Rightarrow> nanos \<Rightarrow> 'r \<Rightarrow> bool go_result" where
  "RedisAccessBlocklist_IsBlocked b jti now r =
     (case b of
        None \<Rightarrow> Inr False
      | Some bl \<Rightarrow>
          if jti = '''' then Inr False
          else
            (case rc_Exists (rab_client bl) (RedisAccessBlocklist_key bl jti) now r of
               Inl e \<Rightarrow> Inl e
             | Inr n \<Rightarrow> Inr (0 < n)))"

definition RedisAccessBlocklist_iface ::
  "'r RedisAccessBlocklist option \<Rightarrow> 'r AccessTokenBlocklist" where
  "RedisAccessBlocklist_iface b =
     \<lparr>bl_Block = RedisAccessBlocklist_Block b, bl_IsBlocked = RedisAccessBlocklist_IsBlocked b\<rparr>"

definition token_blocked :: "'r RedisAccessBlocklist option \<Rightarrow> 'r \<Rightarrow> nanos \<Rightarrow> string \<Rightarrow> bool" where
  "token_blocked b r t jti =
     (case b of
        None \<Rightarrow> False
      | Some bl \<Rightarrow> rc_content (rab_client bl) r t (RedisAccessBlocklist_key bl jti) \<noteq> None)"

definition blocklist_lawful :: "'r RedisAccessBlocklist option \<Rightarrow> bool" where
  "blocklist_lawful b = (case b of None \<Rightarrow> True | Some bl \<Rightarrow> redis_documented (rab_client bl))"

lemma Block_cases:
  assumes "blocklist_lawful b" and "RedisAccessBlocklist_Block b jti ttl now r = (r', None)"
    and "Millisecond \<le> ttl"
  obtains bl d where "b = Some bl" and "now + ttl - Millisecond < d" and "d \<le> now + ttl"
    and "\<And>t. now \<le> t \<Longrightarrow> token_blocked b r' t jti = (t < d)"
    and "\<And>jti' t. jti' \<noteq> jti \<Longrightarrow> token_blocked b r' t jti' = token_blocked b r t jti'"
proof -
  from assms(2) obtain bl where bl: "b = Some bl"
    "rc_Set (rab_client bl) (RedisAccessBlocklist_key bl jti) ''1'' ttl now r = (r', None)"
    by (auto simp: RedisAccessBlocklist_Block_def split: option.splits if_splits)
  from assms(1) bl(1) have "set_documented (rab_client bl)"
    by (simp add: blocklist_lawful_def redis_documented_def)
  then have set: "\<And>k v ttl now r r'. rc_Set (rab_client bl) k v ttl now r = (r', None) \<Longrightarrow>
      Millisecond \<le> ttl \<Longrightarrow> \<exists>d. now + ttl - Millisecond < d \<and> d \<le> now + ttl \<and>
        (\<forall>t \<ge> now. rc_content (rab_client bl) r' t k = (if t < d then Some v else None))"
    and frame: "\<And>k v ttl now r k' t. k' \<noteq> k \<Longrightarrow>
      rc_content (rab_client bl) (fst (rc_Set (rab_client bl) k v ttl now r)) t k' =
      rc_content (rab_client bl) r t k'"
    unfolding set_documented_def by blast+
  from set [OF bl(2) assms(3)] obtain d where "now + ttl - Millisecond < d" "d \<le> now + ttl"
    "\<forall>t \<ge> now. rc_content (rab_client bl) r' t (RedisAccessBlocklist_key bl jti) =
       (if t < d then Some ''1'' else None)"
    by blast
  moreover have "\<forall>k' t. k' \<noteq> RedisAccessBlocklist_key bl jti \<longrightarrow>
       rc_content (rab_client bl) r' t k' = rc_content (rab_client bl) r t k'"
    using frame [of _ "RedisAccessBlocklist_key bl jti" "''1''" ttl now r] bl(2) by simp
  ultimately show thesis using bl(1)
    by (intro that [of bl d]) (auto simp: token_blocked_def RedisAccessBlocklist_key_def)
qed

lemma IsBlocked_sound:
  assumes "blocklist_lawful b" and "RedisAccessBlocklist_IsBlocked b jti now r = Inr x" and "jti \<noteq> ''''"
  shows "x = token_blocked b r now jti"
proof (cases b)
  case None
  with assms show ?thesis by (simp add: RedisAccessBlocklist_IsBlocked_def token_blocked_def)
next
  case (Some bl)
  with assms obtain n where n: "rc_Exists (rab_client bl) (RedisAccessBlocklist_key bl jti) now r = Inr n"
    "x = (0 < n)"
    by (auto simp: RedisAccessBlocklist_IsBlocked_def split: sum.splits)
  from assms(1) Some have "exists_documented (rab_client bl)"
    by (simp add: blocklist_lawful_def redis_documented_def)
  with n(1) have "0 < n \<longleftrightarrow> rc_content (rab_client bl) r now (RedisAccessBlocklist_key bl jti) \<noteq> None"
    unfolding exists_documented_def by blast
  with n(2) Some show ?thesis by (simp add: token_blocked_def)
qed

interpretation redis_blocklist:
  blocklist_contract blocklist_lawful RedisAccessBlocklist_iface token_blocked
proof unfold_locales
  fix b :: "'r RedisAccessBlocklist option" and jti jti' ttl now r r' t
  assume a: "blocklist_lawful b" "bl_Block (RedisAccessBlocklist_iface b) jti ttl now r = (r', None)"
  then have c: "RedisAccessBlocklist_Block b jti ttl now r = (r', None)"
    by (simp add: RedisAccessBlocklist_iface_def)
  show "token_blocked b r' t jti" if "now \<le> t" "t + Millisecond \<le> now + ttl"
  proof -
    from that have "Millisecond \<le> ttl" by simp
    then show ?thesis by (rule Block_cases [OF a(1) c]) (use that in simp)
  qed
  show "\<not> token_blocked b r' t jti" if "Millisecond \<le> ttl" "now + ttl \<le> t"
    by (rule Block_cases [OF a(1) c that(1)]) (use that in simp)
  show "token_blocked b r' t jti' = token_blocked b r t jti'" if "Millisecond \<le> ttl" "jti' \<noteq> jti"
    by (rule Block_cases [OF a(1) c that(1)]) (use that in simp)
next
  fix b :: "'r RedisAccessBlocklist option" and jti now r x
  assume "blocklist_lawful b" "bl_IsBlocked (RedisAccessBlocklist_iface b) jti now r = Inr x" "jti \<noteq> ''''"
  then show "x = token_blocked b r now jti"
    by (intro IsBlocked_sound) (simp_all add: RedisAccessBlocklist_iface_def)
qed

section \<open>Session versions\<close>

record 'r RedisSessionVersionStore =
  rsv_client :: "'r redis_cmdable"
  rsv_prefix :: string

definition NewRedisSessionVersionStore ::
  "'r redis_cmdable option \<Rightarrow> string \<Rightarrow> 'r RedisSessionVersionStore option" where
  "NewRedisSessionVersionStore client pfx =
     (case client of
        None \<Rightarrow> None
      | Some cl \<Rightarrow>
          (let pfx = (if pfx = '''' then DefaultSessionVersionPrefix else pfx)
           in Some \<lparr>rsv_client = cl, rsv_prefix = pfx\<rparr>))"

definition RedisSessionVersionStore_key :: "'r RedisSessionVersionStore \<Rightarrow> i64 \<Rightarrow> string" where
  "RedisSessionVersionStore_key s userID = rsv_prefix s @ string_of_int (sint userID)"

definition RedisSessionVersionStore_Get ::
  "'r RedisSessionVersionStore option \<Rightarrow> i64 \<Rightarrow> nanos \<Rightarrow> 'r \<Rightarrow> i64 \<times> go_error option" where
  "RedisSessionVersionStore_Get s userID now r =
     (case s of
        None \<Rightarrow> (0, Some (ErrorsNew ''session version store not configured''))
      | Some st \<Rightarrow> rc_GetInt64 (rsv_client st) (RedisSessionVersionStore_key st userID) now r)"

definition RedisSessionVersionStore_Incr ::
  "'r RedisSessionVersionStore option \<Rightarrow> i64 \<Rightarrow> nanos \<Rightarrow> 'r \<Rightarrow> 'r \<times> i64 go_result" where
  "RedisSessionVersionStore_Incr s userID now r =
     (case s of
        None \<Rightarrow> (r, Inl (ErrorsNew ''session version store not configured''))
      | Some st \<Rightarrow> rc_Incr (rsv_client st) (RedisSessionVersionStore_key st userID) now r)"

definition RedisSessionVersionStore_iface ::
  "'r RedisSessionVersionStore option \<Rightarrow> 'r SessionVersionStore" where
  "RedisSessionVersionStore_iface s =
     \<lparr>sv_Get = RedisSessionVersionStore_Get s, sv_Incr = RedisSessionVersionStore_Incr s\<rparr>"

text \<open>After a user's version was counted up, a reading that succeeds gives that version.\<close>

lemma session_Get_after_Incr:
  assumes "redis_documented (rsv_client st)"
    and "\<forall>s. rc_content (rsv_client st) r now (RedisSessionVersionStore_key st u) = Some s \<longrightarrow>
           (\<exists>n. s = string_of_int n)"
    and "RedisSessionVersionStore_Incr (Some st) u now r = (r', Inr v)"
    and "now \<le> t" and "RedisSessionVersionStore_Get (Some st) u t r' = (current, None)"
  shows "current = v"
proof -
  let ?rc = "rsv_client st" and ?k = "RedisSessionVersionStore_key st u"
  have doc: "incr_documented ?rc" "get_documented ?rc"
    using assms(1) by (simp_all add: redis_documented_def)
  have "rc_Incr ?rc ?k now r = (r', Inr v)"
    using assms(3) by (simp add: RedisSessionVersionStore_Incr_def)
  with doc(1) have incr: "case rc_content ?rc r now ?k of
        None \<Rightarrow> sint v = 1 \<and> (\<forall>t \<ge> now. rc_content ?rc r' t ?k = Some (string_of_int 1))
      | Some s \<Rightarrow> (\<forall>n. s = string_of_int n \<longrightarrow> sint v = n + 1 \<and>
          (\<forall>t \<ge> now. rc_content ?rc r' t ?k =
             (if rc_content ?rc r t ?k = None then None else Some (string_of_int (n + 1)))))"
    unfolding incr_documented_def by blast
  have "rc_GetInt64 ?rc ?k t r' = (current, None)"
    using assms(5) by (simp add: RedisSessionVersionStore_Get_def)
  with doc(2) obtain s where s: "rc_content ?rc r' t ?k = Some s"
    "\<And>n. s = string_of_int n \<Longrightarrow> sint current = n"
    unfolding get_documented_def by blast
  have "rc_content ?rc r' t ?k \<in> {None, Some (string_of_int (sint v))}"
    using incr assms(2,4) by (auto split: option.splits if_splits)
  with s have "sint current = sint v" by auto
  then show ?thesis by (rule signed_word_eqI)
qed

section \<open>Token versions\<close>

record 'r RedisTokenVersionStore =
  rtv_client :: "'r redis_cmdable"
  rtv_prefix :: string
  rtv_ttl :: nanos

definition WithTokenVersionTTL ::
  "nanos \<Rightarrow> 'r RedisTokenVersionStore \<Rightarrow> 'r RedisTokenVersionStore" where
  "WithTokenVersionTTL ttl s = s\<lparr>rtv_ttl := ttl\<rparr>"

definition NewRedisTokenVersionStore ::
  "'r redis_cmdable option \<Rightarrow> ('r RedisTokenVersionStore \<Rightarrow> 'r RedisTokenVersionStore) list \<Rightarrow>
     'r RedisTokenVersionStore option" where
  "NewRedisTokenVersionStore client opts =
     (case client of
        None \<Rightarrow> None
      | Some cl \<Rightarrow>
          (let s = \<lparr>rtv_client = cl, rtv_prefix = DefaultTokenVersionPrefix, rtv_ttl = 0\<rparr>
           in Some (foldl (\<lambda>s opt. opt s) s opts)))"

definition RedisTokenVersionStore_key :: "'r RedisTokenVersionStore \<Rightarrow> i64 \<Rightarrow> string" where
  "RedisTokenVersionStore_key s userID = rtv_prefix s @ string_of_int (sint userID)"

definition RedisTokenVersionStore_IncrVersion ::
  "'r RedisTokenVersionStore option \<Rightarrow> i64 \<Rightarrow> nanos \<Rightarrow> 'r \<Rightarrow> 'r \<times> i64 go_result" where
  "RedisTokenVersionStore_IncrVersion s userID now r =
     (case s of
        None \<Rightarrow> (r, Inl (ErrorsNew ''token version store not configured''))
      | Some st \<Rightarrow>
          (let key = RedisTokenVersionStore_key st userID
           in case rc_Incr (rtv_client st) key now r of
                (r', Inl e) \<Rightarrow> (r', Inl e)
              | (r', Inr ver) \<Rightarrow>
                  (if 0 < rtv_ttl st then rc_Expire (rtv_client st) key (rtv_ttl st) now r' else r',
                   Inr ver)))"

definition RedisTokenVersionStore_GetVersion ::
  "'r RedisTokenVersionStore option \<Rightarrow> i64 \<Rightarrow> nanos \<Rightarrow> 'r \<Rightarrow> i64 \<times> go_error option" where
  "RedisTokenVersionStore_GetVersion s userID now r =
     (case s of
        None \<Rightarrow> (0, Some (ErrorsNew ''token version store not configured''))
      | Some st \<Rightarrow>
          (case rc_GetInt64 (rtv_client st) (RedisTokenVersionStore_key st userID) now r of
             (ver, err) \<Rightarrow> if err = Some RedisNil then (0, None) else (ver, err)))"

definition RedisTokenVersionStore_iface ::
  "'r RedisTokenVersionStore option \<Rightarrow> 'r TokenVersionStore" where
  "RedisTokenVersionStore_iface s =
     \<lparr>tv_IncrVersion = RedisTokenVersionStore_IncrVersion s,
      tv_GetVersion = RedisTokenVersionStore_GetVersion s\<rparr>"

text \<open>The number Redis keeps for a user; \<open>versions_numeric\<close>: under the keys of the store there are
  only decimal numbers, which the store itself keeps true.\<close>

definition stored_version :: "'r RedisTokenVersionStore option \<Rightarrow> 'r \<Rightarrow> nanos \<Rightarrow> i64 \<Rightarrow> int" where
  "stored_version s r t u =
     (case s of
        None \<Rightarrow> 0
      | Some st \<Rightarrow>
          (case rc_content (rtv_client st) r t (RedisTokenVersionStore_key st u) of
             None \<Rightarrow> 0
           | Some v \<Rightarrow> int_of_string v))"

definition versions_numeric :: "'r RedisTokenVersionStore option \<Rightarrow> 'r \<Rightarrow> bool" where
  "versions_numeric s r =
     (case s of
        None \<Rightarrow> True
      | Some st \<Rightarrow>
          (\<forall>u t v. rc_content (rtv_client st) r t (RedisTokenVersionStore_key st u) = Some v \<longrightarrow>
             (\<exists>n. v = string_of_int n)))"

definition version_lawful :: "'r RedisTokenVersionStore option \<Rightarrow> bool" where
  "version_lawful s = (case s of None \<Rightarrow> True | Some st \<Rightarrow> redis_documented (rtv_client st))"

text \<open>Distinct users have distinct keys.\<close>

lemma version_key_inj [simp]:
  "RedisTokenVersionStore_key s u = RedisTokenVersionStore_key s w \<longleftrightarrow> u = w"
  by (auto simp: RedisTokenVersionStore_key_def intro: signed_word_eqI)

lemma redis_version_get:
  assumes "version_lawful h" and "versions_numeric h r"
    and "tv_GetVersion (RedisTokenVersionStore_iface h) u now r = (v, None)"
  shows "sint v = stored_version h r now u"
proof -
  from assms(3) obtain st where st: "h = Some st"
    by (auto simp: RedisTokenVersionStore_iface_def RedisTokenVersionStore_GetVersion_def
        split: option.splits)
  let ?k = "RedisTokenVersionStore_key st u"
  from assms(1) st have doc: "get_documented (rtv_client st)"
    by (simp add: version_lawful_def redis_documented_def)
  from assms(3) st consider
      (missing) "rc_GetInt64 (rtv_client st) ?k now r = (0, Some RedisNil)" "v = 0"
    | (found) "rc_GetInt64 (rtv_client st) ?k now r = (v, None)"
    using doc
    by (auto simp: RedisTokenVersionStore_iface_def RedisTokenVersionStore_GetVersion_def
        get_documented_def split: prod.splits if_splits)
  then show ?thesis
  proof cases
    case missing
    with doc have "rc_content (rtv_client st) r now ?k = None"
      unfolding get_documented_def by blast
    with st missing show ?thesis
      by (simp add: stored_version_def)
  next
    case found
    with doc obtain s where s: "rc_content (rtv_client st) r now ?k = Some s"
      "\<And>n. s = string_of_int n \<Longrightarrow> sint v = n"
      unfolding get_documented_def by blast
    from assms(2) st s(1) have "\<exists>n. s = string_of_int n"
      by (simp add: versions_numeric_def)
    then obtain n where "s = string_of_int n" ..
    with s st show ?thesis
      by (simp add: stored_version_def)
  qed
qed

text \<open>What an increment leaves under the user's key and under every other key.\<close>

lemma redis_version_incr_cases:
  assumes "version_lawful h" and "versions_numeric h r"
    and "tv_IncrVersion (RedisTokenVersionStore_iface h) u now r = (r', Inr v)"
  obtains st where "h = Some st"
    and "sint v = stored_version h r now u + 1"
    and "rc_content (rtv_client st) r' now (RedisTokenVersionStore_key st u) =
           Some (string_of_int (sint v))"
    and "\<And>t s. rc_content (rtv_client st) r' t (RedisTokenVersionStore_key st u) = Some s \<Longrightarrow>
           s = string_of_int (sint v)"
    and "\<And>k t. k \<noteq> RedisTokenVersionStore_key st u \<Longrightarrow>
           rc_content (rtv_client st) r' t k = rc_content (rtv_client st) r t k"
proof -
  from assms(3) obtain st where st: "h = Some st"
    by (auto simp: RedisTokenVersionStore_iface_def RedisTokenVersionStore_IncrVersion_def
        split: option.splits)
  let ?rc = "rtv_client st" and ?k = "RedisTokenVersionStore_key st u"
  from assms(1) st have doc: "incr_documented ?rc" "expire_documented ?rc" "content_lapses ?rc"
    by (simp_all add: version_lawful_def redis_documented_def)
  from assms(3) st obtain r1 where r1: "rc_Incr ?rc ?k now r = (r1, Inr v)"
    and r': "r' = (if 0 < rtv_ttl st then rc_Expire ?rc ?k (rtv_ttl st) now r1 else r1)"
    by (auto simp: RedisTokenVersionStore_iface_def RedisTokenVersionStore_IncrVersion_def Let_def
        split: prod.splits sum.splits)
  have frame1: "rc_content ?rc r1 t k = rc_content ?rc r t k" if "k \<noteq> ?k" for t k
    using doc(1) r1 that unfolding incr_documented_def by blast
  have incr: "case rc_content ?rc r now ?k of
        None \<Rightarrow> sint v = 1 \<and> (\<forall>t \<ge> now. rc_content ?rc r1 t ?k = Some (string_of_int 1))
      | Some s \<Rightarrow> (\<forall>n. s = string_of_int n \<longrightarrow> sint v = n + 1 \<and>
          (\<forall>t \<ge> now. rc_content ?rc r1 t ?k =
             (if rc_content ?rc r t ?k = None then None else Some (string_of_int (n + 1)))))"
    using doc(1) r1 unfolding incr_documented_def by blast
  have numeric: "\<exists>n. s = string_of_int n" if "rc_content ?rc r now ?k = Some s" for s
    using assms(2) st that by (auto simp: versions_numeric_def)
  have v: "sint v = stored_version h r now u + 1"
    and now1: "rc_content ?rc r1 now ?k = Some (string_of_int (sint v))"
    using incr numeric st
    by (auto simp: stored_version_def split: option.splits)
  have now': "rc_content ?rc r' now ?k = Some (string_of_int (sint v))"
    using now1 doc(2) unfolding expire_documented_def r' by simp
  have frame: "rc_content ?rc r' t k = rc_content ?rc r t k" if "k \<noteq> ?k" for t k
    using frame1 doc(2) that unfolding expire_documented_def r' by simp
  have late1: "rc_content ?rc r1 t ?k \<in> {None, Some (string_of_int (sint v))}" if "now \<le> t" for t
    using incr numeric that by (auto split: option.splits if_splits)
  have expired: "rc_content ?rc (rc_Expire ?rc ?k ttl now r1) t ?k \<in>
      {None, rc_content ?rc r1 now ?k}" if "now \<le> t" for t ttl
    using doc(2) that unfolding expire_documented_def by blast
  have late: "s = string_of_int (sint v)" if "rc_content ?rc r' t ?k = Some s" "now \<le> t" for t s
    using late1 [OF that(2)] expired [OF that(2), of "rtv_ttl st"] now1 that(1) unfolding r'
    by (simp split: if_splits)
  have early: "s = string_of_int (sint v)" if "rc_content ?rc r' t ?k = Some s" "t \<le> now" for t s
  proof -
    from doc(3) now' that(2) have "rc_content ?rc r' t ?k = Some (string_of_int (sint v))"
      unfolding content_lapses_def by blast
    with that(1) show ?thesis by simp
  qed
  have all: "s = string_of_int (sint v)" if "rc_content ?rc r' t ?k = Some s" for t s
    using late [OF that] early [OF that] by linarith
  show ?thesis
    by (rule that [OF st v now' all frame])
qed

interpretation redis_version:
  version_contract version_lawful versions_numeric RedisTokenVersionStore_iface stored_version
proof
  fix h :: "'r RedisTokenVersionStore option" and r r' :: 'r and u u' v now t
  assume law: "version_lawful h" and sane: "versions_numeric h r"
  show "sint v = stored_version h r now u"
    if "tv_GetVersion (RedisTokenVersionStore_iface h) u now r = (v, None)"
    by (rule redis_version_get [OF law sane that])
  show "stored_version h r t u = stored_version h r now u \<or> stored_version h r t u = 0"
    if "now \<le> t"
    using law that
    by (auto simp: stored_version_def version_lawful_def redis_documented_def content_lapses_def
        split: option.splits)
  assume inc: "tv_IncrVersion (RedisTokenVersionStore_iface h) u now r = (r', Inr v)"
  obtain st where st: "h = Some st" "sint v = stored_version h r now u + 1"
    "rc_content (rtv_client st) r' now (RedisTokenVersionStore_key st u) =
       Some (string_of_int (sint v))"
    "\<And>t s. rc_content (rtv_client st) r' t (RedisTokenVersionStore_key st u) = Some s \<Longrightarrow>
       s = string_of_int (sint v)"
    "\<And>k t. k \<noteq> RedisTokenVersionStore_key st u \<Longrightarrow>
       rc_content (rtv_client st) r' t k = rc_content (rtv_client st) r t k"
    by (rule redis_version_incr_cases [OF law sane inc]) blast
  show "sint v = stored_version h r now u + 1 \<and> stored_version h r' now u = sint v"
    using st(1,2,3) by (simp add: stored_version_def)
  show "versions_numeric h r'"
    using sane st(1,4,5) unfolding versions_numeric_def
    by (auto, metis version_key_inj)
  show "stored_version h r' t u' = stored_version h r t u'" if "u' \<noteq> u"
    using st(1) st(5) [of "RedisTokenVersionStore_key st u'"] that
    by (simp add: stored_version_def)
qed

end
