(* ===== verification/Go_Time.thy ===== *)
theory Go_Time
  imports Complex_Main Go_Prelude
begin

text \<open>
  Durations and instants of Go's \<open>time\<close> package, as far as the code computes with them: the
  saturating difference behind \<open>time.Until\<close>, and \<open>int64(d.Seconds())\<close>, which goes through a
  64-bit float. Floats are rationals with the rounding of IEEE 754 written out; the values here
  are 0 or at least a nanosecond, so no subnormal occurs.
\<close>

section \<open>Differences of instants\<close>

abbreviation (input) MaxDuration :: nanos where
  "MaxDuration \<equiv> 9223372036854775807"

definition time_Until :: "nanos \<Rightarrow> nanos \<Rightarrow> nanos" where
  "time_Until t now = min MaxDuration (max (- MaxDuration - 1) (t - now))"

lemma time_Until_pos: "0 < time_Until t now \<longleftrightarrow> now < t"
  by (auto simp: time_Until_def less_max_iff_disj)

lemma time_Until_le: "now \<le> t \<Longrightarrow> now + time_Until t now \<le> t"
  by (simp add: time_Until_def)

lemma time_Until_exact: "now \<le> t \<Longrightarrow> t - now \<le> MaxDuration \<Longrightarrow> time_Until t now = t - now"
  by (simp add: time_Until_def)

section \<open>Seconds of a duration\<close>

text \<open>The unit in the last place of a float near \<open>x\<close>: the least power of two from \<open>u\<close> on, such that
  53 bits of it reach beyond \<open>x\<close>.\<close>

fun f64_ulp :: "nat \<Rightarrow> rat \<Rightarrow> rat \<Rightarrow> rat" where
  "f64_ulp 0 x u = u"
| "f64_ulp (Suc n) x u = (if x < 2 ^ 53 * u then u else f64_ulp n x (2 * u))"

definition round_half_even :: "rat \<Rightarrow> int" where
  "round_half_even q =
     (let f = \<lfloor>q\<rfloor>; d = q - of_int f
      in if d < 1 / 2 then f else if 1 / 2 < d then f + 1 else if even f then f else f + 1)"

definition f64_round :: "rat \<Rightarrow> rat" where
  "f64_round x = (let u = f64_ulp 120 x (1 / 2 ^ 82) in of_int (round_half_even (x / u)) * u)"

text \<open>\<open>Duration.Seconds\<close> adds the whole seconds and the rest as floats. Only durations that are not
  negative are converted.\<close>

definition Duration_Seconds :: "nanos \<Rightarrow> rat" where
  "Duration_Seconds d =
     f64_round (of_int (d div Second) + f64_round (of_int (d mod Second) / 1000000000))"

definition int64_Seconds :: "nanos \<Rightarrow> int" where
  "int64_Seconds d = \<lfloor>Duration_Seconds d\<rfloor>"

lemma f64_ulp_power: "x < 2 ^ 53 \<Longrightarrow> \<exists>k. f64_ulp n x (1 / 2 ^ j) = 1 / 2 ^ k"
proof (induction n arbitrary: j)
  case (Suc n)
  show ?case
  proof (cases "x < 2 ^ 53 * (1 / 2 ^ j)")
    case False
    with Suc.prems obtain i where "j = Suc i" by (cases j) auto
    with False Suc.IH [OF Suc.prems, of i] show ?thesis by simp
  qed auto
qed auto

lemma round_half_even_between:
  assumes "of_int n \<le> q" and "q \<le> of_int m"
  shows "n \<le> round_half_even q" and "round_half_even q \<le> m"
proof -
  have n: "n \<le> \<lfloor>q\<rfloor>" using assms(1) by (simp add: le_floor_iff)
  then show "n \<le> round_half_even q" by (simp add: round_half_even_def Let_def)
  have "\<lfloor>q\<rfloor> < m \<or> q = of_int m"
    using assms(2) by (metis floor_less_iff order_le_imp_less_or_eq)
  then show "round_half_even q \<le> m"
    by (auto simp: round_half_even_def Let_def)
qed

text \<open>Rounding never crosses an integer below \<open>2 ^ 53\<close>.\<close>

lemma f64_round_between:
  assumes "of_int n \<le> x" and "x \<le> of_int m" and "m < 2 ^ 53"
  shows "of_int n \<le> f64_round x" and "f64_round x \<le> of_int m"
proof -
  have "x < 2 ^ 53"
  proof -
    have "(of_int m :: rat) < of_int (2 ^ 53)" using assms(3) by (simp only: of_int_less_iff)
    with assms(2) show ?thesis by simp
  qed
  then obtain k where k: "f64_ulp 120 x (1 / 2 ^ 82) = 1 / 2 ^ k"
    using f64_ulp_power [of x 120 82] by auto
  have q: "of_int (n * 2 ^ k) \<le> x * 2 ^ k" "x * 2 ^ k \<le> of_int (m * 2 ^ k)"
    using assms(1,2) by simp_all
  have r: "f64_round x = of_int (round_half_even (x * 2 ^ k)) / 2 ^ k"
    unfolding f64_round_def Let_def k by simp
  have "(of_int (n * 2 ^ k) :: rat) \<le> of_int (round_half_even (x * 2 ^ k))"
    using round_half_even_between(1) [OF q] by (simp only: of_int_le_iff)
  then show "of_int n \<le> f64_round x" by (simp add: r le_divide_eq)
  have "(of_int (round_half_even (x * 2 ^ k)) :: rat) \<le> of_int (m * 2 ^ k)"
    using round_half_even_between(2) [OF q] by (simp only: of_int_le_iff)
  then show "f64_round x \<le> of_int m" by (simp add: r divide_le_eq)
qed

text \<open>The seconds of a duration come out as the whole seconds, or one more.\<close>

lemma int64_Seconds_cases:
  assumes "0 \<le> d" and "d \<le> MaxDuration"
  shows "int64_Seconds d \<in> {d div Second, d div Second + 1}"
    and "d mod Second = 0 \<Longrightarrow> int64_Seconds d = d div Second"
proof -
  let ?s = "d div Second" and ?n = "d mod Second"
  let ?f = "f64_round (of_int ?n / 1000000000)"
  have s: "0 \<le> ?s" "?s + 1 < 2 ^ 53" 
  proof -
    show "0 \<le> ?s" using assms(1) by (rule pos_imp_zdiv_nonneg_iff [THEN iffD2, rotated]) simp
    have "?s * Second \<le> d" using div_times_less_eq_dividend by simp
    with assms(2) show "?s + 1 < 2 ^ 53" by simp
  qed
  have n: "0 \<le> ?n" "?n \<le> 1000000000"
    using pos_mod_bound [of Second d] pos_mod_sign [of Second d] by linarith+
  have nn: "(of_int 0 :: rat) \<le> of_int ?n / 1000000000" "of_int ?n / 1000000000 \<le> (of_int 1 :: rat)"
  proof -
    show "(of_int 0 :: rat) \<le> of_int ?n / 1000000000" using n(1) by simp
    have "(of_int ?n :: rat) \<le> of_int 1000000000" by (simp only: of_int_le_iff n(2))
    then show "of_int ?n / 1000000000 \<le> (of_int 1 :: rat)" by simp
  qed
  have f: "0 \<le> ?f" "?f \<le> 1"
    using f64_round_between [OF nn] by simp_all
  have sum: "of_int ?s \<le> of_int ?s + ?f" "of_int ?s + ?f \<le> of_int (?s + 1)"
    using f by simp_all
  from f64_round_between [OF sum s(2)]
  have r: "of_int ?s \<le> Duration_Seconds d" "Duration_Seconds d \<le> of_int (?s + 1)"
    by (simp_all add: Duration_Seconds_def)
  show "int64_Seconds d \<in> {?s, ?s + 1}"
    using floor_mono [OF r(1)] floor_mono [OF r(2)] by (auto simp: int64_Seconds_def)
  assume z: "?n = 0"
  have "f64_round 0 = 0" using f64_round_between [of 0 0 0] by simp
  with z have "Duration_Seconds d = f64_round (of_int ?s)" by (simp add: Duration_Seconds_def)
  also have "\<dots> = of_int ?s" using f64_round_between [of ?s "of_int ?s" ?s] s by simp
  finally show "int64_Seconds d = ?s" by (simp add: int64_Seconds_def)
qed

end
