(* ===== verification/Auth_Token.thy ===== *)
theory Auth_Token
  imports Redis_Store Go_Time
begin

text \<open>
  \<open>pkg/auth/config.go\<close> and \<open>pkg/auth/token.go\<close>: pairs of an access and a refresh token.

  \<open>golang-jwt\<close> is an argument, the record \<open>jwt_lib\<close>. A token's claims on the wire are a
  \<open>payload\<close>: the registered claims, which the library decodes, and the other members of the JSON
  object, which \<open>encoding/json\<close> fills into the claims structs as their field tags say. The key
  function of a parse is the closure of the source. A function of this file reads the clock
  once; the store operations it calls run at that instant too.
\<close>

section \<open>Configuration\<close>

record AuthConfig =
  cfg_Secret :: string
  cfg_Alg :: string
  cfg_AccessTTL :: nanos
  cfg_RefreshTTL :: nanos
  cfg_ClockSkew :: nanos
  cfg_BlocklistPrefix :: string
  cfg_RefreshStorePrefix :: string

definition AuthConfig_Defaults :: "AuthConfig \<Rightarrow> AuthConfig" where
  "AuthConfig_Defaults c =
     c\<lparr>cfg_Alg := (if cfg_Alg c = '''' then ''HS256'' else cfg_Alg c),
       cfg_AccessTTL := (if cfg_AccessTTL c \<le> 0 then 30 * Minute else cfg_AccessTTL c),
       cfg_RefreshTTL := (if cfg_RefreshTTL c \<le> 0 then 72 * Hour else cfg_RefreshTTL c),
       cfg_ClockSkew := (if cfg_ClockSkew c < 0 then 0 else cfg_ClockSkew c),
       cfg_BlocklistPrefix :=
         (if cfg_BlocklistPrefix c = '''' then DefaultAccessBlocklistPrefix
          else cfg_BlocklistPrefix c),
       cfg_RefreshStorePrefix :=
         (if cfg_RefreshStorePrefix c = '''' then DefaultRefreshStorePrefix
          else cfg_RefreshStorePrefix c)\<rparr>"

definition auth_config_complete :: "AuthConfig \<Rightarrow> bool" where
  "auth_config_complete c \<longleftrightarrow>
     cfg_Alg c \<noteq> '''' \<and> 0 < cfg_AccessTTL c \<and> 0 < cfg_RefreshTTL c \<and> 0 \<le> cfg_ClockSkew c \<and>
     cfg_BlocklistPrefix c \<noteq> '''' \<and> cfg_RefreshStorePrefix c \<noteq> ''''"

lemma AuthConfig_Defaults_fields [simp]:
  "cfg_Secret (AuthConfig_Defaults c) = cfg_Secret c"
  "cfg_Alg (AuthConfig_Defaults c) = default_str ''HS256'' (cfg_Alg c)"
  "cfg_AccessTTL (AuthConfig_Defaults c) = default_pos (30 * Minute) (cfg_AccessTTL c)"
  "cfg_RefreshTTL (AuthConfig_Defaults c) = default_pos (72 * Hour) (cfg_RefreshTTL c)"
  "cfg_ClockSkew (AuthConfig_Defaults c) = max 0 (cfg_ClockSkew c)"
  "cfg_BlocklistPrefix (AuthConfig_Defaults c) =
     default_str DefaultAccessBlocklistPrefix (cfg_BlocklistPrefix c)"
  "cfg_RefreshStorePrefix (AuthConfig_Defaults c) =
     default_str DefaultRefreshStorePrefix (cfg_RefreshStorePrefix c)"
  by (simp_all add: AuthConfig_Defaults_def default_str_def default_pos_def Let_def)

lemma auth_prefixes_nonempty [simp]:
  "DefaultAccessBlocklistPrefix \<noteq> ''''" "DefaultRefreshStorePrefix \<noteq> ''''"
  by (simp_all add: DefaultAccessBlocklistPrefix_def DefaultRefreshStorePrefix_def)

interpretation auth_config:
  defaulting "\<lambda>_. True" "\<lambda>_ :: unit. AuthConfig_Defaults" auth_config_complete
proof
  show "auth_config_complete (AuthConfig_Defaults c)" for c
    by (simp add: auth_config_complete_def)
  show "AuthConfig_Defaults c = c" if "auth_config_complete c" for c
    using that by (simp add: AuthConfig_Defaults_def auth_config_complete_def)
qed

section \<open>Claims and the JWT library\<close>

text \<open>The registered claims; issuer and audience are neither set nor read. A numeric date is
  kept in nanoseconds.\<close>

record RegisteredClaims =
  rg_Subject :: string
  rg_ID :: string
  rg_IssuedAt :: "nanos option"
  rg_NotBefore :: "nanos option"
  rg_ExpiresAt :: "nanos option"

datatype json = JNull | JInt int | JStr string | JOther

record payload =
  pl_members :: "string \<rightharpoonup> json"
  pl_registered :: RegisteredClaims

datatype signing_method = HMAC string | OtherMethod string

record jwt_lib =
  jwt_NewNumericDate :: "nanos \<Rightarrow> nanos"
  jwt_SignedString :: "signing_method \<Rightarrow> payload \<Rightarrow> string \<Rightarrow> string go_result"
  jwt_Parse :: "string \<Rightarrow> (signing_method \<Rightarrow> string go_result) \<Rightarrow> nanos \<Rightarrow> nanos \<Rightarrow>
     (payload \<times> bool) go_result"
  jwt_ParseUnverified :: "string \<Rightarrow> (signing_method \<times> payload) go_result"
  jwt_verifies :: "signing_method \<Rightarrow> string \<Rightarrow> string \<Rightarrow> bool"

text \<open>
  Documented behaviour of the library. Numeric dates are whole seconds. A parse succeeds
  exactly when the token decodes, the key function yields a key, the signature verifies under
  it, and the clock is before the expiry plus the leeway and not before the start minus it; the
  token is then marked valid. A signed token decodes to what was signed and verifies under its
  own key, as long as its strings are ASCII and its dates are exact as JSON numbers.
  \<open>jwt_verifies\<close> only names the signature check.
\<close>

definition in_time :: "payload \<Rightarrow> nanos \<Rightarrow> nanos \<Rightarrow> bool" where
  "in_time pl leeway now \<longleftrightarrow>
     (case rg_ExpiresAt (pl_registered pl) of None \<Rightarrow> True | Some e \<Rightarrow> now < e + leeway) \<and>
     (case rg_NotBefore (pl_registered pl) of None \<Rightarrow> True | Some b \<Rightarrow> b - leeway \<le> now)"

definition date_exact :: "nanos option \<Rightarrow> bool" where
  "date_exact d \<longleftrightarrow>
     (case d of None \<Rightarrow> True | Some x \<Rightarrow> x mod Second = 0 \<and> \<bar>x\<bar> \<le> 2 ^ 53 * Second)"

definition payload_plain :: "payload \<Rightarrow> bool" where
  "payload_plain pl \<longleftrightarrow>
     (\<forall>k s. pl_members pl k = Some (JStr s) \<longrightarrow> ascii s) \<and>
     ascii (rg_Subject (pl_registered pl)) \<and> ascii (rg_ID (pl_registered pl)) \<and>
     date_exact (rg_IssuedAt (pl_registered pl)) \<and> date_exact (rg_NotBefore (pl_registered pl)) \<and>
     date_exact (rg_ExpiresAt (pl_registered pl))"

definition jwt_documented :: "jwt_lib \<Rightarrow> bool" where
  "jwt_documented lib \<longleftrightarrow>
     (\<forall>t. jwt_NewNumericDate lib t = t - t mod Second) \<and>
     (\<forall>tok kf leeway now pl v. jwt_Parse lib tok kf leeway now = Inr (pl, v) \<longleftrightarrow>
        v \<and> in_time pl leeway now \<and>
        (\<exists>m key. jwt_ParseUnverified lib tok = Inr (m, pl) \<and> kf m = Inr key \<and>
           jwt_verifies lib m key tok)) \<and>
     (\<forall>m pl key tok. payload_plain pl \<longrightarrow> jwt_SignedString lib m pl key = Inr tok \<longrightarrow>
        jwt_ParseUnverified lib tok = Inr (m, pl) \<and> jwt_verifies lib m key tok)"

section \<open>The claims structs\<close>

record AccessClaims =
  ac_UserID :: i64
  ac_Sequence :: string
  ac_SessionVersion :: i64
  ac_TokenType :: string
  ac_RegisteredClaims :: RegisteredClaims

record RefreshClaims =
  rfc_UserID :: i64
  rfc_Sequence :: string
  rfc_TokenType :: string
  rfc_RegisteredClaims :: RegisteredClaims

text \<open>\<open>encoding/json\<close> decoding a member into a field: absent or null leaves the zero value, another
  kind of value or a number outside the field's range is an error.\<close>

definition json_i64 :: "payload \<Rightarrow> string \<Rightarrow> i64 go_result" where
  "json_i64 pl k =
     (case pl_members pl k of
        None \<Rightarrow> Inr 0
      | Some JNull \<Rightarrow> Inr 0
      | Some (JInt n) \<Rightarrow>
          if - (2 ^ 63) \<le> n \<and> n < 2 ^ 63 then Inr (word_of_int n)
          else Inl (LibError (''token is malformed: json: cannot unmarshal number into '' @ k))
      | Some _ \<Rightarrow> Inl (LibError (''token is malformed: json: cannot unmarshal into '' @ k)))"

definition json_str :: "payload \<Rightarrow> string \<Rightarrow> string go_result" where
  "json_str pl k =
     (case pl_members pl k of
        None \<Rightarrow> Inr ''''
      | Some JNull \<Rightarrow> Inr ''''
      | Some (JStr s) \<Rightarrow> Inr s
      | Some _ \<Rightarrow> Inl (LibError (''token is malformed: json: cannot unmarshal into '' @ k)))"

definition go_bind :: "'a go_result \<Rightarrow> ('a \<Rightarrow> 'b go_result) \<Rightarrow> 'b go_result" where
  "go_bind x f = (case x of Inl e \<Rightarrow> Inl e | Inr v \<Rightarrow> f v)"

lemma go_bind_simps [simp]:
  "go_bind (Inl e) f = Inl e"
  "go_bind (Inr v) f = f v"
  by (simp_all add: go_bind_def)

lemma go_bind_Inr_iff: "go_bind x f = Inr v \<longleftrightarrow> (\<exists>w. x = Inr w \<and> f w = Inr v)"
  by (cases x) simp_all

definition AccessClaims_payload :: "AccessClaims \<Rightarrow> payload" where
  "AccessClaims_payload c =
     \<lparr>pl_members =
        (let m = [''user_id'' \<mapsto> JInt (sint (ac_UserID c)), ''sequence'' \<mapsto> JStr (ac_Sequence c),
                  ''type'' \<mapsto> JStr (ac_TokenType c)]
         in if ac_SessionVersion c \<noteq> 0
            then m(''session_version'' \<mapsto> JInt (sint (ac_SessionVersion c))) else m),
      pl_registered = ac_RegisteredClaims c\<rparr>"

definition AccessClaims_of :: "payload \<Rightarrow> AccessClaims go_result" where
  "AccessClaims_of pl =
     go_bind (json_i64 pl ''user_id'') (\<lambda>u.
     go_bind (json_str pl ''sequence'') (\<lambda>s.
     go_bind (json_i64 pl ''session_version'') (\<lambda>v.
     go_bind (json_str pl ''type'') (\<lambda>t.
       Inr \<lparr>ac_UserID = u, ac_Sequence = s, ac_SessionVersion = v, ac_TokenType = t,
            ac_RegisteredClaims = pl_registered pl\<rparr>))))"

definition RefreshClaims_payload :: "RefreshClaims \<Rightarrow> payload" where
  "RefreshClaims_payload c =
     \<lparr>pl_members =
        [''user_id'' \<mapsto> JInt (sint (rfc_UserID c)), ''sequence'' \<mapsto> JStr (rfc_Sequence c),
         ''type'' \<mapsto> JStr (rfc_TokenType c)],
      pl_registered = rfc_RegisteredClaims c\<rparr>"

definition RefreshClaims_of :: "payload \<Rightarrow> RefreshClaims go_result" where
  "RefreshClaims_of pl =
     go_bind (json_i64 pl ''user_id'') (\<lambda>u.
     go_bind (json_str pl ''sequence'') (\<lambda>s.
     go_bind (json_str pl ''type'') (\<lambda>t.
       Inr \<lparr>rfc_UserID = u, rfc_Sequence = s, rfc_TokenType = t,
            rfc_RegisteredClaims = pl_registered pl\<rparr>)))"

lemma sint_bounds_i64: "- (2 ^ 63) \<le> sint (x :: i64)" "sint (x :: i64) < 2 ^ 63"
  using sint_greater_eq [of x] sint_less [of x] by simp_all

text \<open>Encoding and decoding a claims struct is the identity.\<close>

lemma AccessClaims_roundtrip [simp]: "AccessClaims_of (AccessClaims_payload c) = Inr c"
  using sint_bounds_i64 [of "ac_UserID c"] sint_bounds_i64 [of "ac_SessionVersion c"]
  by (simp add: AccessClaims_of_def AccessClaims_payload_def json_i64_def json_str_def Let_def)

lemma RefreshClaims_roundtrip [simp]: "RefreshClaims_of (RefreshClaims_payload c) = Inr c"
  using sint_bounds_i64 [of "rfc_UserID c"]
  by (simp add: RefreshClaims_of_def RefreshClaims_payload_def json_i64_def json_str_def)

text \<open>Read as the other kind, a claims struct keeps its type member.\<close>

lemma AccessClaims_of_refresh:
  "AccessClaims_of (RefreshClaims_payload c) =
     Inr \<lparr>ac_UserID = rfc_UserID c, ac_Sequence = rfc_Sequence c, ac_SessionVersion = 0,
          ac_TokenType = rfc_TokenType c, ac_RegisteredClaims = rfc_RegisteredClaims c\<rparr>"
  using sint_bounds_i64 [of "rfc_UserID c"]
  by (simp add: AccessClaims_of_def RefreshClaims_payload_def json_i64_def json_str_def)

lemma RefreshClaims_of_access:
  "RefreshClaims_of (AccessClaims_payload c) =
     Inr \<lparr>rfc_UserID = ac_UserID c, rfc_Sequence = ac_Sequence c,
          rfc_TokenType = ac_TokenType c, rfc_RegisteredClaims = ac_RegisteredClaims c\<rparr>"
  using sint_bounds_i64 [of "ac_UserID c"]
  by (simp add: RefreshClaims_of_def AccessClaims_payload_def json_i64_def json_str_def Let_def)

section \<open>Issuing a pair\<close>

record TokenPair =
  tp_AccessToken :: string
  tp_RefreshToken :: string
  tp_AccessTokenExpiresAt :: nanos
  tp_RefreshTokenExpiresAt :: nanos
  tp_AccessTokenExpiresInSec :: int
  tp_RefreshTokenExpiresInSec :: int
  tp_AccessTokenJTI :: string
  tp_RefreshTokenJTI :: string

definition stringFromInt64 :: "i64 \<Rightarrow> string" where
  "stringFromInt64 v = string_of_int (sint v)"

definition signClaims :: "jwt_lib \<Rightarrow> payload \<Rightarrow> AuthConfig \<Rightarrow> string go_result" where
  "signClaims lib claims cfg = jwt_SignedString lib (HMAC ''HS256'') claims (cfg_Secret cfg)"

definition access_claims ::
  "jwt_lib \<Rightarrow> nanos \<Rightarrow> string \<Rightarrow> i64 \<Rightarrow> string \<Rightarrow> i64 \<Rightarrow> AuthConfig \<Rightarrow> AccessClaims" where
  "access_claims lib now accessJTI userID sequence sessionVersion cfg =
     \<lparr>ac_UserID = userID, ac_Sequence = sequence, ac_SessionVersion = sessionVersion,
      ac_TokenType = ''access'',
      ac_RegisteredClaims =
        \<lparr>rg_Subject = stringFromInt64 userID, rg_ID = accessJTI,
         rg_IssuedAt = Some (jwt_NewNumericDate lib now), rg_NotBefore = None,
         rg_ExpiresAt = Some (jwt_NewNumericDate lib (now + cfg_AccessTTL cfg))\<rparr>\<rparr>"

definition refresh_claims ::
  "jwt_lib \<Rightarrow> nanos \<Rightarrow> string \<Rightarrow> i64 \<Rightarrow> string \<Rightarrow> AuthConfig \<Rightarrow> RefreshClaims" where
  "refresh_claims lib now refreshJTI userID sequence cfg =
     \<lparr>rfc_UserID = userID, rfc_Sequence = sequence, rfc_TokenType = ''refresh'',
      rfc_RegisteredClaims =
        \<lparr>rg_Subject = stringFromInt64 userID, rg_ID = refreshJTI,
         rg_IssuedAt = Some (jwt_NewNumericDate lib now), rg_NotBefore = None,
         rg_ExpiresAt = Some (jwt_NewNumericDate lib (now + cfg_RefreshTTL cfg))\<rparr>\<rparr>"

text \<open>The identifiers are the two fresh UUIDs, in the order they are drawn.\<close>

definition GenerateTokenPairWithVersion ::
  "jwt_lib \<Rightarrow> nanos \<Rightarrow> string \<times> string \<Rightarrow> i64 \<Rightarrow> string \<Rightarrow> i64 \<Rightarrow> AuthConfig \<Rightarrow>
     'r RefreshTokenStore option \<Rightarrow> 'r \<Rightarrow> 'r \<times> TokenPair go_result" where
  "GenerateTokenPairWithVersion lib now uuids userID sequence sessionVersion cfg store r =
     (let cfg = AuthConfig_Defaults cfg
      in if cfg_Secret cfg = '''' then (r, Inl (ErrorsNew ''jwt secret is empty''))
         else
           (let (accessJTI, refreshJTI) = uuids;
                accessClaims = access_claims lib now accessJTI userID sequence sessionVersion cfg;
                refreshClaims = refresh_claims lib now refreshJTI userID sequence cfg
            in case signClaims lib (AccessClaims_payload accessClaims) cfg of
                 Inl err \<Rightarrow> (r, Inl err)
               | Inr accessToken \<Rightarrow>
                   (case signClaims lib (RefreshClaims_payload refreshClaims) cfg of
                      Inl err \<Rightarrow> (r, Inl err)
                    | Inr refreshToken \<Rightarrow>
                        (let meta = \<lparr>rm_UserID = userID, rm_Sequence = sequence\<rparr>;
                             (r, err) =
                               (case store of
                                  None \<Rightarrow> (r, None)
                                | Some st \<Rightarrow> rt_Save st refreshJTI meta (cfg_RefreshTTL cfg) now r)
                         in case err of
                              Some err \<Rightarrow> (r, Inl err)
                            | None \<Rightarrow>
                                (r, Inr
                                   \<lparr>tp_AccessToken = accessToken,
                                    tp_RefreshToken = refreshToken,
                                    tp_AccessTokenExpiresAt =
                                      jwt_NewNumericDate lib (now + cfg_AccessTTL cfg),
                                    tp_RefreshTokenExpiresAt =
                                      jwt_NewNumericDate lib (now + cfg_RefreshTTL cfg),
                                    tp_AccessTokenExpiresInSec = int64_Seconds (cfg_AccessTTL cfg),
                                    tp_RefreshTokenExpiresInSec = int64_Seconds (cfg_RefreshTTL cfg),
                                    tp_AccessTokenJTI = accessJTI,
                                    tp_RefreshTokenJTI = refreshJTI\<rparr>)))))"

definition GenerateTokenPair ::
  "jwt_lib \<Rightarrow> nanos \<Rightarrow> string \<times> string \<Rightarrow> i64 \<Rightarrow> string \<Rightarrow> AuthConfig \<Rightarrow>
     'r RefreshTokenStore option \<Rightarrow> 'r \<Rightarrow> 'r \<times> TokenPair go_result" where
  "GenerateTokenPair lib now uuids userID sequence cfg store r =
     GenerateTokenPairWithVersion lib now uuids userID sequence 0 cfg store r"

section \<open>Checking an access token\<close>

text \<open>The key functions handed to the parser: access tokens insist on HMAC, refresh tokens do not
  look at the method.\<close>

definition hmac_keyfunc :: "string \<Rightarrow> signing_method \<Rightarrow> string go_result" where
  "hmac_keyfunc secret m =
     (case m of HMAC _ \<Rightarrow> Inr secret | _ \<Rightarrow> Inl (ErrorsNew ''unexpected signing method''))"

definition any_keyfunc :: "string \<Rightarrow> signing_method \<Rightarrow> string go_result" where
  "any_keyfunc secret m = Inr secret"

text \<open>\<open>jwt.ParseWithClaims\<close>: the parse of the library with the claims decoded into a struct.\<close>

definition ParseWithClaims ::
  "jwt_lib \<Rightarrow> (payload \<Rightarrow> 'c go_result) \<Rightarrow> string \<Rightarrow> (signing_method \<Rightarrow> string go_result) \<Rightarrow> nanos \<Rightarrow>
     nanos \<Rightarrow> ('c \<times> bool) go_result" where
  "ParseWithClaims lib decode tok kf leeway now =
     go_bind (jwt_Parse lib tok kf leeway now) (\<lambda>(pl, valid).
     go_bind (decode pl) (\<lambda>c. Inr (c, valid)))"

definition VerifyAccessToken ::
  "jwt_lib \<Rightarrow> nanos \<Rightarrow> string \<Rightarrow> AuthConfig \<Rightarrow> 'r AccessTokenBlocklist option \<Rightarrow> 'r \<Rightarrow>
     AccessClaims go_result" where
  "VerifyAccessToken lib now tokenStr cfg blocklist r =
     (let cfg = AuthConfig_Defaults cfg
      in if cfg_Secret cfg = '''' then Inl (ErrorsNew ''jwt secret is empty'')
         else
           (case ParseWithClaims lib AccessClaims_of tokenStr (hmac_keyfunc (cfg_Secret cfg))
                   (cfg_ClockSkew cfg) now of
              Inl err \<Rightarrow> Inl err
            | Inr (claims, valid) \<Rightarrow>
                if \<not> valid then Inl (ErrorsNew ''invalid token'')
                else if ac_TokenType claims \<noteq> ''access'' then Inl (ErrorsNew ''invalid token type'')
                else
                  (case blocklist of
                     None \<Rightarrow> Inr claims
                   | Some bl \<Rightarrow>
                       if rg_ID (ac_RegisteredClaims claims) = '''' then Inr claims
                       else
                         (case bl_IsBlocked bl (rg_ID (ac_RegisteredClaims claims)) now r of
                            Inl err \<Rightarrow> Inl err
                          | Inr blocked \<Rightarrow>
                              if blocked then Inl (ErrorsNew ''token revoked'') else Inr claims))))"

definition VerifyAccessTokenWithVersion ::
  "jwt_lib \<Rightarrow> nanos \<Rightarrow> string \<Rightarrow> AuthConfig \<Rightarrow> 'r AccessTokenBlocklist option \<Rightarrow>
     'r SessionVersionStore option \<Rightarrow> 'r \<Rightarrow> AccessClaims go_result" where
  "VerifyAccessTokenWithVersion lib now tokenStr cfg blocklist versionStore r =
     (case VerifyAccessToken lib now tokenStr cfg blocklist r of
        Inl err \<Rightarrow> Inl err
      | Inr claims \<Rightarrow>
          (case versionStore of
             None \<Rightarrow> Inr claims
           | Some vs \<Rightarrow>
               (case sv_Get vs (ac_UserID claims) now r of
                  (current, err) \<Rightarrow>
                    (case err of
                       Some e \<Rightarrow>
                         if \<not> strings_Contains (error_text e) ''nil'' then Inl e
                         else if 0 < sint current \<and> ac_SessionVersion claims \<noteq> current
                         then Inl (ErrorsNew ''access token superseded'') else Inr claims
                     | None \<Rightarrow>
                         if 0 < sint current \<and> ac_SessionVersion claims \<noteq> current
                         then Inl (ErrorsNew ''access token superseded'') else Inr claims))))"

section \<open>Consuming a refresh token, revoking an access token\<close>

definition ConsumeRefreshToken ::
  "jwt_lib \<Rightarrow> nanos \<Rightarrow> string \<Rightarrow> AuthConfig \<Rightarrow> 'r RefreshTokenStore option \<Rightarrow> 'r \<Rightarrow>
     'r \<times> RefreshClaims go_result" where
  "ConsumeRefreshToken lib now tokenStr cfg store r =
     (let cfg = AuthConfig_Defaults cfg
      in if cfg_Secret cfg = '''' then (r, Inl (ErrorsNew ''jwt secret is empty''))
         else
           (case ParseWithClaims lib RefreshClaims_of tokenStr (any_keyfunc (cfg_Secret cfg))
                   (cfg_ClockSkew cfg) now of
              Inl err \<Rightarrow> (r, Inl err)
            | Inr (claims, valid) \<Rightarrow>
                if \<not> valid then (r, Inl (ErrorsNew ''invalid token''))
                else if rfc_TokenType claims \<noteq> ''refresh''
                then (r, Inl (ErrorsNew ''invalid token type''))
                else if rg_ID (rfc_RegisteredClaims claims) = ''''
                then (r, Inl (ErrorsNew ''missing refresh jti''))
                else
                  (case store of
                     None \<Rightarrow> (r, Inl (ErrorsNew ''refresh store not configured''))
                   | Some st \<Rightarrow>
                       (case rt_Consume st (rg_ID (rfc_RegisteredClaims claims)) now r of
                          (r', Inl err) \<Rightarrow> (r', Inl err)
                        | (r', Inr None) \<Rightarrow> (r', Inr claims)
                        | (r', Inr (Some meta)) \<Rightarrow>
                            if rm_UserID meta \<noteq> 0 \<and> rm_UserID meta \<noteq> rfc_UserID claims
                            then (r', Inl (ErrorsNew ''refresh token user mismatch''))
                            else if rm_Sequence meta \<noteq> '''' \<and> rm_Sequence meta \<noteq> rfc_Sequence claims
                            then (r', Inl (ErrorsNew ''refresh token sequence mismatch''))
                            else (r', Inr claims)))))"

definition RevokeAccessToken ::
  "nanos \<Rightarrow> AccessClaims option \<Rightarrow> AuthConfig \<Rightarrow> 'r AccessTokenBlocklist option \<Rightarrow> 'r \<Rightarrow>
     'r \<times> go_error option" where
  "RevokeAccessToken now claims cfg blocklist r =
     (case claims of
        None \<Rightarrow> (r, Some (ErrorsNew ''missing access claims''))
      | Some c \<Rightarrow>
          if rg_ID (ac_RegisteredClaims c) = '''' then (r, Some (ErrorsNew ''missing access claims''))
          else
            (case blocklist of
               None \<Rightarrow> (r, Some (ErrorsNew ''blocklist not configured''))
             | Some bl \<Rightarrow>
                 (let ttl = (case rg_ExpiresAt (ac_RegisteredClaims c) of
                               None \<Rightarrow> cfg_AccessTTL cfg
                             | Some e \<Rightarrow> time_Until e now);
                      ttl = (if ttl \<le> 0 then Second else ttl)
                  in bl_Block bl (rg_ID (ac_RegisteredClaims c)) ttl now r)))"

end
