(* ===== verification/Token_Laws.thy ===== *)
theory Token_Laws
  imports Auth_Token
begin

text \<open>
  What the token functions of \<open>Auth_Token\<close> promise, from the documented behaviour of the JWT
  library: exactly when a token is accepted, what an issued pair decodes to, and, inside the
  contracts of the stores, what a stored, blocked or superseded token is worth.
\<close>

section \<open>Acceptance\<close>

lemma ParseWithClaims_iff:
  assumes "jwt_documented lib"
  shows "ParseWithClaims lib decode tok kf leeway now = Inr (c, v) \<longleftrightarrow>
     v \<and> (\<exists>m pl key. jwt_ParseUnverified lib tok = Inr (m, pl) \<and> kf m = Inr key \<and>
       jwt_verifies lib m key tok \<and> in_time pl leeway now \<and> decode pl = Inr c)"
  using assms
  by (auto simp: ParseWithClaims_def jwt_documented_def go_bind_Inr_iff split: prod.splits)

text \<open>A token is genuine under a configuration when it decodes, and its signature and its times
  check out.\<close>

definition genuine ::
  "jwt_lib \<Rightarrow> nanos \<Rightarrow> string \<Rightarrow> string \<Rightarrow> nanos \<Rightarrow> signing_method \<Rightarrow> payload \<Rightarrow> bool" where
  "genuine lib now tok secret skew m pl \<longleftrightarrow>
     secret \<noteq> '''' \<and> jwt_ParseUnverified lib tok = Inr (m, pl) \<and> jwt_verifies lib m secret tok \<and>
     in_time pl (max 0 skew) now"

definition not_blocked ::
  "'r AccessTokenBlocklist option \<Rightarrow> AccessClaims \<Rightarrow> nanos \<Rightarrow> 'r \<Rightarrow> bool" where
  "not_blocked blocklist c now r \<longleftrightarrow>
     (case blocklist of
        None \<Rightarrow> True
      | Some bl \<Rightarrow> rg_ID (ac_RegisteredClaims c) = '''' \<or>
          bl_IsBlocked bl (rg_ID (ac_RegisteredClaims c)) now r = Inr False)"

lemma VerifyAccessToken_Inr_iff:
  assumes "jwt_documented lib"
  shows "VerifyAccessToken lib now tok cfg blocklist r = Inr c \<longleftrightarrow>
     (\<exists>alg pl. genuine lib now tok (cfg_Secret cfg) (cfg_ClockSkew cfg) (HMAC alg) pl \<and>
        AccessClaims_of pl = Inr c) \<and>
     ac_TokenType c = ''access'' \<and> not_blocked blocklist c now r"
proof (cases "ParseWithClaims lib AccessClaims_of tok (hmac_keyfunc (cfg_Secret cfg))
                (max 0 (cfg_ClockSkew cfg)) now")
  case (Inl e)
  have "\<not> (genuine lib now tok (cfg_Secret cfg) (cfg_ClockSkew cfg) (HMAC alg) pl \<and>
            AccessClaims_of pl = Inr c)" for alg pl
    using ParseWithClaims_iff [OF assms, of AccessClaims_of tok "hmac_keyfunc (cfg_Secret cfg)"
        "max 0 (cfg_ClockSkew cfg)" now c True] Inl
    by (auto simp: genuine_def hmac_keyfunc_def split: signing_method.splits)
  with Inl show ?thesis
    by (auto simp: VerifyAccessToken_def Let_def)
next
  case (Inr cv)
  obtain c' v where cv: "cv = (c', v)" by (cases cv)
  note iff = ParseWithClaims_iff [OF assms, of AccessClaims_of tok "hmac_keyfunc (cfg_Secret cfg)"
      "max 0 (cfg_ClockSkew cfg)" now]
  from Inr cv iff [of c' v] obtain m pl key where a: "v" "jwt_ParseUnverified lib tok = Inr (m, pl)"
    "hmac_keyfunc (cfg_Secret cfg) m = Inr key" "jwt_verifies lib m key tok"
    "in_time pl (max 0 (cfg_ClockSkew cfg)) now" "AccessClaims_of pl = Inr c'"
    by auto
  then obtain alg where m: "m = HMAC alg" "key = cfg_Secret cfg"
    by (auto simp: hmac_keyfunc_def split: signing_method.splits)
  from a m Inr cv show ?thesis
    by (auto simp: VerifyAccessToken_def Let_def genuine_def not_blocked_def
        split: option.splits sum.splits if_splits)
qed

lemma ConsumeRefreshToken_cases:
  assumes "jwt_documented lib" and "ConsumeRefreshToken lib now tok cfg store r = (r', Inr c)"
  obtains m pl st mo where "genuine lib now tok (cfg_Secret cfg) (cfg_ClockSkew cfg) m pl"
    and "RefreshClaims_of pl = Inr c" and "rfc_TokenType c = ''refresh''"
    and "rg_ID (rfc_RegisteredClaims c) \<noteq> ''''" and "store = Some st"
    and "rt_Consume st (rg_ID (rfc_RegisteredClaims c)) now r = (r', Inr mo)"
    and "\<And>meta. mo = Some meta \<Longrightarrow>
           (rm_UserID meta = 0 \<or> rm_UserID meta = rfc_UserID c) \<and>
           (rm_Sequence meta = '''' \<or> rm_Sequence meta = rfc_Sequence c)"
proof -
  from assms(2) obtain c' v where p:
    "ParseWithClaims lib RefreshClaims_of tok (any_keyfunc (cfg_Secret cfg))
       (max 0 (cfg_ClockSkew cfg)) now = Inr (c', v)" and s: "cfg_Secret cfg \<noteq> ''''"
    by (auto simp: ConsumeRefreshToken_def Let_def split: sum.splits if_splits)
  from p [unfolded ParseWithClaims_iff [OF assms(1)]] obtain m pl where "v"
    and g: "jwt_ParseUnverified lib tok = Inr (m, pl)" "jwt_verifies lib m (cfg_Secret cfg) tok"
      "in_time pl (max 0 (cfg_ClockSkew cfg)) now" and d: "RefreshClaims_of pl = Inr c'"
    by (auto simp: any_keyfunc_def)
  from assms(2) p s \<open>v\<close> obtain st mo where c: "c' = c" "rfc_TokenType c = ''refresh''"
    "rg_ID (rfc_RegisteredClaims c) \<noteq> ''''" "store = Some st"
    "rt_Consume st (rg_ID (rfc_RegisteredClaims c)) now r = (r', Inr mo)"
    "\<And>meta. mo = Some meta \<Longrightarrow>
       (rm_UserID meta = 0 \<or> rm_UserID meta = rfc_UserID c) \<and>
       (rm_Sequence meta = '''' \<or> rm_Sequence meta = rfc_Sequence c)"
    by (auto simp: ConsumeRefreshToken_def Let_def
        split: option.splits sum.splits prod.splits if_splits)
  with g d s show thesis
    by (intro that) (auto simp: genuine_def)
qed

text \<open>A genuine token read with a structure whose type member is wrong is refused before the
  store is touched.\<close>

lemma ConsumeRefreshToken_wrong_type:
  assumes "jwt_documented lib" and "jwt_ParseUnverified lib tok = Inr (m, pl)"
    and "RefreshClaims_of pl = Inr c" and "rfc_TokenType c \<noteq> ''refresh''"
  shows "\<exists>e. ConsumeRefreshToken lib now tok cfg store r = (r, Inl e)"
proof (cases "ParseWithClaims lib RefreshClaims_of tok (any_keyfunc (cfg_Secret cfg))
                (max 0 (cfg_ClockSkew cfg)) now")
  case (Inr cv)
  then have "fst cv = c \<and> snd cv"
    using ParseWithClaims_iff [OF assms(1), of RefreshClaims_of tok
        "any_keyfunc (cfg_Secret cfg)" "max 0 (cfg_ClockSkew cfg)" now "fst cv" "snd cv"] assms(2,3)
    by auto
  with Inr assms(4) show ?thesis
    by (cases cv) (auto simp: ConsumeRefreshToken_def Let_def)
qed (auto simp: ConsumeRefreshToken_def Let_def)

section \<open>Issued pairs\<close>

text \<open>The conditions under which everything in a pair is exact on the wire: ASCII text and a clock
  within the range of exact JSON numbers.\<close>

definition issue_ok :: "nanos \<Rightarrow> string \<times> string \<Rightarrow> string \<Rightarrow> AuthConfig \<Rightarrow> bool" where
  "issue_ok now uuids sequence cfg \<longleftrightarrow>
     ascii (fst uuids) \<and> ascii (snd uuids) \<and> ascii sequence \<and> 0 \<le> now \<and>
     now + cfg_AccessTTL (AuthConfig_Defaults cfg) \<le> 2 ^ 53 * Second \<and>
     now + cfg_RefreshTTL (AuthConfig_Defaults cfg) \<le> 2 ^ 53 * Second"

lemma date_exact_truncated:
  "0 \<le> t \<Longrightarrow> t \<le> 2 ^ 53 * Second \<Longrightarrow> date_exact (Some (t - t mod Second))"
  using pos_mod_sign [of Second t] pos_mod_bound [of Second t] zmod_le_nonneg_dividend [of t Second]
  by (simp add: date_exact_def mod_diff_right_eq minus_mod_eq_mult_div abs_le_iff)

lemma GenerateTokenPairWithVersion_cases:
  assumes "GenerateTokenPairWithVersion lib now uuids u sq ver cfg store r = (r', Inr p)"
  obtains "cfg_Secret cfg \<noteq> ''''"
    and "jwt_SignedString lib (HMAC ''HS256'')
           (AccessClaims_payload
              (access_claims lib now (fst uuids) u sq ver (AuthConfig_Defaults cfg)))
           (cfg_Secret cfg) = Inr (tp_AccessToken p)"
    and "jwt_SignedString lib (HMAC ''HS256'')
           (RefreshClaims_payload
              (refresh_claims lib now (snd uuids) u sq (AuthConfig_Defaults cfg)))
           (cfg_Secret cfg) = Inr (tp_RefreshToken p)"
    and "tp_AccessTokenJTI p = fst uuids" and "tp_RefreshTokenJTI p = snd uuids"
    and "tp_AccessTokenExpiresAt p =
           jwt_NewNumericDate lib (now + cfg_AccessTTL (AuthConfig_Defaults cfg))"
    and "tp_RefreshTokenExpiresAt p =
           jwt_NewNumericDate lib (now + cfg_RefreshTTL (AuthConfig_Defaults cfg))"
    and "case store of
           None \<Rightarrow> r' = r
         | Some st \<Rightarrow> rt_Save st (snd uuids) \<lparr>rm_UserID = u, rm_Sequence = sq\<rparr>
             (cfg_RefreshTTL (AuthConfig_Defaults cfg)) now r = (r', None)"
  using assms
  by (cases uuids, cases store)
     (auto simp: GenerateTokenPairWithVersion_def signClaims_def Let_def
       split: sum.splits prod.splits option.splits if_splits)

definition issued_access ::
  "jwt_lib \<Rightarrow> nanos \<Rightarrow> string \<times> string \<Rightarrow> i64 \<Rightarrow> string \<Rightarrow> i64 \<Rightarrow> AuthConfig \<Rightarrow> AccessClaims" where
  "issued_access lib now uuids u sq ver cfg =
     access_claims lib now (fst uuids) u sq ver (AuthConfig_Defaults cfg)"

definition issued_refresh ::
  "jwt_lib \<Rightarrow> nanos \<Rightarrow> string \<times> string \<Rightarrow> i64 \<Rightarrow> string \<Rightarrow> AuthConfig \<Rightarrow> RefreshClaims" where
  "issued_refresh lib now uuids u sq cfg =
     refresh_claims lib now (snd uuids) u sq (AuthConfig_Defaults cfg)"

lemma issued_plain:
  assumes "jwt_documented lib" and "issue_ok now uuids sq cfg"
  shows "payload_plain (AccessClaims_payload (issued_access lib now uuids u sq ver cfg))"
    and "payload_plain (RefreshClaims_payload (issued_refresh lib now uuids u sq cfg))"
proof -
  have date: "jwt_NewNumericDate lib t = t - t mod Second" for t
    using assms(1) by (simp add: jwt_documented_def)
  have ttl: "0 < cfg_AccessTTL (AuthConfig_Defaults cfg)" "0 < cfg_RefreshTTL (AuthConfig_Defaults cfg)"
    by simp_all
  from assms(2) ttl have "date_exact (Some (jwt_NewNumericDate lib now))"
    "date_exact (Some (jwt_NewNumericDate lib (now + cfg_AccessTTL (AuthConfig_Defaults cfg))))"
    "date_exact (Some (jwt_NewNumericDate lib (now + cfg_RefreshTTL (AuthConfig_Defaults cfg))))"
    unfolding date issue_ok_def by (intro date_exact_truncated; linarith)+
  moreover have "date_exact None" by (simp add: date_exact_def)
  ultimately show
    "payload_plain (AccessClaims_payload (issued_access lib now uuids u sq ver cfg))"
    "payload_plain (RefreshClaims_payload (issued_refresh lib now uuids u sq cfg))"
    using assms(2)
    by (auto simp del: AuthConfig_Defaults_fields
        simp: payload_plain_def AccessClaims_payload_def RefreshClaims_payload_def
        issued_access_def issued_refresh_def access_claims_def refresh_claims_def issue_ok_def
        stringFromInt64_def Let_def split: if_splits)
qed

lemma issued_tokens:
  assumes "jwt_documented lib" and "issue_ok now uuids sq cfg"
    and "GenerateTokenPairWithVersion lib now uuids u sq ver cfg store r = (r', Inr p)"
  shows "jwt_ParseUnverified lib (tp_AccessToken p) =
           Inr (HMAC ''HS256'', AccessClaims_payload (issued_access lib now uuids u sq ver cfg))"
    and "jwt_verifies lib (HMAC ''HS256'') (cfg_Secret cfg) (tp_AccessToken p)"
    and "jwt_ParseUnverified lib (tp_RefreshToken p) =
           Inr (HMAC ''HS256'', RefreshClaims_payload (issued_refresh lib now uuids u sq cfg))"
    and "jwt_verifies lib (HMAC ''HS256'') (cfg_Secret cfg) (tp_RefreshToken p)"
    and "cfg_Secret cfg \<noteq> ''''"
proof -
  have sign: "jwt_ParseUnverified lib tok = Inr (m, pl) \<and> jwt_verifies lib m key tok"
    if "payload_plain pl" "jwt_SignedString lib m pl key = Inr tok" for m pl key tok
    using assms(1) that unfolding jwt_documented_def by blast
  note plain = issued_plain [OF assms(1,2), unfolded issued_access_def issued_refresh_def]
  show "jwt_ParseUnverified lib (tp_AccessToken p) =
      Inr (HMAC ''HS256'', AccessClaims_payload (issued_access lib now uuids u sq ver cfg))"
    "jwt_verifies lib (HMAC ''HS256'') (cfg_Secret cfg) (tp_AccessToken p)"
    "jwt_ParseUnverified lib (tp_RefreshToken p) =
      Inr (HMAC ''HS256'', RefreshClaims_payload (issued_refresh lib now uuids u sq cfg))"
    "jwt_verifies lib (HMAC ''HS256'') (cfg_Secret cfg) (tp_RefreshToken p)"
    "cfg_Secret cfg \<noteq> ''''"
    unfolding issued_access_def issued_refresh_def
    by (rule GenerateTokenPairWithVersion_cases [OF assms(3)],
        auto dest!: sign [OF plain(1)] sign [OF plain(2)])+
qed

lemma issued_fields [simp]:
  "ac_UserID (issued_access lib now uuids u sq ver cfg) = u"
  "ac_Sequence (issued_access lib now uuids u sq ver cfg) = sq"
  "ac_SessionVersion (issued_access lib now uuids u sq ver cfg) = ver"
  "ac_TokenType (issued_access lib now uuids u sq ver cfg) = ''access''"
  "rg_ID (ac_RegisteredClaims (issued_access lib now uuids u sq ver cfg)) = fst uuids"
  "rfc_UserID (issued_refresh lib now uuids u sq cfg) = u"
  "rfc_Sequence (issued_refresh lib now uuids u sq cfg) = sq"
  "rfc_TokenType (issued_refresh lib now uuids u sq cfg) = ''refresh''"
  "rg_ID (rfc_RegisteredClaims (issued_refresh lib now uuids u sq cfg)) = snd uuids"
  by (simp_all add: issued_access_def issued_refresh_def access_claims_def refresh_claims_def)

lemma issued_in_time:
  assumes "jwt_documented lib"
  shows "in_time (AccessClaims_payload (issued_access lib now uuids u sq ver cfg)) skew t \<longleftrightarrow>
     t < (now + cfg_AccessTTL (AuthConfig_Defaults cfg)) div Second * Second + skew"
    and "in_time (RefreshClaims_payload (issued_refresh lib now uuids u sq cfg)) skew t \<longleftrightarrow>
     t < (now + cfg_RefreshTTL (AuthConfig_Defaults cfg)) div Second * Second + skew"
  using assms
  by (simp_all add: in_time_def AccessClaims_payload_def RefreshClaims_payload_def issued_access_def
      issued_refresh_def access_claims_def refresh_claims_def jwt_documented_def minus_mod_eq_div_mult)

text \<open>An issued access token is accepted exactly until its expiry in whole seconds plus the skew,
  with exactly the claims it was issued for, unless it is blocked.\<close>

lemma issued_access_accepted:
  assumes "jwt_documented lib" and "issue_ok now uuids sq cfg"
    and "GenerateTokenPairWithVersion lib now uuids u sq ver cfg store r = (r', Inr p)"
  shows "VerifyAccessToken lib t (tp_AccessToken p) cfg blocklist s = Inr c \<longleftrightarrow>
     c = issued_access lib now uuids u sq ver cfg \<and>
     t < (now + cfg_AccessTTL (AuthConfig_Defaults cfg)) div Second * Second +
         max 0 (cfg_ClockSkew cfg) \<and>
     not_blocked blocklist c t s"
  using issued_tokens [OF assms]
  by (auto simp: VerifyAccessToken_Inr_iff [OF assms(1)] genuine_def issued_in_time [OF assms(1)]
      simp del: AuthConfig_Defaults_fields)

lemma issued_refresh_not_access:
  assumes "jwt_documented lib" and "issue_ok now uuids sq cfg"
    and "GenerateTokenPairWithVersion lib now uuids u sq ver cfg store r = (r', Inr p)"
  shows "VerifyAccessToken lib t (tp_RefreshToken p) cfg' blocklist s \<noteq> Inr c"
  using issued_tokens [OF assms]
  by (auto simp: VerifyAccessToken_Inr_iff [OF assms(1)] genuine_def AccessClaims_of_refresh)

lemma issued_access_not_refresh:
  assumes "jwt_documented lib" and "issue_ok now uuids sq cfg"
    and "GenerateTokenPairWithVersion lib now uuids u sq ver cfg store r = (r', Inr p)"
  shows "\<exists>e. ConsumeRefreshToken lib t (tp_AccessToken p) cfg' store' s = (s, Inl e)"
  by (rule ConsumeRefreshToken_wrong_type [OF assms(1) issued_tokens(1) [OF assms]
        RefreshClaims_of_access]) simp

lemma ConsumeRefreshToken_issued:
  assumes "jwt_documented lib" and "issue_ok now uuids sq cfg"
    and "GenerateTokenPairWithVersion lib now uuids u sq ver cfg store r = (r', Inr p)"
    and "t < (now + cfg_RefreshTTL (AuthConfig_Defaults cfg)) div Second * Second +
         max 0 (cfg_ClockSkew cfg)"
    and "snd uuids \<noteq> ''''"
    and "rt_Consume st (snd uuids) t s = (s', Inr (Some \<lparr>rm_UserID = u, rm_Sequence = sq\<rparr>))"
  shows "ConsumeRefreshToken lib t (tp_RefreshToken p) cfg (Some st) s =
     (s', Inr (issued_refresh lib now uuids u sq cfg))"
proof -
  let ?c = "issued_refresh lib now uuids u sq cfg"
  have "ParseWithClaims lib RefreshClaims_of (tp_RefreshToken p) (any_keyfunc (cfg_Secret cfg))
      (max 0 (cfg_ClockSkew cfg)) t = Inr (?c, True)"
    using issued_tokens [OF assms(1-3)] assms(4)
    by (auto simp: ParseWithClaims_iff [OF assms(1)] any_keyfunc_def issued_in_time [OF assms(1)]
        simp del: AuthConfig_Defaults_fields)
  with issued_tokens(5) [OF assms(1-3)] assms(5,6) show ?thesis
    by (simp add: ConsumeRefreshToken_def Let_def)
qed

section \<open>Session versions\<close>

lemma VerifyAccessTokenWithVersion_Inr_iff:
  "VerifyAccessTokenWithVersion lib now tok cfg blocklist store r = Inr c \<longleftrightarrow>
     VerifyAccessToken lib now tok cfg blocklist r = Inr c \<and>
     (case store of
        None \<Rightarrow> True
      | Some vs \<Rightarrow>
          (case sv_Get vs (ac_UserID c) now r of
             (current, err) \<Rightarrow>
               (case err of None \<Rightarrow> True | Some e \<Rightarrow> strings_Contains (error_text e) ''nil'') \<and>
               (sint current \<le> 0 \<or> ac_SessionVersion c = current)))"
  by (auto simp: VerifyAccessTokenWithVersion_def not_less
      split: sum.splits option.splits prod.splits if_splits)

end
