(* ===== verification/Token_Contracts.thy ===== *)
theory Token_Contracts
  imports Token_Laws
begin

text \<open>
  The token functions as clients of the store contracts: a refresh token is worth one
  consumption in any run of the service, and a revoked access token nothing until it expires.
\<close>

section \<open>Runs of the token service\<close>

text \<open>What a service does over time with one configuration and one refresh store: it issues pairs
  and consumes refresh tokens that clients present, at the instants given.\<close>

datatype token_op =
    Issue nanos "string \<times> string" i64 string i64
  | Consume nanos string

fun op_time :: "token_op \<Rightarrow> nanos" where
  "op_time (Issue now uuids u sq ver) = now"
| "op_time (Consume now tok) = now"

fun op_issues :: "token_op \<Rightarrow> string list" where
  "op_issues (Issue now uuids u sq ver) = [snd uuids]"
| "op_issues (Consume now tok) = []"

text \<open>One operation; the list is the identifier of the refresh token it consumed, if it did.\<close>

fun token_step ::
  "jwt_lib \<Rightarrow> AuthConfig \<Rightarrow> 'r RefreshTokenStore \<Rightarrow> token_op \<Rightarrow> 'r \<Rightarrow> 'r \<times> string list" where
  "token_step lib cfg st (Issue now uuids u sq ver) r =
     (fst (GenerateTokenPairWithVersion lib now uuids u sq ver cfg (Some st) r), [])"
| "token_step lib cfg st (Consume now tok) r =
     (case ConsumeRefreshToken lib now tok cfg (Some st) r of
        (r', Inl e) \<Rightarrow> (r', [])
      | (r', Inr c) \<Rightarrow> (r', [rg_ID (rfc_RegisteredClaims c)]))"

fun token_run ::
  "jwt_lib \<Rightarrow> AuthConfig \<Rightarrow> 'r RefreshTokenStore \<Rightarrow> token_op list \<Rightarrow> 'r \<Rightarrow> string list" where
  "token_run lib cfg st [] r = []"
| "token_run lib cfg st (op # ops) r =
     (case token_step lib cfg st op r of (r', js) \<Rightarrow> js @ token_run lib cfg st ops r')"

lemma GenerateTokenPairWithVersion_store:
  "fst (GenerateTokenPairWithVersion lib now uuids u sq ver cfg (Some st) r) \<in>
     {r, fst (rt_Save st (snd uuids) \<lparr>rm_UserID = u, rm_Sequence = sq\<rparr>
            (cfg_RefreshTTL (AuthConfig_Defaults cfg)) now r)}"
  by (cases uuids)
     (auto simp: GenerateTokenPairWithVersion_def Let_def split: sum.splits prod.splits option.splits)

lemma ConsumeRefreshToken_store:
  "fst (ConsumeRefreshToken lib now tok cfg (Some st) r) = r \<or>
     (\<exists>jti. fst (ConsumeRefreshToken lib now tok cfg (Some st) r) = fst (rt_Consume st jti now r))"
  by (auto simp: ConsumeRefreshToken_def Let_def split: sum.split prod.split option.split)
     (metis fst_conv)+

section \<open>Clients of the refresh store\<close>

context refresh_contract begin

text \<open>An identifier is spent when the store will not hold it again by itself.\<close>

definition spent :: "'h \<Rightarrow> 'r \<Rightarrow> nanos \<Rightarrow> string \<Rightarrow> bool" where
  "spent h r now jti \<longleftrightarrow> (\<forall>t \<ge> now. stored h r t jti = None)"

lemma spent_later: "spent h r now jti \<Longrightarrow> now \<le> t \<Longrightarrow> spent h r t jti"
  by (simp add: spent_def)

lemma spent_consume:
  assumes "lawful h" and "spent h r now jti"
  shows "spent h (fst (rt_Consume (iface h) j t r)) now jti"
proof (cases "j = jti")
  case True
  then show ?thesis
    using assms(2) consume_shrinks [OF assms(1), of j t r] by (force simp: spent_def)
next
  case False
  then show ?thesis
    using assms consume_frame [OF assms(1), of jti j t r] by (simp add: spent_def)
qed

lemma spent_step:
  assumes "lawful h" and "spent h r now jti" and "jti \<notin> set (op_issues op)"
  shows "spent h (fst (token_step lib cfg (iface h) op r)) now jti"
proof (cases op)
  case (Issue t uuids u sq ver)
  with assms(3) have "jti \<noteq> snd uuids" by simp
  with assms(2) save_frame [OF assms(1) this] show ?thesis
    using GenerateTokenPairWithVersion_store [of lib t uuids u sq ver cfg "iface h" r]
    by (auto simp: Issue spent_def)
next
  case (Consume t tok)
  have "fst (token_step lib cfg (iface h) op r) = fst (ConsumeRefreshToken lib t tok cfg (Some (iface h)) r)"
    by (simp add: Consume split: prod.splits sum.splits)
  with ConsumeRefreshToken_store [of lib t tok cfg "iface h" r] show ?thesis
    using assms spent_consume [OF assms(1,2)] by auto
qed

lemma step_consumes:
  assumes "jwt_documented lib" and "lawful h" and "token_step lib cfg (iface h) op r = (r', js)"
    and "jti \<in> set js"
  shows "js = [jti]" and "\<not> spent h r (op_time op) jti" and "spent h r' (op_time op) jti"
    and "op_issues op = []"
proof -
  from assms(3,4) obtain now tok c where op: "op = Consume now tok"
    "ConsumeRefreshToken lib now tok cfg (Some (iface h)) r = (r', Inr c)"
    "js = [rg_ID (rfc_RegisteredClaims c)]"
    by (cases op) (auto split: prod.splits sum.splits)
  with assms(4) have jti: "rg_ID (rfc_RegisteredClaims c) = jti" by simp
  from op(2) jti obtain mo where mo: "rt_Consume (iface h) jti now r = (r', Inr mo)"
    by (auto elim: ConsumeRefreshToken_cases [OF assms(1)])
  show "js = [jti]" "op_issues op = []" using op jti by simp_all
  show "\<not> spent h r (op_time op) jti"
    using consume_stored [OF assms(2) mo] op(1) by (auto simp: spent_def)
  show "spent h r' (op_time op) jti"
    using consume_removes [OF assms(2) mo] op(1) by (simp add: spent_def)
qed

text \<open>In a run that starts with none of its new identifiers in the store and never draws one
  twice, no identifier is consumed twice.\<close>

lemma run_consumes_once:
  assumes "jwt_documented lib" and "lawful h" and "sorted (map op_time ops)"
    and "distinct (concat (map op_issues ops))"
    and "\<And>op. op \<in> set ops \<Longrightarrow> now \<le> op_time op"
    and "\<And>j. j \<in> set (concat (map op_issues ops)) \<union> used \<Longrightarrow> spent h r now j"
    and "used \<inter> set (concat (map op_issues ops)) = {}"
  shows "distinct (token_run lib cfg (iface h) ops r) \<and>
    set (token_run lib cfg (iface h) ops r) \<inter> used = {}"
  using assms(3-)
proof (induction ops arbitrary: r now used)
  case (Cons op ops)
  obtain r' js where step: "token_step lib cfg (iface h) op r = (r', js)"
    by (cases "token_step lib cfg (iface h) op r")
  let ?t = "op_time op"
  have t: "now \<le> ?t" using Cons.prems(3) by simp
  have keep: "spent h r' ?t j" if "spent h r now j" "j \<notin> set (op_issues op)" for j
    using spent_step [OF assms(2) spent_later [OF that(1) t] that(2)] step by (metis fst_conv)
  have js: "length js \<le> 1"
    using step by (cases op) (auto split: prod.splits sum.splits)
  have fresh: "j \<notin> used \<union> set (concat (map op_issues (op # ops)))" "spent h r' ?t j"
    "op_issues op = []" if "j \<in> set js" for j
    using step_consumes [OF assms(1,2) step that] Cons.prems(4) [of j] spent_later [OF _ t]
    by (simp_all, blast)
  have "distinct (token_run lib cfg (iface h) ops r') \<and>
      set (token_run lib cfg (iface h) ops r') \<inter> (used \<union> set js) = {}"
  proof (rule Cons.IH [of ?t])
    show "sorted (map op_time ops)" "distinct (concat (map op_issues ops))"
      using Cons.prems(1,2) by simp_all
    show "?t \<le> op_time o'" if "o' \<in> set ops" for o'
      using Cons.prems(1) that by simp
    show "spent h r' ?t j" if "j \<in> set (concat (map op_issues ops)) \<union> (used \<union> set js)" for j
    proof (cases "j \<in> set js")
      case True
      then show ?thesis by (rule fresh(2))
    next
      case False
      with that have j: "j \<in> set (concat (map op_issues ops)) \<union> used" by blast
      moreover have "j \<notin> set (op_issues op)"
        using j Cons.prems(2,5) by auto
      ultimately show ?thesis using Cons.prems(4) [of j] by (intro keep) auto
    qed
    show "(used \<union> set js) \<inter> set (concat (map op_issues ops)) = {}"
      using fresh(1) Cons.prems(5) by auto
  qed
  moreover have "distinct js" using js by (cases js) (auto simp: le_Suc_eq)
  moreover have "set js \<inter> used = {}" using fresh(1) by blast
  ultimately show ?case using step by auto
qed simp

text \<open>Until its record expires, an unused refresh token yields the claims it was issued with,
  whenever the store answers.\<close>

lemma issued_refresh_consumed:
  assumes "jwt_documented lib" and "lawful h" and "issue_ok now uuids sq cfg"
    and "storable \<lparr>rm_UserID = u, rm_Sequence = sq\<rparr>" and "snd uuids \<noteq> ''''"
    and "GenerateTokenPairWithVersion lib now uuids u sq ver cfg (Some (iface h)) r = (r', Inr p)"
    and "now \<le> t" and "t + Second \<le> now + cfg_RefreshTTL (AuthConfig_Defaults cfg)"
    and "rt_Consume (iface h) (snd uuids) t r' = (r'', Inr mo)"
  shows "ConsumeRefreshToken lib t (tp_RefreshToken p) cfg (Some (iface h)) r' =
    (r'', Inr (issued_refresh lib now uuids u sq cfg))"
proof -
  let ?ttl = "cfg_RefreshTTL (AuthConfig_Defaults cfg)"
  have save: "rt_Save (iface h) (snd uuids) \<lparr>rm_UserID = u, rm_Sequence = sq\<rparr> ?ttl now r = (r', None)"
    by (rule GenerateTokenPairWithVersion_cases [OF assms(6)]) simp
  have "stored h r' t (snd uuids) = Some \<lparr>rm_UserID = u, rm_Sequence = sq\<rparr>"
    by (rule save_stored [OF assms(2,4) save assms(7)]) (use assms(8) in simp)
  with consume_stored [OF assms(2,9)] have mo: "mo = Some \<lparr>rm_UserID = u, rm_Sequence = sq\<rparr>"
    by simp
  have "t < (now + ?ttl) div Second * Second + max 0 (cfg_ClockSkew cfg)"
    using assms(8) div_mult_mod_eq [of "now + ?ttl" Second] pos_mod_bound [of Second "now + ?ttl"]
    by linarith
  from ConsumeRefreshToken_issued [OF assms(1,3,6) this assms(5) assms(9) [unfolded mo]]
  show ?thesis .
qed

end

section \<open>Clients of the blocklist\<close>

lemma RevokeAccessToken_None:
  assumes "RevokeAccessToken now (Some c) cfg (Some bl) r = (r', None)"
    and "rg_ExpiresAt (ac_RegisteredClaims c) = Some e" and "now < e"
  shows "bl_Block bl (rg_ID (ac_RegisteredClaims c)) (time_Until e now) now r = (r', None)"
    and "rg_ID (ac_RegisteredClaims c) \<noteq> ''''"
  using assms time_Until_pos [of e now]
  by (auto simp: RevokeAccessToken_def Let_def split: if_splits)

context blocklist_contract begin

text \<open>A revoked token is refused as long as its entry is kept: up to the last millisecond before
  the expiry in its claims.\<close>

lemma revoked_refused:
  assumes "jwt_documented lib" and "lawful h"
    and "RevokeAccessToken now (Some c) cfg (Some (iface h)) r = (r', None)"
    and "rg_ExpiresAt (ac_RegisteredClaims c) = Some e" and "e - now \<le> MaxDuration"
    and "now \<le> t" and "t + Millisecond \<le> e"
    and "VerifyAccessToken lib t tok cfg' (Some (iface h)) r' = Inr c'"
  shows "rg_ID (ac_RegisteredClaims c') \<noteq> rg_ID (ac_RegisteredClaims c)"
proof
  assume same: "rg_ID (ac_RegisteredClaims c') = rg_ID (ac_RegisteredClaims c)"
  have e: "now < e" using assms(6,7) by simp
  note block = RevokeAccessToken_None [OF assms(3,4) e]
  have "now + time_Until e now = e"
    using time_Until_exact [of now e] e assms(5) by simp
  then have "bl_IsBlocked (iface h) (rg_ID (ac_RegisteredClaims c)) t r' \<noteq> Inr False"
    by (intro blocked_not_cleared [OF assms(2) block assms(6)]) (use assms(7) in simp)
  moreover from assms(8) have "not_blocked (Some (iface h)) c' t r'"
    by (simp add: VerifyAccessToken_Inr_iff [OF assms(1)])
  ultimately show False
    using block(2) by (simp add: not_blocked_def same)
qed

text \<open>Revoking one token leaves every other one as it was.\<close>

lemma revoke_frame:
  assumes "lawful h"
    and "RevokeAccessToken now (Some c) cfg (Some (iface h)) r = (r', None)"
    and "rg_ExpiresAt (ac_RegisteredClaims c) = Some e" and "now + Millisecond \<le> e"
    and "jti \<noteq> rg_ID (ac_RegisteredClaims c)"
  shows "blocked h r' t jti = blocked h r t jti"
proof -
  have "Millisecond \<le> time_Until e now"
    using assms(4) by (simp add: time_Until_def)
  from block_frame [OF assms(1) _ this assms(5)] RevokeAccessToken_None(1) [OF assms(2,3)] assms(4)
  show ?thesis by simp
qed

text \<open>The entry goes at the expiry, while the verification still allows for the clock skew.\<close>

lemma revoked_accepted_in_skew:
  assumes "jwt_documented lib" and "lawful h" and "issue_ok now uuids sq cfg"
    and "fst uuids \<noteq> ''''"
    and "GenerateTokenPairWithVersion lib now uuids u sq ver cfg store r = (r', Inr p)"
    and "c = issued_access lib now uuids u sq ver cfg"
    and "e = (now + cfg_AccessTTL (AuthConfig_Defaults cfg)) div Second * Second"
    and "RevokeAccessToken t (Some c) cfg (Some (iface h)) s = (s', None)"
    and "t + Millisecond \<le> e" and "e \<le> t'" and "t' < e + cfg_ClockSkew cfg"
    and "bl_IsBlocked (iface h) (fst uuids) t' s' = Inr b"
  shows "VerifyAccessToken lib t' (tp_AccessToken p) cfg (Some (iface h)) s' = Inr c"
proof -
  have exp: "rg_ExpiresAt (ac_RegisteredClaims c) = Some e"
    using assms(1) by (simp add: assms(6,7) issued_access_def access_claims_def jwt_documented_def
        minus_mod_eq_div_mult)
  have ms: "Millisecond \<le> time_Until e t"
    using assms(9) by (simp add: time_Until_def)
  from RevokeAccessToken_None(1) [OF assms(8) exp] assms(9)
  have "bl_Block (iface h) (rg_ID (ac_RegisteredClaims c)) (time_Until e t) t s = (s', None)" by simp
  moreover have "t + time_Until e t \<le> t'"
    using time_Until_le [of t e] assms(9,10) by simp
  ultimately have "\<not> blocked h s' t' (fst uuids)"
    using block_lapses [OF assms(2) _ ms] assms(6) by simp
  with isblocked_sound [OF assms(2,12,4)] assms(12) have "not_blocked (Some (iface h)) c t' s'"
    by (simp add: not_blocked_def assms(6))
  moreover have "t' < e + max 0 (cfg_ClockSkew cfg)"
    using assms(11) max.cobounded2 [of "cfg_ClockSkew cfg" 0] by linarith
  ultimately show ?thesis
    using assms(6,7)
    by (simp add: issued_access_accepted [OF assms(1,3,5)] del: AuthConfig_Defaults_fields)
qed

end

end
