(* ===== verification/Simple_Token.thy ===== *)
theory Simple_Token
  imports Token_Laws
begin

text \<open>
  \<open>pkg/auth/simple_token.go\<close>: one access token per user, invalidated by a per-user version
  number. A login counts the version up, so that only the newest token is worth anything; the
  laws about that are proved inside the contract of the version store.
\<close>

section \<open>Configuration and claims\<close>

record SimpleTokenConfig =
  sc_Secret :: string
  sc_TTL :: nanos
  sc_ClockSkew :: nanos

definition SimpleTokenConfig_Defaults :: "SimpleTokenConfig \<Rightarrow> SimpleTokenConfig" where
  "SimpleTokenConfig_Defaults c =
     c\<lparr>sc_TTL := (if sc_TTL c \<le> 0 then 7 * 24 * Hour else sc_TTL c),
       sc_ClockSkew := (if sc_ClockSkew c < 0 then 0 else sc_ClockSkew c)\<rparr>"

definition simple_config_complete :: "SimpleTokenConfig \<Rightarrow> bool" where
  "simple_config_complete c \<longleftrightarrow> 0 < sc_TTL c \<and> 0 \<le> sc_ClockSkew c"

lemma SimpleTokenConfig_Defaults_fields [simp]:
  "sc_Secret (SimpleTokenConfig_Defaults c) = sc_Secret c"
  "sc_TTL (SimpleTokenConfig_Defaults c) = default_pos (7 * 24 * Hour) (sc_TTL c)"
  "sc_ClockSkew (SimpleTokenConfig_Defaults c) = max 0 (sc_ClockSkew c)"
  by (simp_all add: SimpleTokenConfig_Defaults_def default_pos_def)

interpretation simple_config:
  defaulting "\<lambda>_. True" "\<lambda>_ :: unit. SimpleTokenConfig_Defaults" simple_config_complete
proof
  show "simple_config_complete (SimpleTokenConfig_Defaults c)" for c
    by (simp add: simple_config_complete_def)
  show "SimpleTokenConfig_Defaults c = c" if "simple_config_complete c" for c
    using that by (simp add: SimpleTokenConfig_Defaults_def simple_config_complete_def)
qed

record SimpleTokenClaims =
  stc_UserID :: i64
  stc_Sequence :: string
  stc_Version :: i64
  stc_RegisteredClaims :: RegisteredClaims

record SimpleTokenResult =
  str_Token :: string
  str_ExpiresAt :: nanos
  str_ExpiresIn :: int
  str_Version :: i64

definition SimpleTokenClaims_payload :: "SimpleTokenClaims \<Rightarrow> payload" where
  "SimpleTokenClaims_payload c =
     \<lparr>pl_members =
        [''uid'' \<mapsto> JInt (sint (stc_UserID c)), ''seq'' \<mapsto> JStr (stc_Sequence c),
         ''ver'' \<mapsto> JInt (sint (stc_Version c))],
      pl_registered = stc_RegisteredClaims c\<rparr>"

definition SimpleTokenClaims_of :: "payload \<Rightarrow> SimpleTokenClaims go_result" where
  "SimpleTokenClaims_of pl =
     go_bind (json_i64 pl ''uid'') (\<lambda>u.
     go_bind (json_str pl ''seq'') (\<lambda>s.
     go_bind (json_i64 pl ''ver'') (\<lambda>v.
       Inr \<lparr>stc_UserID = u, stc_Sequence = s, stc_Version = v,
            stc_RegisteredClaims = pl_registered pl\<rparr>)))"

lemma SimpleTokenClaims_roundtrip [simp]:
  "SimpleTokenClaims_of (SimpleTokenClaims_payload c) = Inr c"
  using sint_bounds_i64 [of "stc_UserID c"] sint_bounds_i64 [of "stc_Version c"]
  by (simp add: SimpleTokenClaims_of_def SimpleTokenClaims_payload_def json_i64_def json_str_def)

text \<open>An access token has none of these members: read as a simple token it is user 0 at version 0.\<close>

lemma SimpleTokenClaims_of_access:
  "SimpleTokenClaims_of (AccessClaims_payload c) =
     Inr \<lparr>stc_UserID = 0, stc_Sequence = '''', stc_Version = 0,
          stc_RegisteredClaims = ac_RegisteredClaims c\<rparr>"
  by (simp add: SimpleTokenClaims_of_def AccessClaims_payload_def json_i64_def json_str_def Let_def)

section \<open>Operations\<close>

definition simple_claims ::
  "jwt_lib \<Rightarrow> nanos \<Rightarrow> string \<Rightarrow> i64 \<Rightarrow> string \<Rightarrow> i64 \<Rightarrow> SimpleTokenConfig \<Rightarrow> SimpleTokenClaims" where
  "simple_claims lib now uuid userID sequence version cfg =
     \<lparr>stc_UserID = userID, stc_Sequence = sequence, stc_Version = version,
      stc_RegisteredClaims =
        \<lparr>rg_Subject = string_of_int (sint userID), rg_ID = uuid,
         rg_IssuedAt = Some (jwt_NewNumericDate lib now), rg_NotBefore = None,
         rg_ExpiresAt = Some (jwt_NewNumericDate lib (now + sc_TTL cfg))\<rparr>\<rparr>"

definition GenerateSimpleToken ::
  "jwt_lib \<Rightarrow> nanos \<Rightarrow> string \<Rightarrow> i64 \<Rightarrow> string \<Rightarrow> SimpleTokenConfig \<Rightarrow> 'r TokenVersionStore option \<Rightarrow>
     'r \<Rightarrow> 'r \<times> SimpleTokenResult go_result" where
  "GenerateSimpleToken lib now uuid userID sequence cfg store r =
     (let cfg = SimpleTokenConfig_Defaults cfg
      in if sc_Secret cfg = '''' then (r, Inl (ErrorsNew ''jwt secret is empty''))
         else
           (case store of
              None \<Rightarrow> (r, Inl (ErrorsNew ''token version store is required''))
            | Some st \<Rightarrow>
                (case tv_IncrVersion st userID now r of
                   (r', Inl err) \<Rightarrow>
                     (r', Inl (ErrWrap ''failed to increment token version'' err))
                 | (r', Inr version) \<Rightarrow>
                     (let expiresAt = now + sc_TTL cfg;
                          claims = simple_claims lib now uuid userID sequence version cfg
                      in case jwt_SignedString lib (HMAC ''HS256'')
                                (SimpleTokenClaims_payload claims) (sc_Secret cfg) of
                           Inl err \<Rightarrow> (r', Inl (ErrWrap ''failed to sign token'' err))
                         | Inr tokenStr \<Rightarrow>
                             (r', Inr \<lparr>str_Token = tokenStr, str_ExpiresAt = expiresAt,
                                       str_ExpiresIn = int64_Seconds (sc_TTL cfg),
                                       str_Version = version\<rparr>)))))"

definition VerifySimpleToken ::
  "jwt_lib \<Rightarrow> nanos \<Rightarrow> string \<Rightarrow> SimpleTokenConfig \<Rightarrow> 'r TokenVersionStore option \<Rightarrow> 'r \<Rightarrow>
     SimpleTokenClaims go_result" where
  "VerifySimpleToken lib now tokenStr cfg store r =
     (let cfg = SimpleTokenConfig_Defaults cfg
      in if sc_Secret cfg = '''' then Inl (ErrorsNew ''jwt secret is empty'')
         else
           (case store of
              None \<Rightarrow> Inl (ErrorsNew ''token version store is required'')
            | Some st \<Rightarrow>
                (case ParseWithClaims lib SimpleTokenClaims_of tokenStr
                        (hmac_keyfunc (sc_Secret cfg)) (sc_ClockSkew cfg) now of
                   Inl err \<Rightarrow> Inl err
                 | Inr (claims, valid) \<Rightarrow>
                     if \<not> valid then Inl (ErrorsNew ''invalid token'')
                     else
                       (case tv_GetVersion st (stc_UserID claims) now r of
                          (currentVersion, Some err) \<Rightarrow>
                            Inl (ErrWrap ''failed to get token version'' err)
                        | (currentVersion, None) \<Rightarrow>
                            if stc_Version claims \<noteq> currentVersion
                            then Inl (ErrorsNew ''token invalidated (logged in elsewhere)'')
                            else Inr claims))))"

definition RevokeSimpleToken ::
  "nanos \<Rightarrow> i64 \<Rightarrow> 'r TokenVersionStore option \<Rightarrow> 'r \<Rightarrow> 'r \<times> go_error option" where
  "RevokeSimpleToken now userID store r =
     (case store of
        None \<Rightarrow> (r, Some (ErrorsNew ''token version store is required''))
      | Some st \<Rightarrow>
          (case tv_IncrVersion st userID now r of
             (r', Inl err) \<Rightarrow> (r', Some err)
           | (r', Inr _) \<Rightarrow> (r', None)))"

definition ParseSimpleTokenUnverified :: "jwt_lib \<Rightarrow> string \<Rightarrow> SimpleTokenClaims go_result" where
  "ParseSimpleTokenUnverified lib tokenStr =
     go_bind (jwt_ParseUnverified lib tokenStr) (\<lambda>(m, pl). SimpleTokenClaims_of pl)"

section \<open>Acceptance\<close>

lemma VerifySimpleToken_Inr_iff:
  assumes "jwt_documented lib"
  shows "VerifySimpleToken lib now tok cfg (Some st) r = Inr c \<longleftrightarrow>
     (\<exists>alg pl. genuine lib now tok (sc_Secret cfg) (sc_ClockSkew cfg) (HMAC alg) pl \<and>
        SimpleTokenClaims_of pl = Inr c) \<and>
     tv_GetVersion st (stc_UserID c) now r = (stc_Version c, None)"
proof (cases "ParseWithClaims lib SimpleTokenClaims_of tok (hmac_keyfunc (sc_Secret cfg))
                (max 0 (sc_ClockSkew cfg)) now")
  case (Inl e)
  have "\<not> (genuine lib now tok (sc_Secret cfg) (sc_ClockSkew cfg) (HMAC alg) pl \<and>
            SimpleTokenClaims_of pl = Inr c)" for alg pl
    using ParseWithClaims_iff [OF assms, of SimpleTokenClaims_of tok "hmac_keyfunc (sc_Secret cfg)"
        "max 0 (sc_ClockSkew cfg)" now c True] Inl
    by (auto simp: genuine_def hmac_keyfunc_def split: signing_method.splits)
  with Inl show ?thesis
    by (auto simp: VerifySimpleToken_def Let_def)
next
  case (Inr cv)
  obtain c' v where cv: "cv = (c', v)" by (cases cv)
  from Inr cv ParseWithClaims_iff [OF assms, of SimpleTokenClaims_of tok
      "hmac_keyfunc (sc_Secret cfg)" "max 0 (sc_ClockSkew cfg)" now c' v]
  obtain m pl key where a: "v" "jwt_ParseUnverified lib tok = Inr (m, pl)"
    "hmac_keyfunc (sc_Secret cfg) m = Inr key" "jwt_verifies lib m key tok"
    "in_time pl (max 0 (sc_ClockSkew cfg)) now" "SimpleTokenClaims_of pl = Inr c'"
    by auto
  then obtain alg where m: "m = HMAC alg" "key = sc_Secret cfg"
    by (auto simp: hmac_keyfunc_def split: signing_method.splits)
  from a m Inr cv show ?thesis
    by (auto simp: VerifySimpleToken_def Let_def genuine_def
        split: option.splits sum.splits prod.splits if_splits)
qed

text \<open>A token that verifies also parses without verification, to the same claims.\<close>

lemma VerifySimpleToken_parses:
  assumes "jwt_documented lib" and "VerifySimpleToken lib now tok cfg store r = Inr c"
  shows "ParseSimpleTokenUnverified lib tok = Inr c"
proof -
  from assms(2) obtain st where "store = Some st"
    by (auto simp: VerifySimpleToken_def Let_def split: if_splits option.splits)
  with assms(2) show ?thesis
    by (auto simp: VerifySimpleToken_Inr_iff [OF assms(1)] ParseSimpleTokenUnverified_def
        genuine_def)
qed

section \<open>Issued tokens\<close>

definition simple_issue_ok :: "nanos \<Rightarrow> string \<Rightarrow> string \<Rightarrow> SimpleTokenConfig \<Rightarrow> bool" where
  "simple_issue_ok now uuid sequence cfg \<longleftrightarrow>
     ascii uuid \<and> ascii sequence \<and> 0 \<le> now \<and>
     now + sc_TTL (SimpleTokenConfig_Defaults cfg) \<le> 2 ^ 53 * Second"

definition issued_simple ::
  "jwt_lib \<Rightarrow> nanos \<Rightarrow> string \<Rightarrow> i64 \<Rightarrow> string \<Rightarrow> i64 \<Rightarrow> SimpleTokenConfig \<Rightarrow> SimpleTokenClaims" where
  "issued_simple lib now uuid u sq ver cfg =
     simple_claims lib now uuid u sq ver (SimpleTokenConfig_Defaults cfg)"

lemma issued_simple_fields [simp]:
  "stc_UserID (issued_simple lib now uuid u sq ver cfg) = u"
  "stc_Sequence (issued_simple lib now uuid u sq ver cfg) = sq"
  "stc_Version (issued_simple lib now uuid u sq ver cfg) = ver"
  by (simp_all add: issued_simple_def simple_claims_def)

lemma GenerateSimpleToken_cases:
  assumes "GenerateSimpleToken lib now uuid u sq cfg store r = (r', Inr res)"
  obtains st where "store = Some st" and "sc_Secret cfg \<noteq> ''''"
    and "tv_IncrVersion st u now r = (r', Inr (str_Version res))"
    and "jwt_SignedString lib (HMAC ''HS256'')
           (SimpleTokenClaims_payload (issued_simple lib now uuid u sq (str_Version res) cfg))
           (sc_Secret cfg) = Inr (str_Token res)"
    and "str_ExpiresAt res = now + sc_TTL (SimpleTokenConfig_Defaults cfg)"
    and "str_ExpiresIn res = int64_Seconds (sc_TTL (SimpleTokenConfig_Defaults cfg))"
  using assms
  by (auto simp: GenerateSimpleToken_def issued_simple_def Let_def
      split: sum.splits prod.splits option.splits if_splits)

lemma issued_simple_token:
  assumes "jwt_documented lib" and "simple_issue_ok now uuid sq cfg"
    and "GenerateSimpleToken lib now uuid u sq cfg store r = (r', Inr res)"
  shows "jwt_ParseUnverified lib (str_Token res) =
           Inr (HMAC ''HS256'',
             SimpleTokenClaims_payload (issued_simple lib now uuid u sq (str_Version res) cfg))"
    and "jwt_verifies lib (HMAC ''HS256'') (sc_Secret cfg) (str_Token res)"
    and "sc_Secret cfg \<noteq> ''''"
proof -
  let ?pl = "SimpleTokenClaims_payload (issued_simple lib now uuid u sq (str_Version res) cfg)"
  have date: "jwt_NewNumericDate lib t = t - t mod Second" for t
    using assms(1) by (simp add: jwt_documented_def)
  have ttl: "0 < sc_TTL (SimpleTokenConfig_Defaults cfg)" by simp
  from assms(2) ttl have "date_exact (Some (jwt_NewNumericDate lib now))"
    "date_exact (Some (jwt_NewNumericDate lib (now + sc_TTL (SimpleTokenConfig_Defaults cfg))))"
    unfolding date simple_issue_ok_def by (intro date_exact_truncated; linarith)+
  moreover have "date_exact None" by (simp add: date_exact_def)
  ultimately have plain: "payload_plain ?pl"
    using assms(2)
    by (auto simp del: SimpleTokenConfig_Defaults_fields
        simp: payload_plain_def SimpleTokenClaims_payload_def issued_simple_def simple_claims_def
        simple_issue_ok_def split: if_splits)
  have sign: "jwt_ParseUnverified lib tok = Inr (m, ?pl) \<and> jwt_verifies lib m key tok"
    if "jwt_SignedString lib m ?pl key = Inr tok" for m key tok
    using assms(1) that plain unfolding jwt_documented_def by blast
  show "jwt_ParseUnverified lib (str_Token res) = Inr (HMAC ''HS256'', ?pl)"
    "jwt_verifies lib (HMAC ''HS256'') (sc_Secret cfg) (str_Token res)" "sc_Secret cfg \<noteq> ''''"
    by (rule GenerateSimpleToken_cases [OF assms(3)], use sign in blast)+
qed

lemma issued_simple_in_time:
  assumes "jwt_documented lib"
  shows "in_time (SimpleTokenClaims_payload (issued_simple lib now uuid u sq ver cfg)) skew t \<longleftrightarrow>
     t < (now + sc_TTL (SimpleTokenConfig_Defaults cfg)) div Second * Second + skew"
  using assms
  by (simp add: in_time_def SimpleTokenClaims_payload_def issued_simple_def simple_claims_def
      jwt_documented_def minus_mod_eq_div_mult)

text \<open>An issued token is accepted exactly while it is in time and its version is the user's.\<close>

lemma issued_simple_accepted:
  assumes "jwt_documented lib" and "simple_issue_ok now uuid sq cfg"
    and "GenerateSimpleToken lib now uuid u sq cfg store r = (r', Inr res)"
  shows "VerifySimpleToken lib t (str_Token res) cfg (Some st) s = Inr c \<longleftrightarrow>
     c = issued_simple lib now uuid u sq (str_Version res) cfg \<and>
     t < (now + sc_TTL (SimpleTokenConfig_Defaults cfg)) div Second * Second +
         max 0 (sc_ClockSkew cfg) \<and>
     tv_GetVersion st u t s = (str_Version res, None)"
  using issued_simple_token [OF assms]
  by (auto simp: VerifySimpleToken_Inr_iff [OF assms(1)] genuine_def
      issued_simple_in_time [OF assms(1)] simp del: SimpleTokenConfig_Defaults_fields)

text \<open>An issued access token of the other kind passes for user 0 when the secret is shared.\<close>

lemma access_token_is_simple_token:
  assumes "jwt_documented lib" and "issue_ok now uuids sq cfg"
    and "GenerateTokenPairWithVersion lib now uuids u sq ver cfg store r = (r', Inr p)"
    and "sc_Secret scfg = cfg_Secret cfg" and "0 \<le> sc_ClockSkew scfg"
    and "t < (now + cfg_AccessTTL (AuthConfig_Defaults cfg)) div Second * Second"
    and "tv_GetVersion st 0 t s = (0, None)"
  shows "\<exists>c. VerifySimpleToken lib t (tp_AccessToken p) scfg (Some st) s = Inr c \<and> stc_UserID c = 0"
proof -
  let ?pl = "AccessClaims_payload (issued_access lib now uuids u sq ver cfg)"
  have "in_time ?pl (max 0 (sc_ClockSkew scfg)) t"
    using assms(5,6) by (simp add: issued_in_time [OF assms(1)] del: AuthConfig_Defaults_fields)
  with issued_tokens(1,2,5) [OF assms(1-3)] assms(4)
  have "genuine lib t (tp_AccessToken p) (sc_Secret scfg) (sc_ClockSkew scfg) (HMAC ''HS256'') ?pl"
    by (simp add: genuine_def)
  moreover let ?c = "\<lparr>stc_UserID = 0, stc_Sequence = '''', stc_Version = 0,
    stc_RegisteredClaims = ac_RegisteredClaims (issued_access lib now uuids u sq ver cfg)\<rparr>"
  have "SimpleTokenClaims_of ?pl = Inr ?c"
    by (rule SimpleTokenClaims_of_access)
  ultimately have "VerifySimpleToken lib t (tp_AccessToken p) scfg (Some st) s = Inr ?c"
    using assms(7) by (auto simp: VerifySimpleToken_Inr_iff [OF assms(1)])
  then show ?thesis by auto
qed

section \<open>Clients of the version store\<close>

context version_contract begin

lemma login_incr:
  assumes "GenerateSimpleToken lib now uuid u sq cfg (Some (iface h)) r = (r', Inr res)"
  shows "tv_IncrVersion (iface h) u now r = (r', Inr (str_Version res))"
  by (rule GenerateSimpleToken_cases [OF assms]) simp

text \<open>After a login, whatever token of the user is accepted carries the version of that login,
  unless the store has forgotten the user.\<close>

lemma newest_login_only:
  assumes "jwt_documented lib" and "lawful h" and "sane h r"
    and "GenerateSimpleToken lib now uuid u sq cfg (Some (iface h)) r = (r', Inr res)"
    and "now \<le> t" and "version h r' t u \<noteq> 0"
    and "VerifySimpleToken lib t tok cfg' (Some (iface h)) r' = Inr c" and "stc_UserID c = u"
  shows "stc_Version c = str_Version res"
proof -
  note incr = login_incr [OF assms(4)]
  from assms(7,8) have "tv_GetVersion (iface h) u t r' = (stc_Version c, None)"
    by (simp add: VerifySimpleToken_Inr_iff [OF assms(1)])
  then have "sint (stc_Version c) = version h r' t u"
    by (rule get_sound [OF assms(2) incr_sane [OF assms(2,3) incr]])
  also have "\<dots> = sint (str_Version res)"
    using version_after_incr [OF assms(2,3) incr assms(5)] assms(6) by simp
  finally show ?thesis by (simp add: signed_word_eqI)
qed

text \<open>The login itself is accepted, whenever the store answers and remembers.\<close>

lemma login_accepted:
  assumes "jwt_documented lib" and "lawful h" and "sane h r" and "simple_issue_ok now uuid sq cfg"
    and "GenerateSimpleToken lib now uuid u sq cfg (Some (iface h)) r = (r', Inr res)"
    and "now \<le> t" and "t + Second \<le> now + sc_TTL (SimpleTokenConfig_Defaults cfg)"
    and "version h r' t u \<noteq> 0" and "tv_GetVersion (iface h) u t r' = (v, None)"
  shows "VerifySimpleToken lib t (str_Token res) cfg (Some (iface h)) r' =
    Inr (issued_simple lib now uuid u sq (str_Version res) cfg)"
proof -
  note incr = login_incr [OF assms(5)]
  have "sint v = sint (str_Version res)"
    using get_sound [OF assms(2) incr_sane [OF assms(2,3) incr] assms(9)]
      version_after_incr [OF assms(2,3) incr assms(6)] assms(8) by simp
  with assms(9) have get: "tv_GetVersion (iface h) u t r' = (str_Version res, None)"
    by (simp add: signed_word_eqI)
  let ?e = "now + sc_TTL (SimpleTokenConfig_Defaults cfg)"
  have "t < ?e div Second * Second + max 0 (sc_ClockSkew cfg)"
    using assms(7) div_mult_mod_eq [of ?e Second] pos_mod_bound [of Second ?e] by linarith
  with get show ?thesis
    by (simp add: issued_simple_accepted [OF assms(1,4,5)] del: SimpleTokenConfig_Defaults_fields)
qed

text \<open>A second login of the same user ends the first one.\<close>

lemma second_login_ends:
  assumes "jwt_documented lib" and "lawful h" and "sane h r" and "simple_issue_ok now uuid sq cfg"
    and "GenerateSimpleToken lib now uuid u sq cfg (Some (iface h)) r = (r1, Inr res)"
    and "now \<le> now'" and "version h r1 now' u \<noteq> 0"
    and "GenerateSimpleToken lib now' uuid' u sq' cfg' (Some (iface h)) r1 = (r2, Inr res')"
    and "now' \<le> t" and "version h r2 t u \<noteq> 0"
  shows "VerifySimpleToken lib t (str_Token res) cfg (Some (iface h)) r2 \<noteq> Inr c"
proof
  assume v: "VerifySimpleToken lib t (str_Token res) cfg (Some (iface h)) r2 = Inr c"
  note incr = login_incr [OF assms(5)] login_incr [OF assms(8)]
  note sane1 = incr_sane [OF assms(2,3) incr(1)]
  from v have "c = issued_simple lib now uuid u sq (str_Version res) cfg"
    by (simp add: issued_simple_accepted [OF assms(1,4,5)])
  with newest_login_only [OF assms(1,2) sane1 assms(8-10) v]
  have "str_Version res = str_Version res'" by simp
  moreover have "sint (str_Version res') = version h r1 now' u + 1"
    using incr_sound [OF assms(2) sane1 incr(2)] by simp
  moreover have "version h r1 now' u = sint (str_Version res)"
    using version_after_incr [OF assms(2,3) incr(1) assms(6)] assms(7) by simp
  ultimately show False by simp
qed

text \<open>A revocation ends every token of the user that was accepted until then.\<close>

lemma revocation_ends_all:
  assumes "jwt_documented lib" and "lawful h" and "sane h r"
    and "VerifySimpleToken lib now tok cfg (Some (iface h)) r = Inr c"
    and "RevokeSimpleToken now (stc_UserID c) (Some (iface h)) r = (r', None)"
    and "now \<le> t" and "version h r' t (stc_UserID c) \<noteq> 0"
  shows "VerifySimpleToken lib t tok cfg' (Some (iface h)) r' \<noteq> Inr c'"
proof
  assume v: "VerifySimpleToken lib t tok cfg' (Some (iface h)) r' = Inr c'"
  then have same: "c' = c"
    using VerifySimpleToken_parses [OF assms(1,4)] VerifySimpleToken_parses [OF assms(1) v] by simp
  let ?u = "stc_UserID c"
  from assms(5) obtain w where incr: "tv_IncrVersion (iface h) ?u now r = (r', Inr w)"
    by (auto simp: RevokeSimpleToken_def split: prod.splits sum.splits)
  from assms(4) have "tv_GetVersion (iface h) ?u now r = (stc_Version c, None)"
    by (simp add: VerifySimpleToken_Inr_iff [OF assms(1)])
  then have "sint (stc_Version c) = version h r now ?u"
    by (rule get_sound [OF assms(2,3)])
  moreover from v same have "tv_GetVersion (iface h) ?u t r' = (stc_Version c, None)"
    by (simp add: VerifySimpleToken_Inr_iff [OF assms(1)])
  then have "sint (stc_Version c) = version h r' t ?u"
    by (rule get_sound [OF assms(2) incr_sane [OF assms(2,3) incr]])
  ultimately show False
    using version_after_incr [OF assms(2,3) incr assms(6)] assms(7)
      incr_sound [OF assms(2,3) incr] by simp
qed

text \<open>A login of one user changes no other user's version.\<close>

lemma login_frame:
  assumes "lawful h" and "sane h r"
    and "GenerateSimpleToken lib now uuid u sq cfg (Some (iface h)) r = (r', Inr res)" and "u' \<noteq> u"
  shows "version h r' t u' = version h r t u'"
  by (rule incr_frame [OF assms(1,2) login_incr [OF assms(3)] assms(4)])

text \<open>When the store forgets a user before the token expires, the numbering starts over: the token
  of the user's first login is accepted again after the next one.\<close>

lemma forgotten_version_revives:
  assumes "jwt_documented lib" and "lawful h" and "simple_issue_ok now uuid sq cfg"
    and "GenerateSimpleToken lib now uuid u sq cfg (Some (iface h)) r = (r1, Inr res)"
    and "str_Version res = 1"
    and "sane h r2" and "version h r2 t u = 0"
    and "GenerateSimpleToken lib t uuid' u sq' cfg' (Some (iface h)) r2 = (r3, Inr res')"
    and "t + Second \<le> now + sc_TTL (SimpleTokenConfig_Defaults cfg)"
    and "tv_GetVersion (iface h) u t r3 = (v, None)"
  shows "VerifySimpleToken lib t (str_Token res) cfg (Some (iface h)) r3 =
    Inr (issued_simple lib now uuid u sq 1 cfg)"
proof -
  note incr = login_incr [OF assms(8)]
  have "sint v = 1"
    using get_sound [OF assms(2) incr_sane [OF assms(2,6) incr] assms(10)]
      incr_sound [OF assms(2,6) incr] assms(7) by simp
  then have "v = 1" by (intro signed_word_eqI) simp
  let ?e = "now + sc_TTL (SimpleTokenConfig_Defaults cfg)"
  have "t < ?e div Second * Second + max 0 (sc_ClockSkew cfg)"
    using assms(9) div_mult_mod_eq [of ?e Second] pos_mod_bound [of Second ?e] by linarith
  with assms(5,10) \<open>v = 1\<close> show ?thesis
    by (simp add: issued_simple_accepted [OF assms(1,3,4)] del: SimpleTokenConfig_Defaults_fields)
qed

end

end
