(* ===== verification/Login_Sessions.thy ===== *)
theory Login_Sessions
  imports Simple_Token
begin

text \<open>
  What the simple tokens of \<open>pkg/auth/simple_token.go\<close> are for: a user has at most one session, the
  one of the last login. The abstract view is the trace of logins and logouts alone, which says
  whose token is current; the service with its version store is shown to refine it.
\<close>

section \<open>The abstract view\<close>

text \<open>A login is recorded with its instant, its user and the token handed out; latest first.\<close>

datatype login_event = LoggedIn nanos i64 string | LoggedOut i64

primrec current_session :: "login_event list \<Rightarrow> i64 \<Rightarrow> string option" where
  "current_session [] u = None"
| "current_session (e # es) u =
     (case e of
        LoggedIn now v tok \<Rightarrow> if v = u then Some tok else current_session es u
      | LoggedOut v \<Rightarrow> if v = u then None else current_session es u)"

section \<open>The service\<close>

text \<open>No version is forgotten between two instants.\<close>

definition remembers :: "('r \<Rightarrow> nanos \<Rightarrow> i64 \<Rightarrow> int) \<Rightarrow> 'r \<Rightarrow> nanos \<Rightarrow> nanos \<Rightarrow> bool" where
  "remembers version r t t' = (\<forall>u. version r t' u = version r t u)"

text \<open>
  The service runs under one configuration over one version store. Its state is that of the
  store, with the instant of the last operation and the trace so far. \<open>keeps\<close> says that the store
  forgets nothing between two operations. A login that fails once the version was counted, because
  the token cannot be signed, ends the session of the user as a logout does.
\<close>

inductive login_service ::
  "jwt_lib \<Rightarrow> SimpleTokenConfig \<Rightarrow> 'r TokenVersionStore \<Rightarrow> ('r \<Rightarrow> nanos \<Rightarrow> nanos \<Rightarrow> bool) \<Rightarrow> 'r \<Rightarrow> nanos \<Rightarrow>
     'r \<Rightarrow> nanos \<Rightarrow> login_event list \<Rightarrow> bool"
  for lib cfg st keeps r0 t0 where
  service_start: "login_service lib cfg st keeps r0 t0 r0 t0 []"
| service_login:
    "login_service lib cfg st keeps r0 t0 r t es \<Longrightarrow> t \<le> now \<Longrightarrow> keeps r t now \<Longrightarrow>
     simple_issue_ok now uuid sq cfg \<Longrightarrow>
     GenerateSimpleToken lib now uuid u sq cfg (Some st) r = (r', Inr res) \<Longrightarrow>
     login_service lib cfg st keeps r0 t0 r' now (LoggedIn now u (str_Token res) # es)"
| service_failed_login:
    "login_service lib cfg st keeps r0 t0 r t es \<Longrightarrow> t \<le> now \<Longrightarrow> keeps r t now \<Longrightarrow>
     tv_IncrVersion st u now r = (r', Inr w) \<Longrightarrow>
     GenerateSimpleToken lib now uuid u sq cfg (Some st) r = (r', Inl err) \<Longrightarrow>
     login_service lib cfg st keeps r0 t0 r' now (LoggedOut u # es)"
| service_logout:
    "login_service lib cfg st keeps r0 t0 r t es \<Longrightarrow> t \<le> now \<Longrightarrow> keeps r t now \<Longrightarrow>
     RevokeSimpleToken now u (Some st) r = (r', None) \<Longrightarrow>
     login_service lib cfg st keeps r0 t0 r' now (LoggedOut u # es)"

section \<open>Tokens as they were issued\<close>

definition issued_as ::
  "jwt_lib \<Rightarrow> SimpleTokenConfig \<Rightarrow> nanos \<Rightarrow> i64 \<Rightarrow> i64 \<Rightarrow> string \<Rightarrow> bool" where
  "issued_as lib cfg now u ver tok \<longleftrightarrow>
     (\<exists>uuid sq.
        jwt_ParseUnverified lib tok =
          Inr (HMAC ''HS256'', SimpleTokenClaims_payload (issued_simple lib now uuid u sq ver cfg)) \<and>
        jwt_verifies lib (HMAC ''HS256'') (sc_Secret cfg) tok \<and> sc_Secret cfg \<noteq> '''')"

definition expiry :: "SimpleTokenConfig \<Rightarrow> nanos \<Rightarrow> nanos" where
  "expiry cfg now =
     (now + sc_TTL (SimpleTokenConfig_Defaults cfg)) div Second * Second + max 0 (sc_ClockSkew cfg)"

lemma issued_as_unique:
  assumes "issued_as lib cfg now u ver tok" and "issued_as lib cfg now' u' ver' tok"
  shows "ver = ver'"
proof -
  obtain uuid sq uuid' sq' where
    "SimpleTokenClaims_payload (issued_simple lib now uuid u sq ver cfg) =
     SimpleTokenClaims_payload (issued_simple lib now' uuid' u' sq' ver' cfg)"
    using assms by (auto simp: issued_as_def)
  then have "issued_simple lib now uuid u sq ver cfg = issued_simple lib now' uuid' u' sq' ver' cfg"
    by (metis SimpleTokenClaims_roundtrip sum.inject(2))
  then show ?thesis by (metis issued_simple_fields(3))
qed

lemma issued_as_accepted:
  assumes "jwt_documented lib" and "issued_as lib cfg now u ver tok"
  shows "(\<exists>c. VerifySimpleToken lib t tok cfg (Some st) s = Inr c) \<longleftrightarrow>
     t < expiry cfg now \<and> tv_GetVersion st u t s = (ver, None)"
  using assms(2)
  by (auto simp: VerifySimpleToken_Inr_iff [OF assms(1)] genuine_def issued_as_def expiry_def
      issued_simple_in_time [OF assms(1)] simp del: SimpleTokenConfig_Defaults_fields)

section \<open>Refinement\<close>

context version_contract begin

text \<open>
  The simulation: every token handed out carries a version of its user up to the store's, and the
  current one is the one that carries exactly the store's.
\<close>

definition simulates :: "jwt_lib \<Rightarrow> SimpleTokenConfig \<Rightarrow> 'h \<Rightarrow> 'r \<Rightarrow> nanos \<Rightarrow> login_event list \<Rightarrow> bool" where
  "simulates lib cfg h r t es \<longleftrightarrow>
     sane h r \<and>
     (\<forall>now u tok. LoggedIn now u tok \<in> set es \<longrightarrow>
        (\<exists>ver. issued_as lib cfg now u ver tok \<and> sint ver \<le> version h r t u \<and>
           (current_session es u = Some tok \<longleftrightarrow> sint ver = version h r t u)))"

text \<open>An increment for a user outdates what the user was handed out before.\<close>

lemma incr_outdates:
  assumes "lawful h" and "simulates lib cfg h r t es" and "remembers (version h) r t now"
    and "tv_IncrVersion (iface h) u now r = (r', Inr w)" and "LoggedIn i v tok \<in> set es"
  obtains ver where "issued_as lib cfg i v ver tok" and "sint ver \<le> version h r' now v"
    and "v = u \<longrightarrow> sint ver < version h r' now v"
    and "v \<noteq> u \<longrightarrow> (current_session es v = Some tok \<longleftrightarrow> sint ver = version h r' now v)"
proof -
  from assms(2,5) obtain ver where ver: "sane h r" "issued_as lib cfg i v ver tok"
    "sint ver \<le> version h r t v" "current_session es v = Some tok \<longleftrightarrow> sint ver = version h r t v"
    unfolding simulates_def by blast
  have same: "version h r now v = version h r t v" using assms(3) by (simp add: remembers_def)
  have "v = u \<longrightarrow> version h r' now v = version h r now v + 1"
    using incr_sound [OF assms(1) ver(1) assms(4)] by auto
  moreover have "v \<noteq> u \<longrightarrow> version h r' now v = version h r now v"
    using incr_frame [OF assms(1) ver(1) assms(4)] by blast
  ultimately show thesis
    using ver same by (intro that [of ver]) auto
qed

lemma simulates_login:
  assumes "jwt_documented lib" and "lawful h" and "simulates lib cfg h r t es"
    and "remembers (version h) r t now" and "simple_issue_ok now uuid sq cfg"
    and gen: "GenerateSimpleToken lib now uuid u sq cfg (Some (iface h)) r = (r', Inr res)"
  shows "simulates lib cfg h r' now (LoggedIn now u (str_Token res) # es)"
proof -
  note incr = login_incr [OF gen]
  have sane: "sane h r" using assms(3) by (simp add: simulates_def)
  have new: "issued_as lib cfg now u (str_Version res) (str_Token res)"
    using issued_simple_token [OF assms(1,5) gen] unfolding issued_as_def by blast
  have ver: "sint (str_Version res) = version h r' now u"
    using incr_sound [OF assms(2) sane incr] by simp
  have "\<exists>ver. issued_as lib cfg i v ver tok \<and> sint ver \<le> version h r' now v \<and>
      (current_session (LoggedIn now u (str_Token res) # es) v = Some tok \<longleftrightarrow>
         sint ver = version h r' now v)" if ev: "LoggedIn i v tok \<in> set es" for i v tok
  proof -
    obtain k where k: "issued_as lib cfg i v k tok" "sint k \<le> version h r' now v"
      "v = u \<longrightarrow> sint k < version h r' now v"
      "v \<noteq> u \<longrightarrow> (current_session es v = Some tok \<longleftrightarrow> sint k = version h r' now v)"
      by (rule incr_outdates [OF assms(2-4) incr ev])
    have "tok \<noteq> str_Token res" if "v = u"
      using issued_as_unique [OF k(1), of now u] new k(3) ver that by auto
    with k show ?thesis by (intro exI [of _ k]) auto
  qed
  with new ver incr_sane [OF assms(2) sane incr] show ?thesis
    unfolding simulates_def by auto
qed

lemma simulates_incr:
  assumes "lawful h" and "simulates lib cfg h r t es"
    and "remembers (version h) r t now"
    and incr: "tv_IncrVersion (iface h) u now r = (r', Inr w)"
  shows "simulates lib cfg h r' now (LoggedOut u # es)"
proof -
  have "\<exists>ver. issued_as lib cfg i v ver tok \<and> sint ver \<le> version h r' now v \<and>
      (current_session (LoggedOut u # es) v = Some tok \<longleftrightarrow> sint ver = version h r' now v)"
    if ev: "LoggedIn i v tok \<in> set es" for i v tok
  proof -
    obtain k where "issued_as lib cfg i v k tok" "sint k \<le> version h r' now v"
      "v = u \<longrightarrow> sint k < version h r' now v"
      "v \<noteq> u \<longrightarrow> (current_session es v = Some tok \<longleftrightarrow> sint k = version h r' now v)"
      by (rule incr_outdates [OF assms(1-3) incr ev])
    then show ?thesis by (intro exI [of _ k]) auto
  qed
  with incr_sane [OF assms(1) _ incr] assms(2) show ?thesis
    unfolding simulates_def by auto
qed

lemma logout_incr:
  assumes "RevokeSimpleToken now u (Some (iface h)) r = (r', None)"
  obtains w where "tv_IncrVersion (iface h) u now r = (r', Inr w)"
  using assms by (auto simp: RevokeSimpleToken_def split: prod.splits sum.splits)

lemma service_simulates:
  assumes "login_service lib cfg (iface h) (remembers (version h)) r0 t0 r t es"
    and "jwt_documented lib" and "lawful h" and "sane h r0"
  shows "simulates lib cfg h r t es"
  using assms(1)
proof induction
  case service_start
  then show ?case using assms(4) by (simp add: simulates_def)
next
  case (service_login r t es now uuid sq u r' res)
  show ?case by (rule simulates_login [OF assms(2,3) service_login.IH service_login.hyps(3-5)])
next
  case (service_failed_login r t es now u r' w uuid sq err)
  show ?case
    by (rule simulates_incr [OF assms(3) service_failed_login.IH service_failed_login.hyps(3,4)])
next
  case (service_logout r t es now u r')
  obtain w where "tv_IncrVersion (iface h) u now r = (r', Inr w)"
    by (rule logout_incr [OF service_logout.hyps(4)])
  then show ?case
    by (rule simulates_incr [OF assms(3) service_logout.IH service_logout.hyps(3)])
qed

lemma service_refines:
  assumes "login_service lib cfg (iface h) (remembers (version h)) r0 t0 r t es"
    and "jwt_documented lib" and "lawful h" and "sane h r0"
    and "LoggedIn i u tok \<in> set es" and "remembers (version h) r t now"
    and "tv_GetVersion (iface h) u now r = (v, None)"
  shows "(\<exists>c. VerifySimpleToken lib now tok cfg (Some (iface h)) r = Inr c) \<longleftrightarrow>
    current_session es u = Some tok \<and> now < expiry cfg i"
proof -
  from service_simulates [OF assms(1-4)] assms(5) obtain ver where
    ver: "sane h r" "issued_as lib cfg i u ver tok"
    "current_session es u = Some tok \<longleftrightarrow> sint ver = version h r t u"
    unfolding simulates_def by blast
  have "sint v = version h r t u"
    using get_sound [OF assms(3) ver(1) assms(7)] assms(6) by (simp add: remembers_def)
  then have "v = ver \<longleftrightarrow> current_session es u = Some tok"
    using ver(3) by (metis signed_word_eqI)
  with assms(7) show ?thesis
    by (auto simp: issued_as_accepted [OF assms(2) ver(2)])
qed

end

end
