(* ===== verification/Config.thy ===== *)
theory Config
  imports Go_Strings Go_Time
begin

text \<open>
  \<open>pkg/config\<close>: the configuration structs of \<open>types.go\<close>, their
  \<open>ApplyDefaults\<close> (\<open>defaults.go\<close>), and \<open>Duration\<close> (\<open>duration.go\<close>), whose conversion to
  \<open>time.Duration\<close> is a 64-bit multiplication. The \<open>int\<close> fields are only compared and assigned,
  and are integers here; the sample ratio is a float with its infinities and NaN.
\<close>

section \<open>Structs\<close>

record SlotConfig =
  slot_Enabled :: bool
  slot_TotalSlots :: int
  slot_RedisPrefix :: string
  slot_LeaseTTLSeconds :: int
  slot_RouteTTLSeconds :: int
  slot_RenewIntervalSeconds :: int
  slot_MaxRetry :: int

record BridgeClientConfig =
  bcc_Address :: string
  bcc_Insecure :: bool
  bcc_Headers :: "(string \<rightharpoonup> string) option"
  bcc_DialTimeoutSeconds :: int
  bcc_HeartbeatIntervalSeconds :: int
  bcc_ReconnectBaseSeconds :: int
  bcc_ReconnectMaxSeconds :: int
  bcc_EnableBackpressure :: bool
  bcc_MaxInFlightDeliver :: int
  bcc_PendingAckTimeoutSeconds :: int

record BridgeServerConfig =
  bsc_ListenAddr :: string
  bsc_Namespace :: string
  bsc_Actions :: "string list"
  bsc_TLSCertFile :: string
  bsc_TLSKeyFile :: string
  bsc_DeliverBuffer :: int
  bsc_HeartbeatIntervalSeconds :: int
  bsc_ReconnectInitialSeconds :: int
  bsc_ReconnectMaxSeconds :: int
  bsc_PendingAckTimeoutSeconds :: int
  bsc_MaxInFlightDeliver :: int

datatype float64 = Finite rat | PosInf | NegInf | NaN

record TracingConfig =
  trc_Exporter :: string
  trc_Endpoint :: string
  trc_ServiceName :: string
  trc_Insecure :: bool
  trc_Headers :: "(string \<rightharpoonup> string) option"
  trc_SampleRatio :: float64
  trc_ResourceTags :: "(string \<times> string) list"

record MetricsConfig =
  met_Addr :: string

record PostgresConfig =
  pg_DSN :: string
  pg_MaxOpenConns :: int
  pg_MaxIdleConns :: int
  pg_ConnMaxLifetimeSeconds :: int

text \<open>Structs the library only passes on.\<close>

record AppConfig =
  app_Env :: string
  app_Port :: int
  app_NodeID :: string

record config_KafkaConfig =
  ckc_Enabled :: bool
  ckc_Brokers :: "string list"
  ckc_Topic :: string
  ckc_ConsumerGroup :: string
  ckc_ClientID :: string
  ckc_Username :: string
  ckc_Password :: string
  ckc_SASLMechanism :: string
  ckc_TLSEnabled :: bool

record LogConfig =
  lc_Format :: string
  lc_Level :: string
  lc_ReportCaller :: bool

record RedisConfig =
  rdc_Addr :: string
  rdc_Username :: string
  rdc_Password :: string
  rdc_Db :: int

section \<open>Floats compared with constants\<close>

fun float_le :: "float64 \<Rightarrow> rat \<Rightarrow> bool" where
  "float_le (Finite x) c = (x \<le> c)"
| "float_le NegInf c = True"
| "float_le _ c = False"

fun float_gt :: "float64 \<Rightarrow> rat \<Rightarrow> bool" where
  "float_gt (Finite x) c = (c < x)"
| "float_gt PosInf c = True"
| "float_gt _ c = False"

section \<open>Defaults\<close>

definition SlotConfig_ApplyDefaults :: "SlotConfig \<Rightarrow> SlotConfig" where
  "SlotConfig_ApplyDefaults s =
     s\<lparr>slot_TotalSlots := (if slot_TotalSlots s \<le> 0 then 512 else slot_TotalSlots s),
       slot_RedisPrefix := (if slot_RedisPrefix s = '''' then ''gga'' else slot_RedisPrefix s),
       slot_LeaseTTLSeconds := (if slot_LeaseTTLSeconds s \<le> 0 then 120 else slot_LeaseTTLSeconds s),
       slot_RouteTTLSeconds := (if slot_RouteTTLSeconds s \<le> 0 then 60 else slot_RouteTTLSeconds s),
       slot_RenewIntervalSeconds :=
         (if slot_RenewIntervalSeconds s \<le> 0 then 30 else slot_RenewIntervalSeconds s),
       slot_MaxRetry := (if slot_MaxRetry s \<le> 0 then 3 else slot_MaxRetry s)\<rparr>"

definition MetricsConfig_ApplyDefaults :: "MetricsConfig \<Rightarrow> MetricsConfig" where
  "MetricsConfig_ApplyDefaults m =
     m\<lparr>met_Addr := (if met_Addr m = '''' then '':9090'' else met_Addr m)\<rparr>"

definition BridgeClientConfig_ApplyDefaults :: "BridgeClientConfig \<Rightarrow> BridgeClientConfig" where
  "BridgeClientConfig_ApplyDefaults b =
     b\<lparr>bcc_DialTimeoutSeconds :=
         (if bcc_DialTimeoutSeconds b \<le> 0 then 5 else bcc_DialTimeoutSeconds b),
       bcc_HeartbeatIntervalSeconds :=
         (if bcc_HeartbeatIntervalSeconds b \<le> 0 then 15 else bcc_HeartbeatIntervalSeconds b),
       bcc_ReconnectBaseSeconds :=
         (if bcc_ReconnectBaseSeconds b \<le> 0 then 1 else bcc_ReconnectBaseSeconds b),
       bcc_ReconnectMaxSeconds :=
         (if bcc_ReconnectMaxSeconds b \<le> 0 then 15 else bcc_ReconnectMaxSeconds b),
       bcc_PendingAckTimeoutSeconds :=
         (if bcc_PendingAckTimeoutSeconds b \<le> 0 then 15 else bcc_PendingAckTimeoutSeconds b)\<rparr>"

definition BridgeServerConfig_ApplyDefaults :: "BridgeServerConfig \<Rightarrow> BridgeServerConfig" where
  "BridgeServerConfig_ApplyDefaults b =
     b\<lparr>bsc_DeliverBuffer := (if bsc_DeliverBuffer b \<le> 0 then 128 else bsc_DeliverBuffer b),
       bsc_HeartbeatIntervalSeconds :=
         (if bsc_HeartbeatIntervalSeconds b \<le> 0 then 15 else bsc_HeartbeatIntervalSeconds b),
       bsc_ReconnectInitialSeconds :=
         (if bsc_ReconnectInitialSeconds b \<le> 0 then 1 else bsc_ReconnectInitialSeconds b),
       bsc_ReconnectMaxSeconds :=
         (if bsc_ReconnectMaxSeconds b \<le> 0 then 30 else bsc_ReconnectMaxSeconds b),
       bsc_PendingAckTimeoutSeconds :=
         (if bsc_PendingAckTimeoutSeconds b \<le> 0 then 15 else bsc_PendingAckTimeoutSeconds b)\<rparr>"

definition TracingConfig_ApplyDefaults :: "TracingConfig \<Rightarrow> TracingConfig" where
  "TracingConfig_ApplyDefaults t =
     t\<lparr>trc_Exporter := (if trc_Exporter t = '''' then ''stdout'' else trc_Exporter t),
       trc_SampleRatio := (if float_le (trc_SampleRatio t) 0 then Finite 1 else trc_SampleRatio t)\<rparr>"

definition PostgresConfig_ApplyDefaults :: "PostgresConfig \<Rightarrow> PostgresConfig" where
  "PostgresConfig_ApplyDefaults p =
     p\<lparr>pg_MaxOpenConns := (if pg_MaxOpenConns p \<le> 0 then 10 else pg_MaxOpenConns p),
       pg_MaxIdleConns := (if pg_MaxIdleConns p \<le> 0 then 5 else pg_MaxIdleConns p),
       pg_ConnMaxLifetimeSeconds :=
         (if pg_ConnMaxLifetimeSeconds p \<le> 0 then 3600 else pg_ConnMaxLifetimeSeconds p)\<rparr>"

section \<open>What complete configurations are\<close>

definition slot_complete :: "SlotConfig \<Rightarrow> bool" where
  "slot_complete s \<longleftrightarrow>
     0 < slot_TotalSlots s \<and> slot_RedisPrefix s \<noteq> '''' \<and> 0 < slot_LeaseTTLSeconds s \<and>
     0 < slot_RouteTTLSeconds s \<and> 0 < slot_RenewIntervalSeconds s \<and> 0 < slot_MaxRetry s"

definition bridge_client_complete :: "BridgeClientConfig \<Rightarrow> bool" where
  "bridge_client_complete b \<longleftrightarrow>
     0 < bcc_DialTimeoutSeconds b \<and> 0 < bcc_HeartbeatIntervalSeconds b \<and>
     0 < bcc_ReconnectBaseSeconds b \<and> 0 < bcc_ReconnectMaxSeconds b \<and>
     0 < bcc_PendingAckTimeoutSeconds b"

definition bridge_server_complete :: "BridgeServerConfig \<Rightarrow> bool" where
  "bridge_server_complete b \<longleftrightarrow>
     0 < bsc_DeliverBuffer b \<and> 0 < bsc_HeartbeatIntervalSeconds b \<and>
     0 < bsc_ReconnectInitialSeconds b \<and> 0 < bsc_ReconnectMaxSeconds b \<and>
     0 < bsc_PendingAckTimeoutSeconds b"

definition tracing_complete :: "TracingConfig \<Rightarrow> bool" where
  "tracing_complete t \<longleftrightarrow> trc_Exporter t \<noteq> '''' \<and> \<not> float_le (trc_SampleRatio t) 0"

definition postgres_complete :: "PostgresConfig \<Rightarrow> bool" where
  "postgres_complete p \<longleftrightarrow>
     0 < pg_MaxOpenConns p \<and> 0 < pg_MaxIdleConns p \<and> 0 < pg_ConnMaxLifetimeSeconds p"

lemmas [defaulting_defs] =
  SlotConfig_ApplyDefaults_def MetricsConfig_ApplyDefaults_def BridgeClientConfig_ApplyDefaults_def
  BridgeServerConfig_ApplyDefaults_def TracingConfig_ApplyDefaults_def PostgresConfig_ApplyDefaults_def

lemmas [wellformed_defs] =
  slot_complete_def bridge_client_complete_def bridge_server_complete_def tracing_complete_def
  postgres_complete_def

interpretation slot_config:
  defaulting "\<lambda>_. True" "\<lambda>_ :: unit. SlotConfig_ApplyDefaults" slot_complete
  by unfold_locales (simp_all add: defaulting_defs wellformed_defs)

interpretation metrics_config:
  defaulting "\<lambda>_. True" "\<lambda>_ :: unit. MetricsConfig_ApplyDefaults" "\<lambda>m. met_Addr m \<noteq> ''''"
  by unfold_locales (simp_all add: defaulting_defs)

interpretation bridge_client_config:
  defaulting "\<lambda>_. True" "\<lambda>_ :: unit. BridgeClientConfig_ApplyDefaults" bridge_client_complete
  by unfold_locales (simp_all add: defaulting_defs wellformed_defs)

interpretation bridge_server_config:
  defaulting "\<lambda>_. True" "\<lambda>_ :: unit. BridgeServerConfig_ApplyDefaults" bridge_server_complete
  by unfold_locales (simp_all add: defaulting_defs wellformed_defs)

interpretation tracing_config:
  defaulting "\<lambda>_. True" "\<lambda>_ :: unit. TracingConfig_ApplyDefaults" tracing_complete
  by unfold_locales (simp_all add: defaulting_defs wellformed_defs)

interpretation postgres_config:
  defaulting "\<lambda>_. True" "\<lambda>_ :: unit. PostgresConfig_ApplyDefaults" postgres_complete
  by unfold_locales (simp_all add: defaulting_defs wellformed_defs)

section \<open>Duration\<close>

type_synonym Duration = i64

record JWTConfig =
  jwc_SecretKey :: string
  jwc_AccessTokenTTL :: Duration
  jwc_RefreshTokenTTL :: Duration
  jwc_ClockSkew :: Duration

definition Duration_Duration :: "Duration \<Rightarrow> i64" where
  "Duration_Duration d = d * 1000000000"

definition Duration_Seconds64 :: "Duration \<Rightarrow> i64" where
  "Duration_Seconds64 d = d"

definition Duration_SecondsInt :: "Duration \<Rightarrow> i64" where
  "Duration_SecondsInt d = d"

text \<open>In range the conversion is exact and is undone by dividing; the largest whole number of
  seconds a \<open>time.Duration\<close> holds is 9223372036.\<close>

lemma Duration_Duration_exact:
  assumes "\<bar>sint d\<bar> \<le> 9223372036"
  shows "sint (Duration_Duration d) = sint d * Second"
proof -
  have "Duration_Duration d = word_of_int (sint d * Second)"
    by (simp add: Duration_Duration_def)
  also have "sint (\<dots> :: i64) = sint d * Second"
    using assms by (intro sint_of_int_i64) auto
  finally show ?thesis .
qed

end
