(* ===== verification/Observability.thy ===== *)
theory Observability
  imports Config
begin

text \<open>
  \<open>pkg/tracing/tracing.go\<close>, \<open>pkg/logger/logger.go\<close>, and the initialisers of
  \<open>pkg/bootstrap\<close>: logger, Redis and tracing. The OpenTelemetry, gRPC metadata, logrus,
  rotatelogs and go-redis calls are arguments. A context and its span are one abstract value
  \<open>'c\<close>; gRPC metadata is a map from keys to lists of values; logrus is a record of what has been
  set on its standard logger.
\<close>

section \<open>HTTP header keys\<close>

text \<open>\<open>http.Header\<close> canonicalises keys: the first letter and every letter after a hyphen in upper
  case, the others in lower case, unless the key has a byte no header may have.\<close>

definition header_byte :: "char \<Rightarrow> bool" where
  "header_byte c =
     (let n = of_char c :: nat
      in (48 \<le> n \<and> n \<le> 57) \<or> (65 \<le> n \<and> n \<le> 90) \<or> (97 \<le> n \<and> n \<le> 122) \<or>
         n \<in> {33, 35, 36, 37, 38, 39, 42, 43, 45, 46, 94, 95, 96, 124, 126})"

fun canonical_from :: "bool \<Rightarrow> string \<Rightarrow> string" where
  "canonical_from up [] = []"
| "canonical_from up (c # s) =
     (if up then upper_char c else lower_char c) # canonical_from (c = CHR ''-'') s"

definition CanonicalHeaderKey :: "string \<Rightarrow> string" where
  "CanonicalHeaderKey k = (if list_all header_byte k then canonical_from True k else k)"

type_synonym MD = "string \<rightharpoonup> string list"

definition http_Header_Set :: "MD \<Rightarrow> string \<Rightarrow> string \<Rightarrow> MD" where
  "http_Header_Set md k v = md(CanonicalHeaderKey k \<mapsto> [v])"

definition http_Header_Get :: "MD \<Rightarrow> string \<Rightarrow> string" where
  "http_Header_Get md k =
     (case md (CanonicalHeaderKey k) of Some (v # _) \<Rightarrow> v | _ \<Rightarrow> '''')"

section \<open>Trace context in gRPC metadata\<close>

text \<open>\<open>tr_Inject\<close> lists the \<open>Set\<close> calls of the W3C propagator, \<open>tr_Extract\<close> is given the
  \<open>Get\<close> of the carrier.\<close>

record 'c trace_lib =
  tr_HeaderCarrier_Set :: "MD \<Rightarrow> string \<Rightarrow> string \<Rightarrow> MD"
  tr_HeaderCarrier_Get :: "MD \<Rightarrow> string \<Rightarrow> string"
  tr_Inject :: "'c \<Rightarrow> (string \<times> string) list"
  tr_Extract :: "(string \<Rightarrow> string) \<Rightarrow> 'c \<Rightarrow> 'c"
  tr_TraceID :: "'c \<Rightarrow> string option"
  tr_SetAttribute :: "string \<Rightarrow> string \<Rightarrow> 'c \<Rightarrow> 'c"
  tr_MD_Set :: "MD \<Rightarrow> string \<Rightarrow> string list \<Rightarrow> MD"
  tr_MD_Get :: "MD \<Rightarrow> string \<Rightarrow> string list"

definition traceMetadataKey :: string where
  "traceMetadataKey = ''x-trace-id''"

definition InjectMetadata :: "'c trace_lib \<Rightarrow> 'c \<Rightarrow> MD option \<Rightarrow> MD" where
  "InjectMetadata lib ctx md =
     (let md = (case md of None \<Rightarrow> Map.empty | Some m \<Rightarrow> m);
          md = foldl (\<lambda>m (k, v). tr_HeaderCarrier_Set lib m k v) md (tr_Inject lib ctx)
      in case tr_TraceID lib ctx of
           Some tid \<Rightarrow> tr_MD_Set lib md traceMetadataKey [tid]
         | None \<Rightarrow> md)"

definition ExtractMetadata :: "'c trace_lib \<Rightarrow> 'c \<Rightarrow> MD option \<Rightarrow> 'c" where
  "ExtractMetadata lib ctx md =
     (case md of
        None \<Rightarrow> ctx
      | Some m \<Rightarrow>
          (let ctx = tr_Extract lib (tr_HeaderCarrier_Get lib m) ctx
           in case tr_MD_Get lib m traceMetadataKey of
                [] \<Rightarrow> ctx
              | tid # _ \<Rightarrow> tr_SetAttribute lib traceMetadataKey tid ctx))"

text \<open>\<open>otel.Tracer\<close> is an argument.\<close>

definition Tracer :: "(string \<Rightarrow> 't) \<Rightarrow> string \<Rightarrow> 't" where
  "Tracer otel_Tracer name = otel_Tracer name"

text \<open>
  Documented behaviour. A \<open>HeaderCarrier\<close> is an \<open>http.Header\<close>; metadata keys are converted to
  lower case; the propagator sets and reads \<open>traceparent\<close> and \<open>tracestate\<close> only, each once,
  and leaves the context alone when there is no \<open>traceparent\<close>.
\<close>

definition trace_documented :: "'c trace_lib \<Rightarrow> bool" where
  "trace_documented lib \<longleftrightarrow>
     tr_HeaderCarrier_Set lib = http_Header_Set \<and> tr_HeaderCarrier_Get lib = http_Header_Get \<and>
     (\<forall>md k vs. vs \<noteq> [] \<longrightarrow> tr_MD_Set lib md k vs = md(ToLower k \<mapsto> vs)) \<and>
     (\<forall>md k. tr_MD_Get lib md k = (case md (ToLower k) of None \<Rightarrow> [] | Some vs \<Rightarrow> vs)) \<and>
     (\<forall>ctx. distinct (map fst (tr_Inject lib ctx)) \<and>
        set (map fst (tr_Inject lib ctx)) \<subseteq> {''traceparent'', ''tracestate''}) \<and>
     (\<forall>g g' ctx. g ''traceparent'' = g' ''traceparent'' \<longrightarrow> g ''tracestate'' = g' ''tracestate'' \<longrightarrow>
        tr_Extract lib g ctx = tr_Extract lib g' ctx) \<and>
     (\<forall>g ctx. g ''traceparent'' = '''' \<longrightarrow> tr_Extract lib g ctx = ctx)"

lemma canonical_trace_keys [simp]:
  "CanonicalHeaderKey ''traceparent'' = ''Traceparent''"
  "CanonicalHeaderKey ''tracestate'' = ''Tracestate''"
  by code_simp+

lemma lower_trace_keys [simp]:
  "ToLower traceMetadataKey = ''x-trace-id''"
  "ToLower ''Traceparent'' = ''traceparent''" "ToLower ''Tracestate'' = ''tracestate''"
  by code_simp+

text \<open>The value a key ends up with after a list of \<open>Set\<close> calls with distinct canonical keys.\<close>

lemma header_sets:
  assumes "k \<in> {''traceparent'', ''tracestate''}"
    and "set (map fst xs) \<subseteq> {''traceparent'', ''tracestate''}" and "distinct (map fst xs)"
  shows "http_Header_Get (foldl (\<lambda>m (k, v). http_Header_Set m k v) md xs) k =
    (case map_of xs k of None \<Rightarrow> http_Header_Get md k | Some v \<Rightarrow> v)"
  using assms
proof (induction xs arbitrary: md)
  case (Cons x xs)
  obtain j v where x: "x = (j, v)" by (cases x)
  have "http_Header_Get (http_Header_Set md j v) k = (if k = j then v else http_Header_Get md k)"
    using Cons.prems(1,2) x by (auto simp: http_Header_Get_def http_Header_Set_def)
  moreover have "map_of xs k = None" if "k = j"
    using Cons.prems(3) x that by (simp add: map_of_eq_None_iff)
  moreover have "set (map fst xs) \<subseteq> {''traceparent'', ''tracestate''}" "distinct (map fst xs)"
    using Cons.prems(2,3) by simp_all
  note Cons.IH [OF Cons.prems(1) this, of "http_Header_Set md j v"]
  ultimately show ?case using x by (auto split: option.split)
qed simp

lemma injected_header:
  assumes "trace_documented lib" and "k \<in> {''traceparent'', ''tracestate''}"
  shows "http_Header_Get (InjectMetadata lib ctx md) k =
    (case map_of (tr_Inject lib ctx) k of
       None \<Rightarrow> (case md of None \<Rightarrow> '''' | Some m \<Rightarrow> http_Header_Get m k)
     | Some v \<Rightarrow> v)"
proof -
  have lib: "tr_HeaderCarrier_Set lib = http_Header_Set"
    "\<And>md k vs. vs \<noteq> [] \<Longrightarrow> tr_MD_Set lib md k vs = md(ToLower k \<mapsto> vs)"
    "set (map fst (tr_Inject lib ctx)) \<subseteq> {''traceparent'', ''tracestate''}"
    "distinct (map fst (tr_Inject lib ctx))"
    using assms(1) by (simp_all add: trace_documented_def)
  have tid: "http_Header_Get (m(''x-trace-id'' \<mapsto> vs)) k = http_Header_Get m k" for m vs
    using assms(2) by (auto simp: http_Header_Get_def)
  have empty: "http_Header_Get Map.empty k = ''''"
    by (simp add: http_Header_Get_def)
  show ?thesis
    using header_sets [OF assms(2) lib(3,4)]
    by (simp add: InjectMetadata_def Let_def lib(1,2) tid empty split: option.split)
qed

text \<open>Within the process the trace context survives: reading the metadata just written is reading
  the headers the propagator wrote, and the trace identifier becomes an attribute.\<close>

lemma inject_then_extract:
  assumes "trace_documented lib"
  shows "ExtractMetadata lib ctx' (Some (InjectMetadata lib ctx None)) =
    (let c = tr_Extract lib
               (\<lambda>k. case map_of (tr_Inject lib ctx) k of None \<Rightarrow> '''' | Some v \<Rightarrow> v) ctx'
     in case tr_TraceID lib ctx of
          None \<Rightarrow> c
        | Some tid \<Rightarrow> tr_SetAttribute lib traceMetadataKey tid c)"
proof -
  let ?md = "InjectMetadata lib ctx None"
  have get: "tr_HeaderCarrier_Get lib = http_Header_Get"
    "\<And>md k. tr_MD_Get lib md k = (case md (ToLower k) of None \<Rightarrow> [] | Some vs \<Rightarrow> vs)"
    "\<And>md k vs. vs \<noteq> [] \<Longrightarrow> tr_MD_Set lib md k vs = md(ToLower k \<mapsto> vs)"
    "tr_HeaderCarrier_Set lib = http_Header_Set"
    and inj: "set (map fst (tr_Inject lib ctx)) \<subseteq> {''traceparent'', ''tracestate''}"
    using assms by (simp_all add: trace_documented_def)
  have cong: "tr_Extract lib g c = tr_Extract lib g' c"
    if "g ''traceparent'' = g' ''traceparent''" "g ''tracestate'' = g' ''tracestate''" for g g' c
    using assms that unfolding trace_documented_def by blast
  have ext: "tr_Extract lib (http_Header_Get ?md) ctx' =
      tr_Extract lib (\<lambda>k. case map_of (tr_Inject lib ctx) k of None \<Rightarrow> '''' | Some v \<Rightarrow> v) ctx'"
    by (rule cong) (simp_all add: injected_header [OF assms] split: option.split)
  have keys: "foldl (\<lambda>m (k, v). http_Header_Set m k v) md xs ''x-trace-id'' = md ''x-trace-id''"
    if "set (map fst xs) \<subseteq> {''traceparent'', ''tracestate''}" for xs md
    using that by (induction xs arbitrary: md) (auto simp: http_Header_Set_def)
  have "?md ''x-trace-id'' = (case tr_TraceID lib ctx of None \<Rightarrow> None | Some tid \<Rightarrow> Some [tid])"
    using keys [OF inj] by (simp add: InjectMetadata_def Let_def get split: option.split)
  then show ?thesis
    by (simp add: ExtractMetadata_def Let_def get ext split: option.split)
qed

text \<open>Over the wire it does not: gRPC delivers metadata under lower-case keys, where the header
  carrier does not find \<open>Traceparent\<close>. Only the identifier arrives, as an attribute.\<close>

lemma extract_delivered:
  assumes "trace_documented lib" and "\<forall>k \<in> dom md. ToLower k = k"
  shows "ExtractMetadata lib ctx (Some md) =
    (case md ''x-trace-id'' of
       Some (tid # _) \<Rightarrow> tr_SetAttribute lib traceMetadataKey tid ctx
     | _ \<Rightarrow> ctx)"
proof -
  have lib: "tr_HeaderCarrier_Get lib = http_Header_Get"
    "\<And>md k. tr_MD_Get lib md k = (case md (ToLower k) of None \<Rightarrow> [] | Some vs \<Rightarrow> vs)"
    using assms(1) by (simp_all add: trace_documented_def)
  have "''Traceparent'' \<notin> dom md"
  proof
    assume "''Traceparent'' \<in> dom md"
    with assms(2) have "ToLower ''Traceparent'' = ''Traceparent''" by blast
    then show False by (simp only: lower_trace_keys) simp
  qed
  then have "http_Header_Get md ''traceparent'' = ''''"
    by (simp add: http_Header_Get_def domIff)
  then have "tr_Extract lib (http_Header_Get md) ctx = ctx"
    using assms(1) unfolding trace_documented_def by blast
  then show ?thesis
    by (simp add: ExtractMetadata_def Let_def lib split: option.split list.split)
qed

section \<open>Log entries with a trace\<close>

record 'c log_entry =
  le_Context :: "'c option"
  le_Data :: "string \<rightharpoonup> string"

text \<open>The trace identifier of the context's span when that is valid is an argument.\<close>

definition WithTrace :: "('c \<Rightarrow> string option) \<Rightarrow> 'c option \<Rightarrow> 'c log_entry" where
  "WithTrace validTraceID ctx =
     (let e = \<lparr>le_Context = ctx, le_Data = Map.empty\<rparr>
      in case ctx of
           None \<Rightarrow> e
         | Some c \<Rightarrow>
             (case validTraceID c of
                Some tid \<Rightarrow> e\<lparr>le_Data := (le_Data e)(''trace_id'' \<mapsto> tid)\<rparr>
              | None \<Rightarrow> e))"

section \<open>The logger\<close>

datatype log_formatter = JSONFormatter | TextFormatter

datatype log_level = PanicLevel | FatalLevel | ErrorLevel | WarnLevel | InfoLevel | DebugLevel | TraceLevel

record containerHook =
  ch_containerID :: string

definition containerHook_Fire :: "containerHook \<Rightarrow> (string \<rightharpoonup> string) \<Rightarrow> (string \<rightharpoonup> string)" where
  "containerHook_Fire h data = data(''container_id'' \<mapsto> ch_containerID h)"

record LogFileConfig =
  lf_Enabled :: bool
  lf_Dir :: string
  lf_Filename :: string
  lf_MaxAgeDays :: i64
  lf_RotationDays :: i64

record LoggerOptions =
  lop_ServiceName :: string
  lop_FileConfig :: "LogFileConfig option"
  lop_AddContainerHook :: bool

text \<open>The standard logger: what was set on it, and the messages the initialiser itself logs. An
  output of \<open>None\<close> is the one it starts with, \<open>Some w\<close> is standard output doubled to the file
  writer \<open>w\<close>.\<close>

record 'w logrus =
  lg_formatter :: log_formatter
  lg_level :: log_level
  lg_ReportCaller :: bool
  lg_output :: "'w option"
  lg_hooks :: "containerHook list"
  lg_logged :: "(log_level \<times> string) list"

text \<open>What the initialiser calls: logrus, rotatelogs, the operating system, and \<open>strconv.Quote\<close> for
  the verb \<open>%q\<close>.\<close>

record 'w log_libs =
  ll_ParseLevel :: "string \<Rightarrow> log_level go_result"
  ll_Quote :: "string \<Rightarrow> string"
  ll_MkdirAll :: "string \<Rightarrow> go_error option"
  ll_rotatelogs_New :: "string \<Rightarrow> string \<Rightarrow> i64 \<Rightarrow> i64 \<Rightarrow> 'w go_result"
  ll_Hostname :: "string go_result"
  ll_ReadFile :: "string \<Rightarrow> string go_result"

definition log_message :: "log_level \<Rightarrow> string \<Rightarrow> 'w logrus \<Rightarrow> 'w logrus" where
  "log_message lvl msg lg = lg\<lparr>lg_logged := lg_logged lg @ [(lvl, msg)]\<rparr>"

definition detectContainerID :: "'w log_libs \<Rightarrow> string" where
  "detectContainerID libs =
     (let fromFile =
        (case ll_ReadFile libs ''/etc/hostname'' of
           Inr data \<Rightarrow>
             (let hostname = TrimSpace data in if hostname \<noteq> '''' then hostname else ''unknown'')
         | Inl _ \<Rightarrow> ''unknown'')
      in case ll_Hostname libs of
           Inr hostname \<Rightarrow> if hostname \<noteq> '''' then hostname else fromFile
         | Inl _ \<Rightarrow> fromFile)"

definition day :: i64 where
  "day = 24 * 3600000000000"

text \<open>The two error messages are Chinese (creating the log directory failed, setting the log output
  failed), so they are spelled by their UTF-8 bytes.\<close>

definition mkdir_failed :: string where
  "mkdir_failed = map char_of
    ([229, 136, 155, 229, 187, 186, 230, 151, 165, 229, 191, 151, 231, 155, 174, 229, 189,
     149, 229, 164, 177, 232, 180, 165] :: nat list)"

definition output_failed :: string where
  "output_failed = map char_of
    ([232, 174, 190, 231, 189, 174, 230, 151, 165, 229, 191, 151, 232, 190, 147, 229, 135,
     186, 229, 164, 177, 232, 180, 165] :: nat list)"

definition setupFileOutput ::
  "'w log_libs \<Rightarrow> LogFileConfig \<Rightarrow> string \<Rightarrow> 'w logrus \<Rightarrow> 'w logrus \<times> go_error option" where
  "setupFileOutput libs fileCfg serviceName lg =
     (let logDir = (if lf_Dir fileCfg = '''' then ''./logs'' else lf_Dir fileCfg)
      in case ll_MkdirAll libs logDir of
           Some err \<Rightarrow> (log_message ErrorLevel (mkdir_failed @ '': '' @ error_text err) lg, Some err)
         | None \<Rightarrow>
             (let filename = lf_Filename fileCfg;
                  filename = (if filename = '''' then serviceName else filename);
                  filename = (if filename = '''' then ''app'' else filename);
                  maxAge = (if sint (lf_MaxAgeDays fileCfg) \<le> 0 then 7 else lf_MaxAgeDays fileCfg);
                  rotationDays =
                    (if sint (lf_RotationDays fileCfg) \<le> 0 then 1 else lf_RotationDays fileCfg);
                  logFilePath = logDir @ ''/'' @ filename @ ''.%Y%m%d.log'';
                  linkName = logDir @ ''/'' @ filename @ ''.log''
              in case ll_rotatelogs_New libs logFilePath linkName (maxAge * day) (rotationDays * day) of
                   Inl err \<Rightarrow> (log_message ErrorLevel (output_failed @ '': '' @ error_text err) lg, Some err)
                 | Inr writer \<Rightarrow> (lg\<lparr>lg_output := Some writer\<rparr>, None)))"

text \<open>Format, level and caller, the part that cannot fail.\<close>

definition configure_logger :: "'w log_libs \<Rightarrow> LogConfig \<Rightarrow> 'w logrus \<Rightarrow> 'w logrus" where
  "configure_logger libs cfg lg =
     (let lg = lg\<lparr>lg_formatter :=
                    (if lc_Format cfg = ''json'' then JSONFormatter
                     else if lc_Format cfg = ''text'' then TextFormatter
                     else JSONFormatter)\<rparr>;
          lg = (case ll_ParseLevel libs (lc_Level cfg) of
                  Inr lvl \<Rightarrow> lg\<lparr>lg_level := lvl\<rparr>
                | Inl _ \<Rightarrow>
                    log_message WarnLevel
                      (''invalid log level '' @ ll_Quote libs (lc_Level cfg) @ '', fallback to info'')
                      (lg\<lparr>lg_level := InfoLevel\<rparr>))
      in lg\<lparr>lg_ReportCaller := lc_ReportCaller cfg\<rparr>)"

definition InitLoggerWithOptions ::
  "'w log_libs \<Rightarrow> LogConfig \<Rightarrow> LoggerOptions \<Rightarrow> 'w logrus \<Rightarrow> 'w logrus \<times> go_error option" where
  "InitLoggerWithOptions libs cfg opts lg =
     (let lg = configure_logger libs cfg lg;
          (lg, err) =
            (case lop_FileConfig opts of
               Some fc \<Rightarrow>
                 if lf_Enabled fc then setupFileOutput libs fc (lop_ServiceName opts) lg else (lg, None)
             | None \<Rightarrow> (lg, None))
      in case err of
           Some e \<Rightarrow> (lg, Some e)
         | None \<Rightarrow>
             (if lop_AddContainerHook opts
              then (lg\<lparr>lg_hooks := lg_hooks lg @ [\<lparr>ch_containerID = detectContainerID libs\<rparr>]\<rparr>, None)
              else (lg, None)))"

definition InitLogger ::
  "'w log_libs \<Rightarrow> LogConfig \<Rightarrow> 'w logrus \<Rightarrow> 'w logrus \<times> go_error option" where
  "InitLogger libs cfg lg =
     InitLoggerWithOptions libs cfg
       \<lparr>lop_ServiceName = '''', lop_FileConfig = None, lop_AddContainerHook = False\<rparr> lg"

definition InitLoggerWithFile ::
  "'w log_libs \<Rightarrow> LogConfig \<Rightarrow> string \<Rightarrow> 'w logrus \<Rightarrow> 'w logrus \<times> go_error option" where
  "InitLoggerWithFile libs cfg serviceName lg =
     InitLoggerWithOptions libs cfg
       \<lparr>lop_ServiceName = serviceName,
        lop_FileConfig =
          Some \<lparr>lf_Enabled = True, lf_Dir = ''./logs'', lf_Filename = serviceName,
                lf_MaxAgeDays = 7, lf_RotationDays = 1\<rparr>,
        lop_AddContainerHook = True\<rparr> lg"

text \<open>A container is always named, and the hook tags every entry with it.\<close>

lemma detectContainerID_nonempty: "detectContainerID libs \<noteq> ''''"
  by (auto simp: detectContainerID_def Let_def split: sum.splits)

lemma configure_logger_fields [simp]:
  "lg_hooks (configure_logger libs cfg lg) = lg_hooks lg"
  "lg_output (configure_logger libs cfg lg) = lg_output lg"
  "lg_ReportCaller (configure_logger libs cfg lg) = lc_ReportCaller cfg"
  "lg_level (configure_logger libs cfg lg) =
     (case ll_ParseLevel libs (lc_Level cfg) of Inr l \<Rightarrow> l | Inl _ \<Rightarrow> InfoLevel)"
  "lg_formatter (configure_logger libs cfg lg) =
     (if lc_Format cfg = ''text'' then TextFormatter else JSONFormatter)"
  by (simp_all add: configure_logger_def log_message_def Let_def split: sum.split)

lemma setupFileOutput_hooks:
  "lg_hooks (fst (setupFileOutput libs fc serviceName lg)) = lg_hooks lg"
  by (simp add: setupFileOutput_def log_message_def Let_def split del: if_split
      split: option.split sum.split)

text \<open>The logger fails only over its log file, and then without the container hook.\<close>

lemma InitLoggerWithOptions_result:
  assumes "InitLoggerWithOptions libs cfg opts lg = (lg', err)"
  shows "lg_hooks lg' = lg_hooks lg @
      (if err = None \<and> lop_AddContainerHook opts
       then [\<lparr>ch_containerID = detectContainerID libs\<rparr>] else [])"
    and "err = (case lop_FileConfig opts of
        None \<Rightarrow> None
      | Some fc \<Rightarrow>
          if lf_Enabled fc
          then snd (setupFileOutput libs fc (lop_ServiceName opts) (configure_logger libs cfg lg))
          else None)"
  using assms
    setupFileOutput_hooks [of libs _ "lop_ServiceName opts" "configure_logger libs cfg lg"]
  by (auto simp: InitLoggerWithOptions_def Let_def split: option.splits prod.splits if_splits)
     (metis fst_conv)+

lemma InitLogger_configures:
  "InitLogger libs cfg lg = (configure_logger libs cfg lg, None)"
  by (simp add: InitLogger_def InitLoggerWithOptions_def)

section \<open>The package logger\<close>

text \<open>
  The other functions of \<open>pkg/logger\<close> forward to the function of the same name in logrus, which is an
  argument: \<open>'l\<close> is its standard logger, \<open>'e\<close> its entries, \<open>'a\<close> the values that are logged. A severity
  stands for the eight functions of each of the three families.
\<close>

datatype log_severity = LogTrace | LogDebug | LogInfo | LogWarn | LogError | LogFatal | LogPanic | LogPrint

record ('l, 'e, 'a, 'h, 'f, 'w, 'c) logrus_pkg =
  lp_StandardLogger :: 'l
  lp_New :: 'l
  lp_NewEntry :: "'l \<Rightarrow> 'e"
  lp_AddHook :: "'h \<Rightarrow> 'l \<Rightarrow> 'l"
  lp_SetFormatter :: "'f \<Rightarrow> 'l \<Rightarrow> 'l"
  lp_SetLevel :: "log_level \<Rightarrow> 'l \<Rightarrow> 'l"
  lp_ParseLevel :: "string \<Rightarrow> log_level go_result"
  lp_SetOutput :: "'w \<Rightarrow> 'l \<Rightarrow> 'l"
  lp_SetReportCaller :: "bool \<Rightarrow> 'l \<Rightarrow> 'l"
  lp_IsLevelEnabled :: "log_level \<Rightarrow> 'l \<Rightarrow> bool"
  lp_WithField :: "string \<Rightarrow> 'a \<Rightarrow> 'l \<Rightarrow> 'e"
  lp_WithFields :: "(string \<rightharpoonup> 'a) \<Rightarrow> 'l \<Rightarrow> 'e"
  lp_WithError :: "go_error option \<Rightarrow> 'l \<Rightarrow> 'e"
  lp_WithContext :: "'c option \<Rightarrow> 'l \<Rightarrow> 'e"
  lp_log :: "log_severity \<Rightarrow> 'a list \<Rightarrow> 'l \<Rightarrow> 'l outcome"
  lp_logf :: "log_severity \<Rightarrow> string \<Rightarrow> 'a list \<Rightarrow> 'l \<Rightarrow> 'l outcome"
  lp_logln :: "log_severity \<Rightarrow> 'a list \<Rightarrow> 'l \<Rightarrow> 'l outcome"

definition logger_StandardLogger ::
  "('l, 'e, 'a, 'h, 'f, 'w, 'c) logrus_pkg \<Rightarrow> 'l" where
  "logger_StandardLogger lib = lp_StandardLogger lib"

definition logger_New :: "('l, 'e, 'a, 'h, 'f, 'w, 'c) logrus_pkg \<Rightarrow> 'l" where
  "logger_New lib = lp_New lib"

definition logger_NewEntry ::
  "('l, 'e, 'a, 'h, 'f, 'w, 'c) logrus_pkg \<Rightarrow> 'l \<Rightarrow> 'e" where
  "logger_NewEntry lib l = lp_NewEntry lib l"

definition logger_AddHook ::
  "('l, 'e, 'a, 'h, 'f, 'w, 'c) logrus_pkg \<Rightarrow> 'h \<Rightarrow> 'l \<Rightarrow> 'l" where
  "logger_AddHook lib h l = lp_AddHook lib h l"

definition logger_SetFormatter ::
  "('l, 'e, 'a, 'h, 'f, 'w, 'c) logrus_pkg \<Rightarrow> 'f \<Rightarrow> 'l \<Rightarrow> 'l" where
  "logger_SetFormatter lib f l = lp_SetFormatter lib f l"

definition logger_SetLevel ::
  "('l, 'e, 'a, 'h, 'f, 'w, 'c) logrus_pkg \<Rightarrow> log_level \<Rightarrow> 'l \<Rightarrow> 'l" where
  "logger_SetLevel lib level l = lp_SetLevel lib level l"

definition logger_ParseLevel ::
  "('l, 'e, 'a, 'h, 'f, 'w, 'c) logrus_pkg \<Rightarrow> string \<Rightarrow> log_level go_result" where
  "logger_ParseLevel lib level = lp_ParseLevel lib level"

definition logger_SetOutput ::
  "('l, 'e, 'a, 'h, 'f, 'w, 'c) logrus_pkg \<Rightarrow> 'w \<Rightarrow> 'l \<Rightarrow> 'l" where
  "logger_SetOutput lib out l = lp_SetOutput lib out l"

definition logger_SetReportCaller ::
  "('l, 'e, 'a, 'h, 'f, 'w, 'c) logrus_pkg \<Rightarrow> bool \<Rightarrow> 'l \<Rightarrow> 'l" where
  "logger_SetReportCaller lib report l = lp_SetReportCaller lib report l"

definition logger_IsLevelEnabled ::
  "('l, 'e, 'a, 'h, 'f, 'w, 'c) logrus_pkg \<Rightarrow> log_level \<Rightarrow> 'l \<Rightarrow> bool" where
  "logger_IsLevelEnabled lib level l = lp_IsLevelEnabled lib level l"

definition logger_WithField ::
  "('l, 'e, 'a, 'h, 'f, 'w, 'c) logrus_pkg \<Rightarrow> string \<Rightarrow> 'a \<Rightarrow> 'l \<Rightarrow> 'e" where
  "logger_WithField lib key v l = lp_WithField lib key v l"

definition logger_WithFields ::
  "('l, 'e, 'a, 'h, 'f, 'w, 'c) logrus_pkg \<Rightarrow> (string \<rightharpoonup> 'a) \<Rightarrow> 'l \<Rightarrow> 'e" where
  "logger_WithFields lib fs l = lp_WithFields lib fs l"

definition logger_WithError ::
  "('l, 'e, 'a, 'h, 'f, 'w, 'c) logrus_pkg \<Rightarrow> go_error option \<Rightarrow> 'l \<Rightarrow> 'e" where
  "logger_WithError lib err l = lp_WithError lib err l"

definition logger_WithContext ::
  "('l, 'e, 'a, 'h, 'f, 'w, 'c) logrus_pkg \<Rightarrow> 'c option \<Rightarrow> 'l \<Rightarrow> 'e" where
  "logger_WithContext lib ctx l = lp_WithContext lib ctx l"

definition logger_log ::
  "('l, 'e, 'a, 'h, 'f, 'w, 'c) logrus_pkg \<Rightarrow> log_severity \<Rightarrow> 'a list \<Rightarrow> 'l \<Rightarrow> 'l outcome" where
  "logger_log lib sev args l = lp_log lib sev args l"

definition logger_logf ::
  "('l, 'e, 'a, 'h, 'f, 'w, 'c) logrus_pkg \<Rightarrow> log_severity \<Rightarrow> string \<Rightarrow> 'a list \<Rightarrow> 'l \<Rightarrow> 'l outcome" where
  "logger_logf lib sev format args l = lp_logf lib sev format args l"

definition logger_logln ::
  "('l, 'e, 'a, 'h, 'f, 'w, 'c) logrus_pkg \<Rightarrow> log_severity \<Rightarrow> 'a list \<Rightarrow> 'l \<Rightarrow> 'l outcome" where
  "logger_logln lib sev args l = lp_logln lib sev args l"

section \<open>Redis and tracing\<close>

record redis_options =
  ro_Addr :: string
  ro_Username :: string
  ro_Password :: string
  ro_DB :: int

definition InitRedis ::
  "(redis_options \<Rightarrow> 'r) \<Rightarrow> ('r \<Rightarrow> go_error option) \<Rightarrow> RedisConfig \<Rightarrow> 'r go_result" where
  "InitRedis NewClient Ping cfg =
     (let client = NewClient \<lparr>ro_Addr = rdc_Addr cfg, ro_Username = rdc_Username cfg,
                              ro_Password = rdc_Password cfg, ro_DB = rdc_Db cfg\<rparr>
      in case Ping client of Some err \<Rightarrow> Inl err | None \<Rightarrow> Inr client)"

datatype otlp_option = WithEndpoint string | WithInsecure

record ('e, 'r) otel_libs =
  ol_stdouttrace_New :: "'e go_result"
  ol_otlptracegrpc_New :: "otlp_option list \<Rightarrow> 'e go_result"
  ol_resource_Merge :: "(string \<times> string) list \<Rightarrow> 'r go_result"

record ('e, 'r) tracer_provider =
  tp_exporter :: 'e
  tp_resource :: 'r
  tp_ratio :: float64

text \<open>The provider that becomes the global one, or none when tracing is off and the shutdown
  function does nothing. Resource tags are listed in the order the map is walked.\<close>

definition InitTracing ::
  "('e, 'r) otel_libs \<Rightarrow> TracingConfig \<Rightarrow> ('e, 'r) tracer_provider option go_result" where
  "InitTracing libs cfg =
     (let exporterName = trc_Exporter cfg
      in if exporterName = '''' \<or> exporterName = ''disabled'' then Inr None
         else
           (let exporter =
              (if exporterName = ''stdout'' then ol_stdouttrace_New libs
               else if exporterName = ''otlp'' \<or> exporterName = ''otlp-grpc''
               then ol_otlptracegrpc_New libs
                      ((if trc_Endpoint cfg \<noteq> '''' then [WithEndpoint (trc_Endpoint cfg)] else []) @
                       (if trc_Insecure cfg then [WithInsecure] else []))
               else ol_stdouttrace_New libs)
            in case exporter of
                 Inl err \<Rightarrow> Inl err
               | Inr ex \<Rightarrow>
                   (let serviceName =
                      (if trc_ServiceName cfg = '''' then ''unknown-service'' else trc_ServiceName cfg);
                        attrs = (''service.name'', serviceName) # trc_ResourceTags cfg
                    in case ol_resource_Merge libs attrs of
                         Inl err \<Rightarrow> Inl err
                       | Inr res \<Rightarrow>
                           (let ratio = trc_SampleRatio cfg;
                                ratio = (if float_le ratio 0 \<or> float_gt ratio 1 then Finite 1
                                         else ratio)
                            in Inr (Some \<lparr>tp_exporter = ex, tp_resource = res,
                                          tp_ratio = ratio\<rparr>)))))"

text \<open>The sampling ratio of a provider lies in (0, 1], or is the NaN that was configured.\<close>

lemma InitTracing_ratio:
  assumes "InitTracing libs cfg = Inr (Some p)"
  shows "tp_ratio p = NaN \<or> (\<exists>x. tp_ratio p = Finite x \<and> 0 < x \<and> x \<le> 1)"
  using assms
  by (cases "trc_SampleRatio cfg")
     (auto simp: InitTracing_def Let_def split: sum.splits if_splits)

end
