(* ===== verification/Kafka.thy ===== *)
theory Kafka
  imports Go_Strings
begin

text \<open>
  \<open>pkg/kafka/manager.go\<close> and \<open>pkg/bootstrap/kafka.go\<close>: the shared producer with its settings,
  the carrier that holds trace context in message headers, publishing with its observer, consumer
  groups on a copy of the base settings, closing once, and the SCRAM client. \<open>sarama\<close>, the SCRAM
  library and the propagator are arguments; an observer is only an identity, and a function that
  may call observers returns the calls it makes.
\<close>

section \<open>Settings\<close>

record KafkaConfig =
  kc_Brokers :: "string list"
  kc_Topic :: string
  kc_ClientID :: string
  kc_Username :: string
  kc_Password :: string
  kc_SASLMechanism :: string
  kc_TLSEnabled :: bool
  kc_RequiredAcks :: string
  kc_MaxAttempts :: int

datatype RequiredAcks = NoResponse | WaitForLocal | WaitForAll

datatype sasl_mechanism = SASLTypePlaintext | SASLTypeSCRAMSHA256 | SASLTypeSCRAMSHA512

datatype scram_hash = SHA256 | SHA512

datatype tls_version = VersionTLS12

datatype kafka_version = V2_1_0_0 | OtherVersion string

record sarama_config =
  sa_Version :: kafka_version
  sa_ClientID :: string
  sa_Producer_Return_Successes :: bool
  sa_Producer_Retry_Max :: int
  sa_Producer_RequiredAcks :: RequiredAcks
  sa_Producer_Idempotent :: bool
  sa_TLS_Enable :: bool
  sa_TLS_MinVersion :: "tls_version option"
  sa_SASL_Enable :: bool
  sa_SASL_User :: string
  sa_SASL_Password :: string
  sa_SASL_Mechanism :: "sasl_mechanism option"
  sa_SASL_SCRAMGenerator :: "scram_hash option"
  sa_Consumer_Return_Errors :: bool
  sa_Consumer_Offsets_Initial :: i64
  sa_Consumer_GroupStrategies :: "string list"

definition OffsetNewest :: i64 where
  "OffsetNewest = -1"

type_synonym header = "string \<times> string"

record producer_message =
  pm_Topic :: string
  pm_Key :: "string option"
  pm_Value :: "string option"
  pm_Headers :: "header list"

record ('p, 'g) sarama_lib =
  sarama_NewConfig :: sarama_config
  sarama_NewSyncProducer :: "string list \<Rightarrow> sarama_config \<Rightarrow> 'p go_result"
  sarama_SendMessage :: "producer_message \<Rightarrow> 'p \<Rightarrow> 'p \<times> go_error option"
  sarama_producer_Close :: "'p \<Rightarrow> 'p \<times> go_error option"
  sarama_NewConsumerGroup :: "string list \<Rightarrow> string \<Rightarrow> sarama_config \<Rightarrow> 'g go_result"

definition parseRequiredAcks :: "string \<Rightarrow> RequiredAcks" where
  "parseRequiredAcks v =
     (let s = ToLower (TrimSpace v)
      in if s = ''none'' then NoResponse
         else if s = ''one'' then WaitForLocal
         else if s = ''all'' \<or> s = '''' then WaitForAll
         else WaitForAll)"

definition kafka_max :: "int \<Rightarrow> int \<Rightarrow> int" where
  "kafka_max a b = (if b < a then a else b)"

section \<open>Trace headers\<close>

type_synonym kafkaHeadersCarrier = "header list"

fun carrier_Get :: "kafkaHeadersCarrier \<Rightarrow> string \<Rightarrow> string" where
  "carrier_Get [] key = ''''"
| "carrier_Get (h # hs) key = (if fst h = key then snd h else carrier_Get hs key)"

definition carrier_Set :: "kafkaHeadersCarrier \<Rightarrow> string \<Rightarrow> string \<Rightarrow> kafkaHeadersCarrier" where
  "carrier_Set c key v = c @ [(key, v)]"

definition carrier_Keys :: "kafkaHeadersCarrier \<Rightarrow> string list" where
  "carrier_Keys c = map fst c"

text \<open>A propagator is the list of \<open>Set\<close> calls it makes for a context.\<close>

type_synonym injector = "go_context \<Rightarrow> (string \<times> string) list"

definition inject_headers :: "injector \<Rightarrow> go_context \<Rightarrow> kafkaHeadersCarrier" where
  "inject_headers inject ctx = foldl (\<lambda>c (k, v). carrier_Set c k v) [] (inject ctx)"

section \<open>The manager\<close>

record ('p, 'o) Manager =
  mg_cfg :: KafkaConfig
  mg_producer :: 'p
  mg_baseConf :: sarama_config
  mg_publishObserver :: "'o option"
  mg_consumeObserver :: "'o option"
  mg_closeOnce :: bool

definition base_config :: "sarama_config \<Rightarrow> KafkaConfig \<Rightarrow> sarama_config" where
  "base_config base cfg =
     (let base = base\<lparr>sa_Version := V2_1_0_0\<rparr>;
          base = (if kc_ClientID cfg \<noteq> '''' then base\<lparr>sa_ClientID := kc_ClientID cfg\<rparr> else base);
          base = base\<lparr>sa_Producer_Return_Successes := True,
                      sa_Producer_Retry_Max := kafka_max (kc_MaxAttempts cfg) 3,
                      sa_Producer_RequiredAcks := parseRequiredAcks (kc_RequiredAcks cfg),
                      sa_Producer_Idempotent := False\<rparr>;
          base = (if kc_TLSEnabled cfg
                  then base\<lparr>sa_TLS_Enable := True, sa_TLS_MinVersion := Some VersionTLS12\<rparr>
                  else base)
      in if kc_Username cfg \<noteq> ''''
         then
           (let base = base\<lparr>sa_SASL_Enable := True, sa_SASL_User := kc_Username cfg,
                            sa_SASL_Password := kc_Password cfg\<rparr>;
                mech = ToUpper (TrimSpace (kc_SASLMechanism cfg))
            in if mech = ''SCRAM-SHA-512''
               then base\<lparr>sa_SASL_Mechanism := Some SASLTypeSCRAMSHA512,
                         sa_SASL_SCRAMGenerator := Some SHA512\<rparr>
               else if mech = ''SCRAM-SHA-256''
               then base\<lparr>sa_SASL_Mechanism := Some SASLTypeSCRAMSHA256,
                         sa_SASL_SCRAMGenerator := Some SHA256\<rparr>
               else if mech = ''PLAIN'' \<or> mech = ''''
               then base\<lparr>sa_SASL_Mechanism := Some SASLTypePlaintext\<rparr>
               else base\<lparr>sa_SASL_Mechanism := Some SASLTypePlaintext\<rparr>)
         else base)"

definition NewManager :: "('p, 'g) sarama_lib \<Rightarrow> KafkaConfig \<Rightarrow> ('p, 'o) Manager go_result" where
  "NewManager lib cfg =
     (if kc_Brokers cfg = [] then Inl (ErrorsNew ''kafka brokers empty'')
      else
        (let base = base_config (sarama_NewConfig lib) cfg
         in case sarama_NewSyncProducer lib (kc_Brokers cfg) base of
              Inl err \<Rightarrow> Inl err
            | Inr producer \<Rightarrow>
                Inr \<lparr>mg_cfg = cfg, mg_producer = producer, mg_baseConf = base,
                     mg_publishObserver = None, mg_consumeObserver = None,
                     mg_closeOnce = False\<rparr>))"

definition InitKafka :: "('p, 'g) sarama_lib \<Rightarrow> KafkaConfig \<Rightarrow> ('p, 'o) Manager go_result" where
  "InitKafka lib cfg = NewManager lib cfg"

definition SetPublishObserver ::
  "('p, 'o) Manager option \<Rightarrow> 'o option \<Rightarrow> ('p, 'o) Manager option" where
  "SetPublishObserver m observer = map_option (mg_publishObserver_update (\<lambda>_. observer)) m"

definition publishObserverSnapshot :: "('p, 'o) Manager option \<Rightarrow> 'o option" where
  "publishObserverSnapshot m = (case m of None \<Rightarrow> None | Some mg \<Rightarrow> mg_publishObserver mg)"

definition SetConsumeObserver ::
  "('p, 'o) Manager option \<Rightarrow> 'o option \<Rightarrow> ('p, 'o) Manager option" where
  "SetConsumeObserver m observer = map_option (mg_consumeObserver_update (\<lambda>_. observer)) m"

definition consumeObserverSnapshot :: "('p, 'o) Manager option \<Rightarrow> 'o option" where
  "consumeObserverSnapshot m = (case m of None \<Rightarrow> None | Some mg \<Rightarrow> mg_consumeObserver mg)"

text \<open>The body of \<open>Publish\<close> before its deferred observation: the topic it settled on, the producer
  and the error.\<close>

definition publish_body ::
  "('p, 'g) sarama_lib \<Rightarrow> injector \<Rightarrow> ('p, 'o) Manager \<Rightarrow> go_context \<Rightarrow> string \<Rightarrow> string \<Rightarrow> string \<Rightarrow>
     string \<times> 'p \<times> go_error option" where
  "publish_body lib inject m ctx topic key v =
     (let topic = (if topic = '''' then kc_Topic (mg_cfg m) else topic)
      in if topic = '''' then (topic, mg_producer m, Some (ErrorsNew ''kafka topic empty''))
         else
           (let headers = inject_headers inject ctx;
                msg = \<lparr>pm_Topic = topic, pm_Key = (if key \<noteq> '''' then Some key else None),
                       pm_Value = (if v \<noteq> '''' then Some v else None), pm_Headers = headers\<rparr>
            in case ctx_err ctx of
                 Some err \<Rightarrow> (topic, mg_producer m, Some err)
               | None \<Rightarrow>
                   (case sarama_SendMessage lib msg (mg_producer m) of
                      (p, err) \<Rightarrow> (topic, p, err))))"

definition Publish ::
  "('p, 'g) sarama_lib \<Rightarrow> injector \<Rightarrow> nanos \<Rightarrow> ('p, 'o) Manager option \<Rightarrow> go_context \<Rightarrow> string \<Rightarrow> string \<Rightarrow>
     string \<Rightarrow> ('p, 'o) Manager option \<times> ('o \<times> string \<times> nanos \<times> go_error option) list \<times> go_error option"
  where
  "Publish lib inject elapsed m ctx topic key v =
     (case m of
        None \<Rightarrow> (None, [], Some (ErrorsNew ''kafka manager nil''))
      | Some mg \<Rightarrow>
          (case publish_body lib inject mg ctx topic key v of
             (topic', p, err) \<Rightarrow>
               (Some (mg\<lparr>mg_producer := p\<rparr>),
                case publishObserverSnapshot m of
                  None \<Rightarrow> []
                | Some observer \<Rightarrow> [(observer, topic', elapsed, err)],
                err)))"

definition ObserveConsume ::
  "('p, 'o) Manager option \<Rightarrow> string \<Rightarrow> string \<Rightarrow> string \<Rightarrow> nanos \<Rightarrow> go_error option \<Rightarrow>
     ('o \<times> string \<times> string \<times> string \<times> nanos \<times> go_error option) list" where
  "ObserveConsume m topic grp eventType duration err =
     (case consumeObserverSnapshot m of
        None \<Rightarrow> []
      | Some observer \<Rightarrow> [(observer, topic, grp, eventType, duration, err)])"

record ConsumerGroupOptions =
  cg_InitialOffset :: i64
  cg_GroupStrategies :: "string list option"

definition NewConsumerGroupWithOptions ::
  "('p, 'g) sarama_lib \<Rightarrow> ('p, 'o) Manager option \<Rightarrow> string \<Rightarrow> ConsumerGroupOptions \<Rightarrow> 'g go_result" where
  "NewConsumerGroupWithOptions lib m grp opts =
     (case m of
        None \<Rightarrow> Inl (ErrorsNew ''kafka manager nil'')
      | Some mg \<Rightarrow>
          if grp = '''' then Inl (ErrorsNew ''kafka consumer group empty'')
          else
            (let cfg = (mg_baseConf mg)\<lparr>sa_Consumer_Return_Errors := True\<rparr>;
                 cfg = (if cg_InitialOffset opts = 0
                        then cfg\<lparr>sa_Consumer_Offsets_Initial := OffsetNewest\<rparr>
                        else cfg\<lparr>sa_Consumer_Offsets_Initial := cg_InitialOffset opts\<rparr>);
                 cfg = (case cg_GroupStrategies opts of
                          None \<Rightarrow> cfg
                        | Some gs \<Rightarrow> cfg\<lparr>sa_Consumer_GroupStrategies := gs\<rparr>)
             in sarama_NewConsumerGroup lib (kc_Brokers (mg_cfg mg)) grp cfg))"

definition NewConsumerGroup ::
  "('p, 'g) sarama_lib \<Rightarrow> ('p, 'o) Manager option \<Rightarrow> string \<Rightarrow> 'g go_result" where
  "NewConsumerGroup lib m grp =
     (case m of
        None \<Rightarrow> Inl (ErrorsNew ''kafka manager nil'')
      | Some mg \<Rightarrow>
          if grp = '''' then Inl (ErrorsNew ''kafka consumer group empty'')
          else NewConsumerGroupWithOptions lib m grp
                 \<lparr>cg_InitialOffset = 0, cg_GroupStrategies = None\<rparr>)"

text \<open>The producer of a manager that \<open>NewManager\<close> returned is never nil.\<close>

definition Manager_Close ::
  "('p, 'g) sarama_lib \<Rightarrow> ('p, 'o) Manager \<Rightarrow> ('p, 'o) Manager \<times> go_error option" where
  "Manager_Close lib m =
     (if mg_closeOnce m then (m, None)
      else
        (case sarama_producer_Close lib (mg_producer m) of
           (p, err) \<Rightarrow> (m\<lparr>mg_producer := p, mg_closeOnce := True\<rparr>, err)))"

lemmas [once_defs] = Manager_Close_def

section \<open>SCRAM\<close>

record ('c, 'v) scram_lib =
  scram_NewClient :: "scram_hash \<Rightarrow> string \<Rightarrow> string \<Rightarrow> string \<Rightarrow> 'c go_result"
  scram_NewConversation :: "'c \<Rightarrow> 'v"
  scram_Step :: "string \<Rightarrow> 'v \<Rightarrow> 'v \<times> string go_result"
  scram_Done :: "'v \<Rightarrow> bool"

record ('c, 'v) scramClient =
  scr_Client :: "'c option"
  scr_Conversation :: "'v option"
  scr_hash :: scram_hash

definition newSCRAMClient :: "scram_hash \<Rightarrow> ('c, 'v) scramClient" where
  "newSCRAMClient h = \<lparr>scr_Client = None, scr_Conversation = None, scr_hash = h\<rparr>"

definition scram_Begin ::
  "('c, 'v) scram_lib \<Rightarrow> ('c, 'v) scramClient \<Rightarrow> string \<Rightarrow> string \<Rightarrow> string \<Rightarrow>
     ('c, 'v) scramClient \<times> go_error option" where
  "scram_Begin lib c userName password authzID =
     (case scram_NewClient lib (scr_hash c) userName password authzID of
        Inl err \<Rightarrow> (c, Some err)
      | Inr client \<Rightarrow>
          (c\<lparr>scr_Client := Some client,
             scr_Conversation := Some (scram_NewConversation lib client)\<rparr>, None))"

text \<open>Before \<open>Begin\<close> the embedded conversation is a nil pointer.\<close>

definition scramClient_Step ::
  "('c, 'v) scram_lib \<Rightarrow> ('c, 'v) scramClient \<Rightarrow> string \<Rightarrow>
     (('c, 'v) scramClient \<times> string go_result) outcome" where
  "scramClient_Step lib c challenge =
     (case scr_Conversation c of
        None \<Rightarrow> Panics ''invalid memory address or nil pointer dereference''
      | Some v \<Rightarrow>
          (case scram_Step lib challenge v of
             (v', res) \<Rightarrow> Returns (c\<lparr>scr_Conversation := Some v'\<rparr>, res)))"

definition scramClient_Done :: "('c, 'v) scram_lib \<Rightarrow> ('c, 'v) scramClient \<Rightarrow> bool outcome" where
  "scramClient_Done lib c =
     (case scr_Conversation c of
        None \<Rightarrow> Panics ''invalid memory address or nil pointer dereference''
      | Some v \<Rightarrow> Returns (scram_Done lib v))"

section \<open>Laws\<close>

interpretation kafka_once: once_guarded mg_closeOnce "Manager_Close lib"
  by unfold_locales (simp_all add: once_defs split: prod.split)

text \<open>The carrier is a list that only grows: a key that is already there keeps its value.\<close>

lemma carrier_Get_Set:
  "carrier_Get (carrier_Set c k v) k' =
     (if k' \<in> set (carrier_Keys c) then carrier_Get c k' else if k' = k then v else '''')"
proof -
  have "carrier_Get (c @ [(k, v)]) k' =
      (if k' \<in> fst ` set c then carrier_Get c k' else if k' = k then v else '''')"
  proof (induction c)
    case (Cons h c)
    then show ?case by (cases "fst h = k'") simp_all
  qed simp
  then show ?thesis by (simp add: carrier_Set_def carrier_Keys_def)
qed

lemma inject_headers_eq [simp]: "inject_headers inject ctx = inject ctx"
proof -
  have "foldl (\<lambda>c (k, v). carrier_Set c k v) c xs = c @ xs" for c and xs :: "(string \<times> string) list"
    by (induction xs arbitrary: c) (auto simp: carrier_Set_def)
  then show ?thesis by (simp add: inject_headers_def)
qed

lemma carrier_Get_map_of:
  "carrier_Get c k = (case map_of c k of None \<Rightarrow> '''' | Some v \<Rightarrow> v)"
  by (induction c) auto

lemma parseRequiredAcks_cases:
  "parseRequiredAcks v = NoResponse \<longleftrightarrow> ToLower (TrimSpace v) = ''none''"
  "parseRequiredAcks v = WaitForLocal \<longleftrightarrow> ToLower (TrimSpace v) = ''one''"
  by (auto simp: parseRequiredAcks_def Let_def)

lemma base_config_fields:
  "sa_Producer_Retry_Max (base_config b cfg) = max (kc_MaxAttempts cfg) 3"
  "sa_Producer_RequiredAcks (base_config b cfg) = parseRequiredAcks (kc_RequiredAcks cfg)"
  "sa_Producer_Return_Successes (base_config b cfg)"
  "\<not> sa_Producer_Idempotent (base_config b cfg)"
  "kc_TLSEnabled cfg \<Longrightarrow> sa_TLS_Enable (base_config b cfg) \<and>
     sa_TLS_MinVersion (base_config b cfg) = Some VersionTLS12"
  "kc_Username cfg \<noteq> '''' \<Longrightarrow> sa_SASL_Enable (base_config b cfg) \<and>
     sa_SASL_User (base_config b cfg) = kc_Username cfg \<and>
     sa_SASL_Password (base_config b cfg) = kc_Password cfg"
  by (simp_all add: base_config_def kafka_max_def Let_def)

text \<open>The SCRAM generator always fits the mechanism, when SCRAM was not set up beforehand.\<close>

lemma base_config_mechanism:
  assumes "sa_SASL_Mechanism b = None" and "sa_SASL_SCRAMGenerator b = None"
  shows "sa_SASL_SCRAMGenerator (base_config b cfg) =
    (case sa_SASL_Mechanism (base_config b cfg) of
       Some SASLTypeSCRAMSHA256 \<Rightarrow> Some SHA256
     | Some SASLTypeSCRAMSHA512 \<Rightarrow> Some SHA512
     | _ \<Rightarrow> None)"
  using assms by (simp add: base_config_def Let_def)

text \<open>Publishing: the error is what decides whether the producer was used, one message carries the
  resolved topic and the injected headers, and an observer sees that topic and that error.\<close>

lemma Publish_sends:
  assumes "ctx_err ctx = None"
    and "(if topic = '''' then kc_Topic (mg_cfg m) else topic) = t" and "t \<noteq> ''''"
    and "sarama_SendMessage lib
           \<lparr>pm_Topic = t, pm_Key = (if key \<noteq> '''' then Some key else None),
            pm_Value = (if v \<noteq> '''' then Some v else None), pm_Headers = inject ctx\<rparr>
           (mg_producer m) = (p, err)"
  shows "Publish lib inject elapsed (Some m) ctx topic key v =
    (Some (m\<lparr>mg_producer := p\<rparr>),
     (case mg_publishObserver m of None \<Rightarrow> [] | Some ob \<Rightarrow> [(ob, t, elapsed, err)]), err)"
  using assms by (simp add: Publish_def publish_body_def publishObserverSnapshot_def Let_def)

lemma Publish_refused:
  assumes "ctx_done ctx \<or> (topic = '''' \<and> kc_Topic (mg_cfg m) = '''')"
  shows "\<exists>e. Publish lib inject elapsed (Some m) ctx topic key v =
    (Some m,
     (case mg_publishObserver m of
        None \<Rightarrow> []
      | Some ob \<Rightarrow>
          [(ob, if topic = '''' then kc_Topic (mg_cfg m) else topic, elapsed, Some e)]), Some e)"
  using assms
  by (auto simp: Publish_def publish_body_def publishObserverSnapshot_def ctx_done_def Let_def
      split: option.split)

end
