(* ===== verification/Secrets.thy ===== *)
theory Secrets
  imports Config
begin

text \<open>
  \<open>pkg/config/secrets.go\<close> and \<open>pkg/config/loader.go\<close>. The operating system is a record of the
  environment variables and the files, \<open>viper\<close> and \<open>godotenv\<close> are arguments over their own
  state. A \<open>*string\<close> is an address into a memory of strings: the fields of the caller's
  configuration that secret definitions point at, which \<open>viper.Unmarshal\<close> and the injection of
  the secrets both write.
\<close>

section \<open>The environment\<close>

record os_env =
  os_vars :: "string \<rightharpoonup> string"
  os_files :: "string \<Rightarrow> string go_result"

definition os_Getenv :: "os_env \<Rightarrow> string \<Rightarrow> string" where
  "os_Getenv os k = (case os_vars os k of None \<Rightarrow> '''' | Some v \<Rightarrow> v)"

definition GetEnv :: "os_env \<Rightarrow> string" where
  "GetEnv os =
     (let env = os_Getenv os ''APP_ENV'' in if env = '''' then ''dev'' else env)"

fun first_set :: "os_env \<Rightarrow> string list \<Rightarrow> string option" where
  "first_set os [] = None"
| "first_set os (key # keys) =
     (let v = os_Getenv os key in if v \<noteq> '''' then Some v else first_set os keys)"

definition GetNodeID :: "os_env \<Rightarrow> string list \<Rightarrow> string" where
  "GetNodeID os envKeys =
     (case first_set os envKeys of
        Some v \<Rightarrow> v
      | None \<Rightarrow>
          (let v = os_Getenv os ''HOSTNAME'' in if v \<noteq> '''' then v else ''''))"

section \<open>Secrets\<close>

definition GetSecretOrEnv :: "os_env \<Rightarrow> string \<Rightarrow> string \<Rightarrow> string" where
  "GetSecretOrEnv os name defaultValue =
     (let filePath = os_Getenv os (name @ ''_FILE'');
          file = (if filePath \<noteq> '''' then os_files os filePath else Inl OsErrNotExist)
      in case file of
           Inr data \<Rightarrow> TrimSpace data
         | Inl _ \<Rightarrow>
             (let v = os_Getenv os name in if v \<noteq> '''' then v else defaultValue))"

definition MustGetSecret :: "os_env \<Rightarrow> string \<Rightarrow> string outcome" where
  "MustGetSecret os name =
     (let v = GetSecretOrEnv os name ''''
      in if v = '''' then Panics (''required secret not found: '' @ name) else Returns v)"

record SecretLoader =
  sl_secrets :: "string \<rightharpoonup> string"

definition NewSecretLoader :: SecretLoader where
  "NewSecretLoader = \<lparr>sl_secrets = Map.empty\<rparr>"

definition SecretLoader_Load :: "os_env \<Rightarrow> SecretLoader \<Rightarrow> string \<Rightarrow> string \<Rightarrow> SecretLoader" where
  "SecretLoader_Load os l name defaultValue =
     l\<lparr>sl_secrets := (sl_secrets l)(name \<mapsto> GetSecretOrEnv os name defaultValue)\<rparr>"

definition SecretLoader_MustLoad ::
  "os_env \<Rightarrow> SecretLoader \<Rightarrow> string \<Rightarrow> SecretLoader outcome" where
  "SecretLoader_MustLoad os l name =
     (case MustGetSecret os name of
        Panics msg \<Rightarrow> Panics msg
      | Returns v \<Rightarrow> Returns (l\<lparr>sl_secrets := (sl_secrets l)(name \<mapsto> v)\<rparr>))"

definition SecretLoader_Get :: "SecretLoader \<Rightarrow> string \<Rightarrow> string" where
  "SecretLoader_Get l name = (case sl_secrets l name of None \<Rightarrow> '''' | Some v \<Rightarrow> v)"

text \<open>\<open>All\<close> returns a copy; \<open>ApplyToConfig\<close> hands the loader's own map to the callback, which may
  write to it.\<close>

definition SecretLoader_All :: "SecretLoader \<Rightarrow> string \<rightharpoonup> string" where
  "SecretLoader_All l = sl_secrets l"

definition SecretLoader_ApplyToConfig ::
  "SecretLoader \<Rightarrow> ((string \<rightharpoonup> string) \<Rightarrow> 'c \<Rightarrow> (string \<rightharpoonup> string) \<times> 'c) \<Rightarrow> 'c \<Rightarrow> SecretLoader \<times> 'c" where
  "SecretLoader_ApplyToConfig l applier cfg =
     (case applier (sl_secrets l) cfg of (m, cfg') \<Rightarrow> (l\<lparr>sl_secrets := m\<rparr>, cfg'))"

section \<open>Loading a configuration\<close>

type_synonym addr = nat
type_synonym memory = "addr \<Rightarrow> string"

record 'v config_libs =
  godotenv_Load :: "string list \<Rightarrow> os_env \<Rightarrow> os_env \<times> go_error option"
  viper_SetConfigName :: "string \<Rightarrow> 'v \<Rightarrow> 'v"
  viper_SetConfigType :: "string \<Rightarrow> 'v \<Rightarrow> 'v"
  viper_AddConfigPath :: "string \<Rightarrow> 'v \<Rightarrow> 'v"
  viper_SetEnvPrefix :: "string \<Rightarrow> 'v \<Rightarrow> 'v"
  viper_SetEnvKeyReplacer :: "string \<Rightarrow> string \<Rightarrow> 'v \<Rightarrow> 'v"
  viper_AutomaticEnv :: "'v \<Rightarrow> 'v"
  viper_ReadInConfig :: "os_env \<Rightarrow> 'v \<Rightarrow> 'v \<times> go_error option"
  viper_Unmarshal :: "os_env \<Rightarrow> 'v \<Rightarrow> memory \<Rightarrow> memory \<times> go_error option"
  viper_IsConfigFileNotFound :: "go_error \<Rightarrow> bool"

record LoadOptions =
  lo_ConfigPath :: string
  lo_EnvPrefix :: string
  lo_AllowNoConfig :: bool

record 'v config_world =
  cw_os :: os_env
  cw_viper :: 'v
  cw_mem :: memory

text \<open>The \<open>.env\<close> file: a missing one is not an error.\<close>

definition load_dotenv :: "'v config_libs \<Rightarrow> os_env \<Rightarrow> os_env \<times> go_error option" where
  "load_dotenv libs os =
     (let envFile = os_Getenv os ''ENV_FILE''
      in if envFile \<noteq> ''''
         then
           (case godotenv_Load libs [envFile] os of
              (os', None) \<Rightarrow> (os', None)
            | (os', Some err) \<Rightarrow>
                (os', if \<not> errors_Is err OsErrNotExist
                      then Some (ErrWrap (''load '' @ envFile @ '' failed'') err) else None))
         else
           (case godotenv_Load libs [] os of
              (os', None) \<Rightarrow> (os', None)
            | (os', Some err) \<Rightarrow>
                (os', if \<not> errors_Is err OsErrNotExist
                      then Some (ErrWrap ''load .env failed'' err) else None)))"

definition prepare_viper :: "'v config_libs \<Rightarrow> LoadOptions \<Rightarrow> string \<Rightarrow> 'v \<Rightarrow> 'v" where
  "prepare_viper libs opt env v =
     (let v = viper_SetConfigName libs (''config_'' @ env) v;
          v = viper_SetConfigType libs ''yaml'' v;
          v = viper_AddConfigPath libs (lo_ConfigPath opt) v
      in if lo_EnvPrefix opt \<noteq> ''''
         then viper_AutomaticEnv libs
                (viper_SetEnvKeyReplacer libs ''.'' ''_''
                   (viper_SetEnvPrefix libs (lo_EnvPrefix opt) v))
         else v)"

definition LoadConfig ::
  "'v config_libs \<Rightarrow> LoadOptions list \<Rightarrow> 'v config_world \<Rightarrow> 'v config_world \<times> go_error option" where
  "LoadConfig libs opts w =
     (let opt = (case opts of
                   [] \<Rightarrow> \<lparr>lo_ConfigPath = ''./configs'', lo_EnvPrefix = '''', lo_AllowNoConfig = False\<rparr>
                 | o1 # _ \<Rightarrow> o1)
      in case load_dotenv libs (cw_os w) of
           (os, Some err) \<Rightarrow> (w\<lparr>cw_os := os\<rparr>, Some err)
         | (os, None) \<Rightarrow>
             (let env = os_Getenv os ''APP_ENV'';
                  env = (if env = '''' then ''dev'' else env);
                  (v, err) = viper_ReadInConfig libs os (prepare_viper libs opt env (cw_viper w));
                  w = w\<lparr>cw_os := os, cw_viper := v\<rparr>
              in case err of
                   Some e \<Rightarrow>
                     if viper_IsConfigFileNotFound libs e \<and> lo_AllowNoConfig opt
                     then
                       (case viper_Unmarshal libs os v (cw_mem w) of
                          (mem, Some e) \<Rightarrow>
                            (w\<lparr>cw_mem := mem\<rparr>, Some (ErrWrap ''unmarshal config failed'' e))
                        | (mem, None) \<Rightarrow> (w\<lparr>cw_mem := mem\<rparr>, None))
                     else (w, Some (ErrWrap ''read config failed'' e))
                 | None \<Rightarrow>
                     (case viper_Unmarshal libs os v (cw_mem w) of
                        (mem, Some e) \<Rightarrow>
                          (w\<lparr>cw_mem := mem\<rparr>, Some (ErrWrap ''unmarshal config failed'' e))
                      | (mem, None) \<Rightarrow> (w\<lparr>cw_mem := mem\<rparr>, None))))"

record SecretDefinition =
  sd_Name :: string
  sd_Target :: "addr option"
  sd_Default :: string
  sd_Required :: bool

fun inject_secrets ::
  "os_env \<Rightarrow> SecretDefinition list \<Rightarrow> memory \<Rightarrow> memory \<times> go_error option" where
  "inject_secrets os [] mem = (mem, None)"
| "inject_secrets os (s # secrets) mem =
     (let v = GetSecretOrEnv os (sd_Name s) (sd_Default s)
      in if sd_Required s \<and> v = '''' then (mem, Some (SecretNotFoundError (sd_Name s)))
         else
           (case sd_Target s of
              None \<Rightarrow> inject_secrets os secrets mem
            | Some a \<Rightarrow> inject_secrets os secrets (mem(a := v))))"

definition LoadConfigWithSecrets ::
  "'v config_libs \<Rightarrow> SecretDefinition list \<Rightarrow> LoadOptions list \<Rightarrow> 'v config_world \<Rightarrow>
     'v config_world \<times> go_error option" where
  "LoadConfigWithSecrets libs secrets opts w =
     (case LoadConfig libs opts w of
        (w', Some err) \<Rightarrow> (w', Some err)
      | (w', None) \<Rightarrow>
          (case inject_secrets (cw_os w') secrets (cw_mem w') of
             (mem, err) \<Rightarrow> (w'\<lparr>cw_mem := mem\<rparr>, err)))"

section \<open>Where a secret comes from\<close>

lemma GetSecretOrEnv_cases:
  obtains (from_file) p data where "os_Getenv os (name @ ''_FILE'') = p" and "p \<noteq> ''''"
      and "os_files os p = Inr data" and "GetSecretOrEnv os name d = TrimSpace data"
    | (from_variable) "os_Getenv os name \<noteq> ''''" and "GetSecretOrEnv os name d = os_Getenv os name"
    | (by_default) "os_Getenv os name = ''''" and "GetSecretOrEnv os name d = d"
  by (cases "os_files os (os_Getenv os (name @ ''_FILE''))";
      cases "os_Getenv os (name @ ''_FILE'') = ''''"; cases "os_Getenv os name = ''''")
     (auto simp: GetSecretOrEnv_def Let_def)

lemma MustGetSecret_returns_iff:
  "(\<exists>v. MustGetSecret os name = Returns v) \<longleftrightarrow> GetSecretOrEnv os name '''' \<noteq> ''''"
  by (simp add: MustGetSecret_def Let_def)

lemma SecretLoader_Get_Load:
  "SecretLoader_Get (SecretLoader_Load os l name d) k =
     (if k = name then GetSecretOrEnv os name d else SecretLoader_Get l k)"
  by (simp add: SecretLoader_Get_def SecretLoader_Load_def)

lemma first_set_None_iff:
  "first_set os keys = None \<longleftrightarrow> list_all (\<lambda>k. os_Getenv os k = '''') keys"
  by (induction keys) (auto simp: Let_def)

section \<open>Injection\<close>

text \<open>What a list of definitions leaves at an address: the value of the last definition that points
  there, or what was there before.\<close>

definition value_at ::
  "os_env \<Rightarrow> SecretDefinition list \<Rightarrow> memory \<Rightarrow> memory" where
  "value_at os secrets mem a =
     (case find (\<lambda>s. sd_Target s = Some a) (rev secrets) of
        None \<Rightarrow> mem a
      | Some s \<Rightarrow> GetSecretOrEnv os (sd_Name s) (sd_Default s))"

definition missing :: "os_env \<Rightarrow> SecretDefinition \<Rightarrow> bool" where
  "missing os s \<longleftrightarrow> sd_Required s \<and> GetSecretOrEnv os (sd_Name s) (sd_Default s) = ''''"

lemma find_append:
  "find P (xs @ ys) = (case find P xs of None \<Rightarrow> find P ys | Some x \<Rightarrow> Some x)"
  by (induction xs) auto

lemma value_at_Cons:
  "value_at os (s # secrets) mem =
     value_at os secrets
       (case sd_Target s of None \<Rightarrow> mem
        | Some a \<Rightarrow> mem(a := GetSecretOrEnv os (sd_Name s) (sd_Default s)))"
  by (rule ext) (auto simp: value_at_def find_append split: option.splits)

text \<open>The loop refines this specification: it fails at the first required secret that is missing,
  after writing those before it, and else writes them all.\<close>

lemma inject_secrets_spec:
  "inject_secrets os secrets mem =
     (let done = takeWhile (\<lambda>s. \<not> missing os s) secrets
      in (value_at os done mem,
          case find (missing os) secrets of
            None \<Rightarrow> None
          | Some s \<Rightarrow> Some (SecretNotFoundError (sd_Name s))))"
proof (induction secrets arbitrary: mem)
  case Nil
  then show ?case by (simp add: value_at_def)
next
  case (Cons s secrets)
  show ?case
  proof (cases "missing os s")
    case True
    then show ?thesis by (simp add: missing_def value_at_def Let_def)
  next
    case False
    then have "inject_secrets os (s # secrets) mem =
        inject_secrets os secrets
          (case sd_Target s of None \<Rightarrow> mem
           | Some a \<Rightarrow> mem(a := GetSecretOrEnv os (sd_Name s) (sd_Default s)))"
      by (auto simp: missing_def Let_def split: option.splits)
    with False show ?thesis
      by (simp add: Cons.IH value_at_Cons Let_def)
  qed
qed

lemma LoadConfigWithSecrets_ok:
  assumes "LoadConfig libs opts w = (w1, None)"
    and "LoadConfigWithSecrets libs secrets opts w = (w2, err)"
  shows "err = None \<longleftrightarrow> list_all (\<lambda>s. \<not> missing (cw_os w1) s) secrets"
    and "err = None \<Longrightarrow> cw_mem w2 = value_at (cw_os w1) secrets (cw_mem w1)"
proof -
  from assms have i: "inject_secrets (cw_os w1) secrets (cw_mem w1) = (cw_mem w2, err)"
    by (auto simp: LoadConfigWithSecrets_def split: prod.splits)
  have "find (missing (cw_os w1)) secrets = None \<longleftrightarrow> list_all (\<lambda>s. \<not> missing (cw_os w1) s) secrets"
    by (auto simp: find_None_iff list_all_iff)
  with i show iff: "err = None \<longleftrightarrow> list_all (\<lambda>s. \<not> missing (cw_os w1) s) secrets"
    by (auto simp: inject_secrets_spec Let_def split: option.splits)
  assume "err = None"
  with iff have "takeWhile (\<lambda>s. \<not> missing (cw_os w1) s) secrets = secrets"
    by (simp add: takeWhile_eq_all_conv list_all_iff)
  with i show "cw_mem w2 = value_at (cw_os w1) secrets (cw_mem w1)"
    by (simp add: inject_secrets_spec Let_def)
qed

text \<open>An optional secret that is neither in a file nor in the environment replaces the value of the
  configuration file by its default.\<close>

lemma optional_secret_overwrites:
  assumes "LoadConfig libs opts w = (w1, None)"
    and "LoadConfigWithSecrets libs [s] opts w = (w2, err)"
    and "sd_Target s = Some a" and "\<not> sd_Required s"
    and "os_Getenv (cw_os w1) (sd_Name s) = ''''"
    and "os_Getenv (cw_os w1) (sd_Name s @ ''_FILE'') = ''''"
  shows "err = None \<and> cw_mem w2 a = sd_Default s"
  using LoadConfigWithSecrets_ok [OF assms(1,2)] assms(3-)
  by (simp add: missing_def value_at_def GetSecretOrEnv_def)

end
