(* ===== verification/Samples.thy ===== *)
theory Samples
  imports Token_Contracts Login_Sessions Observability Kafka Secrets
begin

text \<open>
  Concrete libraries that behave as documented, which show that the hypotheses about the
  libraries can hold and on which the properties are evaluated: an in-memory Redis with
  deadlines, a JWT library that knows a fixed table of tokens, a JSON codec for one piece of
  metadata, a trace propagator.
\<close>

section \<open>Redis\<close>

text \<open>A key holds a value, with the instant it expires at if it has one.\<close>

type_synonym mem_redis = "string \<rightharpoonup> string \<times> nanos option"

definition mem_content :: "mem_redis \<Rightarrow> nanos \<Rightarrow> string \<Rightarrow> string option" where
  "mem_content r t k =
     (case r k of
        None \<Rightarrow> None
      | Some (v, None) \<Rightarrow> Some v
      | Some (v, Some d) \<Rightarrow> if t < d then Some v else None)"

definition mem_Incr :: "string \<Rightarrow> nanos \<Rightarrow> mem_redis \<Rightarrow> mem_redis \<times> i64 go_result" where
  "mem_Incr k now r =
     (case mem_content r now k of
        None \<Rightarrow> (r(k \<mapsto> (string_of_int 1, None)), Inr 1)
      | Some s \<Rightarrow>
          (let n = int_of_string s
           in if string_of_int n = s \<and> - (2 ^ 63) \<le> n \<and> n < 2 ^ 63 - 1
              then (r(k \<mapsto> (string_of_int (n + 1), snd (the (r k)))), Inr (word_of_int (n + 1)))
              else (r, Inl (LibError ''ERR value is not an integer or out of range''))))"

definition mem_GetInt64 :: "string \<Rightarrow> nanos \<Rightarrow> mem_redis \<Rightarrow> i64 \<times> go_error option" where
  "mem_GetInt64 k now r =
     (case mem_content r now k of
        None \<Rightarrow> (0, Some RedisNil)
      | Some s \<Rightarrow>
          (let n = int_of_string s
           in if string_of_int n = s \<and> - (2 ^ 63) \<le> n \<and> n < 2 ^ 63
              then (word_of_int n, None) else (0, Some (LibError ''invalid syntax''))))"

definition mem_Expire :: "string \<Rightarrow> nanos \<Rightarrow> nanos \<Rightarrow> mem_redis \<Rightarrow> mem_redis" where
  "mem_Expire k ttl now r =
     (case mem_content r now k of
        None \<Rightarrow> r
      | Some v \<Rightarrow> if 0 < ttl then r(k \<mapsto> (v, Some (now + ttl))) else r(k := None))"

definition memory_redis :: "mem_redis redis_cmdable" where
  "memory_redis =
     \<lparr>rc_Set = (\<lambda>k v ttl now r. (r(k \<mapsto> (v, Some (now + ttl))), None)),
      rc_GetDel = (\<lambda>k now r.
        case mem_content r now k of
          None \<Rightarrow> (r, Inl RedisNil)
        | Some v \<Rightarrow> (r(k := None), Inr v)),
      rc_Exists = (\<lambda>k now r. Inr (if mem_content r now k = None then 0 else 1)),
      rc_GetInt64 = mem_GetInt64, rc_Incr = mem_Incr, rc_Expire = mem_Expire,
      rc_content = mem_content\<rparr>"

lemma mem_content_upd [simp]:
  "mem_content (r(k \<mapsto> (v, d))) t k' =
     (if k' = k then (case d of None \<Rightarrow> Some v | Some x \<Rightarrow> if t < x then Some v else None)
      else mem_content r t k')"
  "mem_content (r(k := None)) t k' = (if k' = k then None else mem_content r t k')"
  by (auto simp: mem_content_def split: option.split)

lemma mem_content_antimono: "t \<le> t' \<Longrightarrow> mem_content r t' k = Some s \<Longrightarrow> mem_content r t k = Some s"
  by (auto simp: mem_content_def split: option.splits if_splits)

lemma mem_content_gone: "mem_content r t k = None \<Longrightarrow> t \<le> t' \<Longrightarrow> mem_content r t' k = None"
  using mem_content_antimono [of t t' r k] by (cases "mem_content r t' k") auto

lemma mem_Incr_documented:
  assumes "mem_Incr k now r = (r', Inr v)"
  shows "(\<forall>k' t. k' \<noteq> k \<longrightarrow> mem_content r' t k' = mem_content r t k') \<and>
    (case mem_content r now k of
       None \<Rightarrow> sint v = 1 \<and> (\<forall>t \<ge> now. mem_content r' t k = Some (string_of_int 1))
     | Some s \<Rightarrow> (\<forall>n. s = string_of_int n \<longrightarrow>
         sint v = n + 1 \<and>
         (\<forall>t \<ge> now. mem_content r' t k =
            (if mem_content r t k = None then None else Some (string_of_int (n + 1))))))"
proof (cases "mem_content r now k")
  case None
  with assms show ?thesis by (auto simp: mem_Incr_def)
next
  case (Some s)
  let ?n = "int_of_string s"
  obtain d where rk: "r k = Some (s, d)"
    using Some by (auto simp: mem_content_def split: option.splits if_splits)
  from assms Some have ok: "string_of_int ?n = s" "- (2 ^ 63) \<le> ?n" "?n < 2 ^ 63 - 1"
    "r' = r(k \<mapsto> (string_of_int (?n + 1), d))" "v = word_of_int (?n + 1)"
    by (auto simp: mem_Incr_def Let_def rk split: if_splits)
  have "sint (word_of_int (?n + 1) :: i64) = ?n + 1"
    using ok(2,3) by (intro sint_of_int_i64) simp_all
  then have v: "sint v = ?n + 1" using ok(5) by simp
  have c: "mem_content r' t k =
      (if mem_content r t k = None then None else Some (string_of_int (?n + 1)))" for t
    by (simp add: ok(4)) (simp add: mem_content_def rk split: option.split)
  have n: "sint v = n + 1 \<and>
      (\<forall>t \<ge> now. mem_content r' t k =
         (if mem_content r t k = None then None else Some (string_of_int (n + 1))))"
    if "s = string_of_int n" for n
  proof -
    from that have "n = ?n" by simp
    then show ?thesis using v c by (simp only:) simp
  qed
  moreover have "\<forall>k' t. k' \<noteq> k \<longrightarrow> mem_content r' t k' = mem_content r t k'"
    by (simp add: ok(4))
  ultimately show ?thesis
    by (simp only: Some option.case) blast
qed

lemma memory_redis_simps [simp]:
  "rc_Set memory_redis k v ttl now r = (r(k \<mapsto> (v, Some (now + ttl))), None)"
  "rc_GetDel memory_redis k now r =
     (case mem_content r now k of None \<Rightarrow> (r, Inl RedisNil) | Some v \<Rightarrow> (r(k := None), Inr v))"
  "rc_Exists memory_redis k now r = Inr (if mem_content r now k = None then 0 else 1)"
  "rc_GetInt64 memory_redis = mem_GetInt64" "rc_Incr memory_redis = mem_Incr"
  "rc_Expire memory_redis = mem_Expire" "rc_content memory_redis = mem_content"
  by (simp_all add: memory_redis_def)

lemma memory_redis_documented: "redis_documented memory_redis"
proof -
  have "get_documented memory_redis"
    by (auto simp: sint_of_int_i64 get_documented_def mem_GetInt64_def Let_def
        split: option.splits if_splits)
  moreover have "set_documented memory_redis"
    by (auto simp: set_documented_def intro!: exI [of _ "now + ttl" for now ttl])
  moreover have "getdel_documented memory_redis"
    by (auto simp: getdel_documented_def split: option.splits)
  moreover have "exists_documented memory_redis"
    by (auto simp: exists_documented_def split: if_splits)
  moreover have "incr_documented memory_redis"
    unfolding incr_documented_def memory_redis_simps using mem_Incr_documented by blast
  moreover have "expire_documented memory_redis"
    by (auto simp: expire_documented_def mem_Expire_def mem_content_gone
        split: option.splits if_splits)
  moreover have "content_lapses memory_redis"
    using mem_content_antimono by (simp add: content_lapses_def)
  ultimately show ?thesis by (simp add: redis_documented_def)
qed

section \<open>JWT\<close>

text \<open>The library signs the payloads of a table only; the table lists each token with its method,
  its payload and the key it verifies under.\<close>

type_synonym token_table = "(string \<times> signing_method \<times> payload \<times> string) list"

definition table_jwt :: "token_table \<Rightarrow> jwt_lib" where
  "table_jwt tab =
     \<lparr>jwt_NewNumericDate = (\<lambda>t. t - t mod Second),
      jwt_SignedString = (\<lambda>m pl key.
        case find (\<lambda>e. snd e = (m, pl, key)) tab of
          None \<Rightarrow> Inl (LibError ''key is of invalid type'')
        | Some e \<Rightarrow> Inr (fst e)),
      jwt_Parse = (\<lambda>tok kf leeway now.
        case map_of tab tok of
          None \<Rightarrow> Inl (LibError ''token is malformed'')
        | Some (m, pl, key) \<Rightarrow>
            (case kf m of
               Inl e \<Rightarrow> Inl (ErrWrap ''token is unverifiable'' e)
             | Inr k \<Rightarrow>
                 if k = key
                 then (if in_time pl leeway now then Inr (pl, True)
                       else Inl (LibError ''token is expired''))
                 else Inl (LibError ''token signature is invalid''))),
      jwt_ParseUnverified = (\<lambda>tok.
        case map_of tab tok of
          None \<Rightarrow> Inl (LibError ''token is malformed'')
        | Some (m, pl, key) \<Rightarrow> Inr (m, pl)),
      jwt_verifies = (\<lambda>m k tok.
        case map_of tab tok of None \<Rightarrow> False | Some (m', pl, key) \<Rightarrow> m' = m \<and> key = k)\<rparr>"

lemma table_jwt_documented:
  assumes "distinct (map fst tab)"
  shows "jwt_documented (table_jwt tab)"
proof -
  have "jwt_ParseUnverified (table_jwt tab) tok = Inr (m, pl) \<and> jwt_verifies (table_jwt tab) m key tok"
    if sgn: "jwt_SignedString (table_jwt tab) m pl key = Inr tok" for m pl key tok
  proof -
    from sgn obtain e where e: "find (\<lambda>e. snd e = (m, pl, key)) tab = Some e" "fst e = tok"
      by (auto simp: table_jwt_def split: option.splits)
    from e(1) have "e \<in> set tab" "snd e = (m, pl, key)" by (auto simp: find_Some_iff)
    with e(2) have "(tok, m, pl, key) \<in> set tab" by (metis prod.collapse)
    with assms have "map_of tab tok = Some (m, pl, key)" by (simp add: map_of_is_SomeI)
    then show ?thesis by (simp add: table_jwt_def)
  qed
  moreover have "jwt_Parse (table_jwt tab) tok kf leeway now = Inr (pl, v) \<longleftrightarrow>
      v \<and> in_time pl leeway now \<and>
      (\<exists>m key. jwt_ParseUnverified (table_jwt tab) tok = Inr (m, pl) \<and> kf m = Inr key \<and>
         jwt_verifies (table_jwt tab) m key tok)" for tok kf leeway now pl v
    by (auto simp: table_jwt_def split: option.splits sum.splits prod.splits)
  ultimately show ?thesis
    by (simp add: jwt_documented_def) (simp add: table_jwt_def)
qed

section \<open>Metadata\<close>

definition sample_codec :: meta_codec where
  "sample_codec =
     \<lparr>mc_Marshal = (\<lambda>m. Inr (string_of_int (sint (rm_UserID m)) @ CHR '','' # rm_Sequence m)),
      mc_Unmarshal = (\<lambda>s.
        Inr \<lparr>rm_UserID = word_of_int (int_of_string (takeWhile (\<lambda>c. c \<noteq> CHR '','') s)),
             rm_Sequence = tl (dropWhile (\<lambda>c. c \<noteq> CHR '','') s)\<rparr>)\<rparr>"

lemma digit_char_not_comma: "d < 10 \<Longrightarrow> digit_char d \<noteq> CHR '',''"
proof
  assume "d < 10" and "digit_char d = CHR '',''"
  then have "(of_char (CHR '','') :: nat) = 48 + d" using of_char_digit [of d] by simp
  then show False by simp
qed

lemma comma_notin_string_of_nat: "CHR '','' \<notin> set (string_of_nat n)"
proof (induction n rule: string_of_nat.induct)
  case (1 n)
  have "digit_char n \<noteq> CHR '',''" if "n < 10" using that by (rule digit_char_not_comma)
  moreover have "digit_char (n mod 10) \<noteq> CHR '',''" by (rule digit_char_not_comma) simp
  ultimately show ?case
    using 1 by (cases "n < 10") (auto simp: string_of_nat.simps [of n] dest: sym)
qed

lemma comma_notin_string_of_int: "CHR '','' \<notin> set (string_of_int v)"
  using comma_notin_string_of_nat by (simp add: string_of_int_def)

lemma sample_codec_documented: "codec_documented sample_codec"
proof -
  have "takeWhile (\<lambda>c. c \<noteq> CHR '','') (xs @ CHR '','' # s) = xs \<and>
      dropWhile (\<lambda>c. c \<noteq> CHR '','') (xs @ CHR '','' # s) = CHR '','' # s"
    if "CHR '','' \<notin> set xs" for xs s
    using that by (induction xs) auto
  note this [OF comma_notin_string_of_int]
  then show ?thesis
    by (auto simp: codec_documented_def sample_codec_def)
qed

section \<open>Tokens\<close>

definition sample_cfg :: AuthConfig where
  "sample_cfg =
     \<lparr>cfg_Secret = ''k'', cfg_Alg = '''', cfg_AccessTTL = 60 * Second,
      cfg_RefreshTTL = 3600 * Second, cfg_ClockSkew = 30 * Second, cfg_BlocklistPrefix = '''',
      cfg_RefreshStorePrefix = ''''\<rparr>"

definition sample_scfg :: SimpleTokenConfig where
  "sample_scfg = \<lparr>sc_Secret = ''k'', sc_TTL = 60 * Second, sc_ClockSkew = 0\<rparr>"

definition sample_access :: AccessClaims where
  "sample_access = issued_access (table_jwt []) 0 (''a'', ''r'') 7 ''s'' 1 sample_cfg"

definition sample_refresh :: RefreshClaims where
  "sample_refresh = issued_refresh (table_jwt []) 0 (''a'', ''r'') 7 ''s'' sample_cfg"

text \<open>A simple token of user 7: issued at \<open>now\<close> under the given version.\<close>

definition sample_simple :: "nanos \<Rightarrow> string \<Rightarrow> i64 \<Rightarrow> SimpleTokenClaims" where
  "sample_simple now uuid ver = issued_simple (table_jwt []) now uuid 7 ''s'' ver sample_scfg"

definition sample_table :: token_table where
  "sample_table =
     [(''A'', HMAC ''HS256'', AccessClaims_payload sample_access, ''k''),
      (''R'', HMAC ''HS256'', RefreshClaims_payload sample_refresh, ''k''),
      (''S'', HMAC ''HS256'', SimpleTokenClaims_payload (sample_simple 0 ''u'' 1), ''k''),
      (''T'', HMAC ''HS256'', SimpleTokenClaims_payload (sample_simple Second ''v'' 2), ''k''),
      (''U'', HMAC ''HS256'', SimpleTokenClaims_payload (sample_simple (3 * Second) ''w'' 1), ''k'')]"

definition sample_jwt :: jwt_lib where
  "sample_jwt = table_jwt sample_table"

lemma sample_jwt_documented: "jwt_documented sample_jwt"
  unfolding sample_jwt_def by (rule table_jwt_documented) (simp add: sample_table_def)

lemma table_date [simp]: "jwt_NewNumericDate (table_jwt tab) t = t - t mod Second"
  by (simp add: table_jwt_def)

text \<open>The claims depend on the library by its numeric dates only.\<close>

lemma sample_claims:
  "issued_access sample_jwt 0 (''a'', ''r'') 7 ''s'' 1 sample_cfg = sample_access"
  "issued_refresh sample_jwt 0 (''a'', ''r'') 7 ''s'' sample_cfg = sample_refresh"
  "issued_simple sample_jwt now uuid 7 ''s'' ver sample_scfg = sample_simple now uuid ver"
  by (simp_all add: sample_access_def sample_refresh_def sample_simple_def issued_access_def
      issued_refresh_def issued_simple_def access_claims_def refresh_claims_def simple_claims_def
      sample_jwt_def)

text \<open>The payloads of the table differ, in the identifiers if not in the members.\<close>

lemma payload_IDs:
  "rg_ID (pl_registered (AccessClaims_payload sample_access)) = ''a''"
  "rg_ID (pl_registered (RefreshClaims_payload sample_refresh)) = ''r''"
  "rg_ID (pl_registered (SimpleTokenClaims_payload (sample_simple now uuid ver))) = uuid"
  by (simp_all add: AccessClaims_payload_def RefreshClaims_payload_def SimpleTokenClaims_payload_def
      sample_access_def sample_refresh_def sample_simple_def issued_access_def issued_refresh_def
      issued_simple_def access_claims_def refresh_claims_def simple_claims_def)

lemma payload_neq: "rg_ID (pl_registered p) \<noteq> rg_ID (pl_registered q) \<Longrightarrow> p \<noteq> q"
  by auto

lemma sample_signed:
  "jwt_SignedString sample_jwt (HMAC ''HS256'') (AccessClaims_payload sample_access) ''k'' = Inr ''A''"
  "jwt_SignedString sample_jwt (HMAC ''HS256'') (RefreshClaims_payload sample_refresh) ''k'' = Inr ''R''"
  "jwt_SignedString sample_jwt (HMAC ''HS256'') (SimpleTokenClaims_payload (sample_simple 0 ''u'' 1))
     ''k'' = Inr ''S''"
  "jwt_SignedString sample_jwt (HMAC ''HS256'')
     (SimpleTokenClaims_payload (sample_simple Second ''v'' 2)) ''k'' = Inr ''T''"
  "jwt_SignedString sample_jwt (HMAC ''HS256'')
     (SimpleTokenClaims_payload (sample_simple (3 * Second) ''w'' 1)) ''k'' = Inr ''U''"
  by (simp_all add: sample_jwt_def table_jwt_def sample_table_def payload_neq payload_IDs)

section \<open>Stores\<close>

definition sample_refresh_store :: "meta_codec \<times> mem_redis RedisRefreshStore option" where
  "sample_refresh_store = (sample_codec, NewRedisRefreshStore (Some memory_redis) '''')"

definition sample_blocklist :: "mem_redis RedisAccessBlocklist option" where
  "sample_blocklist = NewRedisAccessBlocklist (Some memory_redis) ''''"

definition sample_sessions :: "mem_redis RedisSessionVersionStore option" where
  "sample_sessions = NewRedisSessionVersionStore (Some memory_redis) ''''"

definition sample_versions :: "nanos \<Rightarrow> mem_redis RedisTokenVersionStore option" where
  "sample_versions ttl = NewRedisTokenVersionStore (Some memory_redis) [WithTokenVersionTTL ttl]"

lemma sample_stores_lawful:
  "refresh_lawful sample_refresh_store" "blocklist_lawful sample_blocklist"
  "version_lawful (sample_versions ttl)"
  by (simp_all add: refresh_lawful_def sample_refresh_store_def NewRedisRefreshStore_def Let_def
      sample_codec_documented memory_redis_documented blocklist_lawful_def sample_blocklist_def
      NewRedisAccessBlocklist_def version_lawful_def sample_versions_def
      NewRedisTokenVersionStore_def WithTokenVersionTTL_def)

text \<open>What the pair of the table is issued as, and the store it leaves.\<close>

definition sample_pair :: TokenPair where
  "sample_pair =
     \<lparr>tp_AccessToken = ''A'', tp_RefreshToken = ''R'', tp_AccessTokenExpiresAt = 60 * Second,
      tp_RefreshTokenExpiresAt = 3600 * Second, tp_AccessTokenExpiresInSec = 60,
      tp_RefreshTokenExpiresInSec = 3600, tp_AccessTokenJTI = ''a'', tp_RefreshTokenJTI = ''r''\<rparr>"

definition refresh_redis :: mem_redis where
  "refresh_redis =
     [DefaultRefreshStorePrefix @ ''r'' \<mapsto>
        (string_of_int 7 @ CHR '','' # ''s'', Some (3600 * Second))]"

lemma sample_issue_ok: "issue_ok 0 (''a'', ''r'') ''s'' sample_cfg"
  by (simp add: issue_ok_def sample_cfg_def)

lemma sample_issued:
  "GenerateTokenPairWithVersion sample_jwt 0 (''a'', ''r'') 7 ''s'' 1 sample_cfg
     (Some (RedisRefreshStore_iface sample_refresh_store)) Map.empty = (refresh_redis, Inr sample_pair)"
  "GenerateTokenPairWithVersion sample_jwt 0 (''a'', ''r'') 7 ''s'' 1 sample_cfg None r =
     (r, Inr sample_pair)"
proof -
  have secs: "int64_Seconds 60000000000 = 60" "int64_Seconds 3600000000000 = 3600"
    using int64_Seconds_cases(2) [of "60 * Second"] int64_Seconds_cases(2) [of "3600 * Second"]
    by simp_all
  have cfg: "cfg_Secret sample_cfg = ''k''" "cfg_AccessTTL sample_cfg = 60 * Second"
    "cfg_RefreshTTL sample_cfg = 3600 * Second"
    by (simp_all add: sample_cfg_def)
  have date: "jwt_NewNumericDate sample_jwt t = t - t mod Second" for t
    by (simp add: sample_jwt_def)
  note claims = sample_claims(1,2) [unfolded issued_access_def issued_refresh_def, simplified]
  show "GenerateTokenPairWithVersion sample_jwt 0 (''a'', ''r'') 7 ''s'' 1 sample_cfg
     (Some (RedisRefreshStore_iface sample_refresh_store)) Map.empty = (refresh_redis, Inr sample_pair)"
    "GenerateTokenPairWithVersion sample_jwt 0 (''a'', ''r'') 7 ''s'' 1 sample_cfg None r =
     (r, Inr sample_pair)"
    by (simp_all add: GenerateTokenPairWithVersion_def signClaims_def claims sample_signed
        RedisRefreshStore_iface_def RedisRefreshStore_Save_def sample_refresh_store_def
        NewRedisRefreshStore_def sample_codec_def RedisRefreshStore_key_def cfg date secs
        sample_pair_def refresh_redis_def Let_def)
qed

section \<open>Revocation, sessions and logins on the samples\<close>

lemma sample_access_user: "ac_UserID sample_access = 7"
  by (simp add: sample_access_def)

lemma sample_access_expires: "rg_ExpiresAt (ac_RegisteredClaims sample_access) = Some (60 * Second)"
  by (simp add: sample_access_def issued_access_def access_claims_def sample_cfg_def default_pos_def)

lemma sample_access_verifies:
  "t < 90 * Second \<Longrightarrow> VerifyAccessToken sample_jwt t ''A'' sample_cfg None r = Inr sample_access"
proof -
  assume t: "t < 90 * Second"
  have cfg: "cfg_AccessTTL (AuthConfig_Defaults sample_cfg) = 60 * Second"
    "cfg_ClockSkew sample_cfg = 30 * Second"
    by (simp_all add: sample_cfg_def)
  have "VerifyAccessToken sample_jwt t (tp_AccessToken sample_pair) sample_cfg None r = Inr sample_access"
    unfolding issued_access_accepted
      [OF sample_jwt_documented sample_issue_ok sample_issued(2) [where r = "()"]]
    using t by (simp add: cfg sample_claims(1) not_blocked_def del: AuthConfig_Defaults_fields)
  then show ?thesis by (simp add: sample_pair_def)
qed

definition revoked_redis :: mem_redis where
  "revoked_redis = [DefaultAccessBlocklistPrefix @ ''a'' \<mapsto> (''1'', Some (60 * Second))]"

lemma sample_revoked:
  "RevokeAccessToken Second (Some sample_access) sample_cfg
     (Some (RedisAccessBlocklist_iface sample_blocklist)) Map.empty = (revoked_redis, None)"
proof -
  have "rg_ID (ac_RegisteredClaims sample_access) = ''a''"
    by (simp add: sample_access_def)
  then show ?thesis
    by (simp add: RevokeAccessToken_def sample_access_expires time_Until_def
        RedisAccessBlocklist_iface_def RedisAccessBlocklist_Block_def sample_blocklist_def
        NewRedisAccessBlocklist_def RedisAccessBlocklist_key_def revoked_redis_def Let_def)
qed

lemma decimal_simps:
  "string_of_int 1 = ''1''" "int_of_string ''1'' = 1" "string_of_int 2 = ''2''"
  "int_of_string ''2'' = 2"
  by code_simp+

definition session_redis :: mem_redis where
  "session_redis = [DefaultSessionVersionPrefix @ string_of_int 7 \<mapsto> (string_of_int 1, None)]"

lemma sample_session:
  "RedisSessionVersionStore_Incr sample_sessions 7 now Map.empty = (session_redis, Inr 1)"
  "RedisSessionVersionStore_Incr sample_sessions 7 0 Map.empty = (session_redis, Inr 1)"
  "RedisSessionVersionStore_Get sample_sessions 7 t session_redis = (1, None)"
  by (simp_all add: RedisSessionVersionStore_Incr_def RedisSessionVersionStore_Get_def
      sample_sessions_def NewRedisSessionVersionStore_def RedisSessionVersionStore_key_def
      mem_Incr_def mem_GetInt64_def mem_content_def session_redis_def decimal_simps Let_def)

text \<open>The version key of user 7 at a version, with the deadline of the key.\<close>

definition version_redis :: "int \<Rightarrow> nanos option \<Rightarrow> mem_redis" where
  "version_redis n d = [DefaultTokenVersionPrefix @ string_of_int 7 \<mapsto> (string_of_int n, d)]"

lemma mem_content_version_redis [simp]:
  "mem_content (version_redis n d) t k =
     (if k = DefaultTokenVersionPrefix @ string_of_int 7
      then (case d of None \<Rightarrow> Some (string_of_int n)
            | Some x \<Rightarrow> if t < x then Some (string_of_int n) else None)
      else None)"
  unfolding version_redis_def by (simp add: mem_content_def)

lemma sample_versions_eq:
  "sample_versions ttl =
     Some \<lparr>rtv_client = memory_redis, rtv_prefix = DefaultTokenVersionPrefix, rtv_ttl = ttl\<rparr>"
  by (simp add: sample_versions_def NewRedisTokenVersionStore_def WithTokenVersionTTL_def Let_def)

lemma sample_incr:
  "tv_IncrVersion (RedisTokenVersionStore_iface (sample_versions 0)) 7 now Map.empty =
     (version_redis 1 None, Inr 1)"
  "tv_IncrVersion (RedisTokenVersionStore_iface (sample_versions 0)) 7 now (version_redis 1 None) =
     (version_redis 2 None, Inr 2)"
  "tv_IncrVersion (RedisTokenVersionStore_iface (sample_versions (2 * Second))) 7 0 Map.empty =
     (version_redis 1 (Some (2 * Second)), Inr 1)"
  "tv_IncrVersion (RedisTokenVersionStore_iface (sample_versions (2 * Second))) 7 (3 * Second)
     (version_redis 1 (Some (2 * Second))) = (version_redis 1 (Some (5 * Second)), Inr 1)"
  by (simp_all add: RedisTokenVersionStore_iface_def RedisTokenVersionStore_IncrVersion_def
      sample_versions_eq RedisTokenVersionStore_key_def mem_Incr_def mem_Expire_def decimal_simps
      Let_def)
     (simp_all add: version_redis_def mem_content_def decimal_simps)

lemma sample_get:
  "RedisTokenVersionStore_GetVersion (sample_versions ttl) 7 t (version_redis 1 None) = (1, None)"
  "t < d \<Longrightarrow> RedisTokenVersionStore_GetVersion (sample_versions ttl) 7 t (version_redis 1 (Some d)) =
     (1, None)"
  "RedisTokenVersionStore_GetVersion (sample_versions ttl) 7 t (version_redis 2 None) = (2, None)"
  by (simp_all add: RedisTokenVersionStore_GetVersion_def sample_versions_eq
      RedisTokenVersionStore_key_def mem_GetInt64_def decimal_simps Let_def)

lemma sample_stored:
  "stored_version (sample_versions ttl) (version_redis n d) t 7 =
     (case d of None \<Rightarrow> n | Some x \<Rightarrow> if t < x then n else 0)"
  by (simp add: stored_version_def sample_versions_eq RedisTokenVersionStore_key_def
      split: option.split)

lemma sample_numeric:
  "versions_numeric (sample_versions ttl) Map.empty"
  "versions_numeric (sample_versions ttl) (version_redis n d)"
  by (auto simp: versions_numeric_def sample_versions_eq split: option.splits if_splits)
     (simp add: mem_content_def)

definition sample_login :: "string \<Rightarrow> nanos \<Rightarrow> i64 \<Rightarrow> SimpleTokenResult" where
  "sample_login tok now ver =
     \<lparr>str_Token = tok, str_ExpiresAt = now + 60 * Second, str_ExpiresIn = 60, str_Version = ver\<rparr>"

lemma sample_ttl: "sc_TTL (SimpleTokenConfig_Defaults sample_scfg) = 60 * Second"
  by (simp add: sample_scfg_def)

lemma sample_scfg_ok:
  "simple_issue_ok 0 ''u'' ''s'' sample_scfg" "simple_issue_ok (3 * Second) ''w'' ''s'' sample_scfg"
  "simple_issue_ok Second ''v'' ''s'' sample_scfg"
  by (simp_all add: simple_issue_ok_def sample_scfg_def default_pos_def)

text \<open>A login, given what the store answers and what the table signs.\<close>

lemma sample_login_result:
  assumes "tv_IncrVersion st 7 now r = (r', Inr ver)"
    and "jwt_SignedString sample_jwt (HMAC ''HS256'')
           (SimpleTokenClaims_payload (sample_simple now uuid ver)) ''k'' = Inr tok"
  shows "GenerateSimpleToken sample_jwt now uuid 7 ''s'' sample_scfg (Some st) r =
    (r', Inr (sample_login tok now ver))"
proof -
  have "simple_claims sample_jwt now uuid 7 ''s'' ver (SimpleTokenConfig_Defaults sample_scfg) =
      sample_simple now uuid ver"
    using sample_claims(3) [of now uuid ver] by (simp add: issued_simple_def)
  moreover have "int64_Seconds 60000000000 = 60"
    using int64_Seconds_cases(2) [of "60 * Second"] by simp
  moreover have "sc_Secret (SimpleTokenConfig_Defaults sample_scfg) = ''k''"
    by (simp add: sample_scfg_def)
  ultimately show ?thesis
    using assms sample_ttl
    by (simp add: GenerateSimpleToken_def sample_login_def Let_def
        del: SimpleTokenConfig_Defaults_fields)
qed

lemma sample_logins:
  "GenerateSimpleToken sample_jwt 0 ''u'' 7 ''s'' sample_scfg
     (Some (RedisTokenVersionStore_iface (sample_versions 0))) Map.empty =
   (version_redis 1 None, Inr (sample_login ''S'' 0 1))"
  "GenerateSimpleToken sample_jwt Second ''v'' 7 ''s'' sample_scfg
     (Some (RedisTokenVersionStore_iface (sample_versions 0))) (version_redis 1 None) =
   (version_redis 2 None, Inr (sample_login ''T'' Second 2))"
  "GenerateSimpleToken sample_jwt 0 ''u'' 7 ''s'' sample_scfg
     (Some (RedisTokenVersionStore_iface (sample_versions (2 * Second)))) Map.empty =
   (version_redis 1 (Some (2 * Second)), Inr (sample_login ''S'' 0 1))"
  "GenerateSimpleToken sample_jwt (3 * Second) ''w'' 7 ''s'' sample_scfg
     (Some (RedisTokenVersionStore_iface (sample_versions (2 * Second))))
     (version_redis 1 (Some (2 * Second))) =
   (version_redis 1 (Some (5 * Second)), Inr (sample_login ''U'' (3 * Second) 1))"
  by (rule sample_login_result; rule sample_incr sample_signed)+

lemma sample_simple_verifies:
  "VerifySimpleToken sample_jwt Second ''S'' sample_scfg
     (Some (RedisTokenVersionStore_iface (sample_versions 0))) (version_redis 1 None) =
   Inr (sample_simple 0 ''u'' 1)"
proof -
  have "VerifySimpleToken sample_jwt Second (str_Token (sample_login ''S'' 0 1)) sample_scfg
      (Some (RedisTokenVersionStore_iface (sample_versions 0))) (version_redis 1 None) =
    Inr (sample_simple 0 ''u'' 1)"
    unfolding issued_simple_accepted [OF sample_jwt_documented sample_scfg_ok(1) sample_logins(1)]
    by (simp add: sample_ttl sample_claims(3) sample_login_def RedisTokenVersionStore_iface_def
        sample_get del: SimpleTokenConfig_Defaults_fields)
  then show ?thesis by (simp add: sample_login_def)
qed

text \<open>Two logins of user 7, at 0 and a second later.\<close>

definition sample_history :: "login_event list" where
  "sample_history = [LoggedIn Second 7 ''T'', LoggedIn 0 7 ''S'']"

lemma remembers_version_redis [simp]:
  "remembers (stored_version (sample_versions ttl)) (version_redis n None) t t'"
  "remembers (stored_version (sample_versions ttl)) Map.empty t t'"
  by (simp add: remembers_def stored_version_def sample_versions_eq)
     (simp add: remembers_def stored_version_def sample_versions_eq mem_content_def)

lemma sample_logins_service:
  "login_service sample_jwt sample_scfg (RedisTokenVersionStore_iface (sample_versions 0))
     (remembers (stored_version (sample_versions 0))) Map.empty 0 (version_redis 2 None) Second
     sample_history"
proof -
  note start = service_start [of sample_jwt sample_scfg
      "RedisTokenVersionStore_iface (sample_versions 0)"
      "remembers (stored_version (sample_versions 0))" Map.empty 0]
  note first = service_login [OF start _ _ sample_scfg_ok(1) sample_logins(1)]
  have "login_service sample_jwt sample_scfg (RedisTokenVersionStore_iface (sample_versions 0))
     (remembers (stored_version (sample_versions 0))) Map.empty 0 (version_redis 1 None) 0
     [LoggedIn 0 7 (str_Token (sample_login ''S'' 0 1))]"
    by (rule first) simp_all
  from service_login [OF this _ _ sample_scfg_ok(3) sample_logins(2)] show ?thesis
    by (simp add: sample_history_def sample_login_def)
qed

section \<open>Configuration, Kafka and tracing\<close>

definition sample_os :: os_env where
  "sample_os = \<lparr>os_vars = Map.empty, os_files = (\<lambda>_. Inl OsErrNotExist)\<rparr>"

text \<open>A configuration file that sets the string at address 0.\<close>

definition sample_config_libs :: "unit config_libs" where
  "sample_config_libs =
     \<lparr>godotenv_Load = (\<lambda>_ os. (os, Some OsErrNotExist)), viper_SetConfigName = (\<lambda>_ v. v),
      viper_SetConfigType = (\<lambda>_ v. v), viper_AddConfigPath = (\<lambda>_ v. v),
      viper_SetEnvPrefix = (\<lambda>_ v. v), viper_SetEnvKeyReplacer = (\<lambda>_ _ v. v),
      viper_AutomaticEnv = (\<lambda>v. v), viper_ReadInConfig = (\<lambda>_ v. (v, None)),
      viper_Unmarshal = (\<lambda>_ _ mem. (mem(0 := ''from yaml''), None)),
      viper_IsConfigFileNotFound = (\<lambda>_. False)\<rparr>"

definition sample_world :: "unit config_world" where
  "sample_world = \<lparr>cw_os = sample_os, cw_viper = (), cw_mem = (\<lambda>_. '''')\<rparr>"

definition sample_loaded :: "unit config_world" where
  "sample_loaded = sample_world\<lparr>cw_mem := (\<lambda>_. '''')(0 := ''from yaml'')\<rparr>"

definition sample_secret :: SecretDefinition where
  "sample_secret =
     \<lparr>sd_Name = ''DB_PASSWORD'', sd_Target = Some 0, sd_Default = '''', sd_Required = False\<rparr>"

lemma sample_LoadConfig: "LoadConfig sample_config_libs [] sample_world = (sample_loaded, None)"
  by (simp add: LoadConfig_def load_dotenv_def prepare_viper_def sample_config_libs_def
      sample_world_def sample_loaded_def sample_os_def os_Getenv_def Let_def)

definition sample_kafka_cfg :: KafkaConfig where
  "sample_kafka_cfg =
     \<lparr>kc_Brokers = [''b:9092''], kc_Topic = ''events'', kc_ClientID = '''', kc_Username = ''u'',
      kc_Password = ''p'', kc_SASLMechanism = '' scram-sha-512 '', kc_TLSEnabled = True,
      kc_RequiredAcks = ''One'', kc_MaxAttempts = 1\<rparr>"

text \<open>A producer that keeps what it is sent.\<close>

definition sample_sarama :: "(producer_message list, unit) sarama_lib" where
  "sample_sarama =
     \<lparr>sarama_NewConfig =
        \<lparr>sa_Version = OtherVersion '''', sa_ClientID = ''sarama'',
         sa_Producer_Return_Successes = False, sa_Producer_Retry_Max = 3,
         sa_Producer_RequiredAcks = WaitForLocal, sa_Producer_Idempotent = False,
         sa_TLS_Enable = False, sa_TLS_MinVersion = None, sa_SASL_Enable = False,
         sa_SASL_User = '''', sa_SASL_Password = '''', sa_SASL_Mechanism = None,
         sa_SASL_SCRAMGenerator = None, sa_Consumer_Return_Errors = False,
         sa_Consumer_Offsets_Initial = -1, sa_Consumer_GroupStrategies = []\<rparr>,
      sarama_NewSyncProducer = (\<lambda>_ _. Inr []),
      sarama_SendMessage = (\<lambda>msg p. (p @ [msg], None)),
      sarama_producer_Close = (\<lambda>p. (p, None)),
      sarama_NewConsumerGroup = (\<lambda>_ _ _. Inr ())\<rparr>"

definition sample_manager :: "(producer_message list, nat) Manager" where
  "sample_manager =
     \<lparr>mg_cfg = sample_kafka_cfg\<lparr>kc_Username := ''''\<rparr>, mg_producer = [],
      mg_baseConf = sarama_NewConfig sample_sarama, mg_publishObserver = Some 1,
      mg_consumeObserver = None, mg_closeOnce = False\<rparr>"

definition sample_message :: producer_message where
  "sample_message =
     \<lparr>pm_Topic = ''events'', pm_Key = Some ''k'', pm_Value = None,
      pm_Headers = [(''traceparent'', ''x'')]\<rparr>"

text \<open>A context is its trace identifier, with the attributes that were set.\<close>

definition sample_trace :: "string trace_lib" where
  "sample_trace =
     \<lparr>tr_HeaderCarrier_Set = http_Header_Set, tr_HeaderCarrier_Get = http_Header_Get,
      tr_Inject = (\<lambda>c. if c = '''' then [] else [(''traceparent'', c)]),
      tr_Extract = (\<lambda>g c. if g ''traceparent'' = '''' then c else g ''traceparent''),
      tr_TraceID = (\<lambda>c. if c = '''' then None else Some c),
      tr_SetAttribute = (\<lambda>k v c. c @ '';'' @ v),
      tr_MD_Set = (\<lambda>md k vs. if vs = [] then md else md(ToLower k \<mapsto> vs)),
      tr_MD_Get = (\<lambda>md k. case md (ToLower k) of None \<Rightarrow> [] | Some vs \<Rightarrow> vs)\<rparr>"

lemma sample_trace_documented: "trace_documented sample_trace"
  by (simp add: trace_documented_def sample_trace_def)

end
