(* ===== verification/Codes.thy ===== *)
theory Codes
  imports Go_Prelude
begin

text \<open>
  \<open>pkg/codes/codes.go\<close>: the shared transport error codes and their registry.
\<close>

record ErrorCode =
  ec_Numeric :: i32
  ec_Symbol :: string
  ec_Message :: string

definition ErrUnauthorized :: ErrorCode where
  "ErrUnauthorized = \<lparr>ec_Numeric = 40101, ec_Symbol = ''TOKEN_INVALID'',
     ec_Message = ''authentication failed''\<rparr>"

definition ErrPermissionDenied :: ErrorCode where
  "ErrPermissionDenied = \<lparr>ec_Numeric = 40301, ec_Symbol = ''PERMISSION_DENIED'',
     ec_Message = ''permission denied''\<rparr>"

definition ErrInvalidPayload :: ErrorCode where
  "ErrInvalidPayload = \<lparr>ec_Numeric = 41001, ec_Symbol = ''INVALID_PAYLOAD'',
     ec_Message = ''invalid payload''\<rparr>"

definition ErrTooManyRequests :: ErrorCode where
  "ErrTooManyRequests = \<lparr>ec_Numeric = 42901, ec_Symbol = ''RATE_LIMITED'',
     ec_Message = ''too many requests''\<rparr>"

definition ErrInternal :: ErrorCode where
  "ErrInternal = \<lparr>ec_Numeric = 50001, ec_Symbol = ''INTERNAL_ERROR'',
     ec_Message = ''internal server error''\<rparr>"

definition Registry :: "ErrorCode list" where
  "Registry = [ErrUnauthorized, ErrPermissionDenied, ErrInvalidPayload, ErrTooManyRequests,
     ErrInternal]"

lemmas code_defs =
  Registry_def ErrUnauthorized_def ErrPermissionDenied_def ErrInvalidPayload_def
  ErrTooManyRequests_def ErrInternal_def

lemma Registry_distinct: "distinct (map ec_Numeric Registry) \<and> distinct (map ec_Symbol Registry)"
  by (simp add: code_defs)

end
