(* ===== verification/Further_Facts.thy ===== *)
theory Further_Facts
  imports Network_Samples Samples Codes
begin

text \<open>
  Smaller facts about single functions, beside the properties of the root theory, each evaluated
  on the samples where it has hypotheses.
\<close>

text \<open>
  The channels the subscribers read never hold more than the configured buffers, 128 where none is
  set, and they are closed exactly when the client has been closed.\<close>

theorem queues_bounded:
  assumes "client_reaches opts tr s"
  shows "length (ch_buf (cl_deliverCh (sy_client s))) \<le>
      nat (if 0 < o_DeliverBuffer opts then o_DeliverBuffer opts else 128) \<and>
    length (ch_buf (cl_broadcastCh (sy_client s))) \<le>
      nat (if 0 < o_BroadcastBuffer opts then o_BroadcastBuffer opts else 128) \<and>
    (ch_closed (cl_deliverCh (sy_client s)) \<longleftrightarrow> cl_stopOnce (sy_client s)) \<and>
    (ch_closed (cl_broadcastCh (sy_client s)) \<longleftrightarrow> cl_stopOnce (sy_client s))"
  using reaches_queue_inv [OF assms] reaches_opts [OF assms]
  by (simp add: queue_inv_def chan_wf_def client_defaults_def not_less split: if_splits)

theorem queues_bounded_witness:
  "\<exists>s :: unit sys. client_reaches sample_options (startup sample_env) s \<and>
     length (ch_buf (cl_deliverCh (sy_client s))) \<le> 2 \<and>
     length (ch_buf (cl_broadcastCh (sy_client s))) \<le> 128"
proof -
  obtain s :: "unit sys" where s: "client_reaches sample_options (startup sample_env) s"
    using sample_service by blast
  with queues_bounded [OF s] show ?thesis
    by (intro exI [of _ s]) (simp add: sample_options_def)
qed

text \<open>
  Over a network that answers, \<open>Start\<close> leads a client without metadata to a registered
  connection: it counts as started, its consumer waits for responses, and its registration is all
  it has sent.\<close>

theorem startup_registers:
  assumes "NewClient opts = Inr c" and "o_Metadata opts = []" and "cooperative env opts conn st"
  shows "\<exists>s. client_run (init_sys c)
      [(env, EvStart Background), (env, EvConnect), (env, EvRegister)] s \<and>
    cl_started (sy_client s) \<and> cl_stream (sy_client s) = Some st \<and> sy_run s = RunConnected \<and>
    (\<exists>g. sy_cons s = [(g, Receiving)]) \<and>
    cl_sent (sy_client s) = [(st, register_frame (client_defaults opts))]"
  using startup_in_service [OF assms] unfolding startup_def in_service_def by blast

theorem startup_registers_witness:
  "\<exists>(c :: unit client) s. NewClient sample_options = Inr c \<and>
     client_run (init_sys c) (startup sample_env) s \<and>
     cl_sent (sy_client s) = [(5, register_frame (client_defaults sample_options))]"
proof -
  obtain c :: "unit client" where c: "NewClient sample_options = Inr c"
    using NewClient_samples(1) by blast
  from startup_registers [OF c, of sample_env 3 5] c show ?thesis
    unfolding startup_def by auto
qed

text \<open>
  Deliver and acknowledge round trip: what \<open>SendDeliver\<close> puts on the wire is received
  as the normalized envelope, and the first \<open>Ack\<close> of that delivery sends the one
  frame that leads the server to \<open>OnAck\<close> with the message's request identifier, the
  drawn one when it had none.\<close>

theorem delivery_acknowledged:
  fixes e :: "'v TransportEnvelope" and c :: "'v client"
  assumes "env_Message e = Some m" and "fst p \<noteq> []" and "cl_stream c = Some st"
    and "\<not> ctx_done (ctx_or_background ctx)" and "\<And>f. be_Send env st f = None"
  shows "\<exists>resp q d' f.
    SendDeliver \<lparr>ss_meta = meta, ss_stream = (\<lambda>resp out. (out @ [resp], None))\<rparr> p e out =
      (out @ [resp], None) \<and>
    receive resp = ToDeliver q \<and> NormalizeEnvelope p (Some e) = Some (fst q) \<and>
    Delivery_Ack ctx (Some (client_delivery env q), c) =
      ((Some d', c\<lparr>cl_sent := cl_sent c @ [(st, f)]\<rparr>), None) \<and>
    dispatch f = Some (OnAck \<lparr>ak_MessageID = (if msg_RequestId m = [] then fst p else msg_RequestId m),
      ak_BroadcastID = [], ak_Status = [], ak_Reason = []\<rparr>)"
proof -
  let ?id = "if msg_RequestId m = [] then fst p else msg_RequestId m"
  obtain e' where e': "NormalizeEnvelope p (Some e) = Some e'"
    using NormalizeEnvelope_Some by blast
  then have id: "Message_GetRequestId (env_Message e') = ?id"
    using NormalizeEnvelope_fields [OF e'] assms(1) by (simp add: NormalizeMessage_request_id)
  have id_set: "?id \<noteq> []" using assms(2) by simp
  let ?resp = "\<lparr>sp_Payload = Some (StreamResponse_Deliver (Some \<lparr>dlv_Envelope = Some e'\<rparr>))\<rparr>"
  let ?f = "ack_frame ?id [] :: 'v StreamRequest"
  have 1: "SendDeliver \<lparr>ss_meta = meta, ss_stream = (\<lambda>resp out. (out @ [resp], None))\<rparr> p e out =
      (out @ [?resp], None)"
    by (simp add: SendDeliver_def session_send_def e')
  have 2: "receive ?resp = ToDeliver (e', ?id)" by (simp only: receive_Deliver id)
  have 3: "\<exists>d'. Delivery_Ack ctx (Some (client_delivery env (e', ?id)), c) =
      ((Some d', c\<lparr>cl_sent := cl_sent c @ [(st, ?f)]\<rparr>), None)"
    using id_set assms(3-5) unfolding Delivery_Ack_def client_delivery_def newDelivery_def
    by (simp add: sendAck_def stream_Send_def ctx_or_background_def Let_def)
  have 4: "dispatch ?f = Some (OnAck \<lparr>ak_MessageID = ?id, ak_BroadcastID = [], ak_Status = [],
      ak_Reason = []\<rparr>)"
    by (simp add: dispatch_def ack_frame_def getter_defs)
  show ?thesis using 1 2 3 4 e' by (metis fst_conv)
qed

theorem delivery_acknowledged_witness:
  "\<exists>(c :: unit client) resp q d' f.
     receive resp = ToDeliver q \<and>
     Delivery_Ack None (Some (client_delivery sample_env q), c) =
       ((Some d', c\<lparr>cl_sent := cl_sent c @ [(5, f)]\<rparr>), None) \<and>
     dispatch f = Some (OnAck \<lparr>ak_MessageID = ''m1'', ak_BroadcastID = [], ak_Status = [],
       ak_Reason = []\<rparr>)"
proof -
  obtain s :: "unit sys" where s: "in_service 5 s" using sample_service by blast
  have m: "env_Message sample_message_env = Some (Message_Reset\<lparr>msg_RequestId := ''m1''\<rparr>)"
    by (simp add: sample_message_env_def)
  have "fst sample_stamp \<noteq> []" "cl_stream (sy_client s) = Some 5"
    "\<not> ctx_done (ctx_or_background None)" "be_Send sample_env 5 f = None" for f
    using s by (simp_all add: sample_stamp_def in_service_def ctx_or_background_def sample_env_def
        plain_env_def)
  from delivery_acknowledged [OF m this] show ?thesis by fastforce
qed

text \<open>
  Broadcasts are never acknowledged on the wire: \<open>SendBroadcast\<close> leaves the broadcast
  identifier empty, so what the client receives carries none, and acknowledging it returns nil
  without sending anything.\<close>

theorem broadcast_never_acknowledged:
  "\<exists>resp e' d'.
    SendBroadcast \<lparr>ss_meta = meta, ss_stream = (\<lambda>resp out. (out @ [resp], None))\<rparr> p e out =
      (out @ [resp], None) \<and>
    NormalizeEnvelope p (Some e) = Some e' \<and> receive resp = ToBroadcast (e', []) \<and>
    BroadcastDelivery_Ack ctx (Some (client_broadcast env (e', [])), c) = ((Some d', c), None)"
proof -
  obtain e' where e': "NormalizeEnvelope p (Some e) = Some e'"
    using NormalizeEnvelope_Some by blast
  have "SendBroadcast \<lparr>ss_meta = meta, ss_stream = (\<lambda>resp out. (out @ [resp], None))\<rparr> p e out =
      (out @ [\<lparr>sp_Payload = Some (StreamResponse_Broadcast
         (Some (BroadcastFrame_Reset\<lparr>bc_Envelope := Some e'\<rparr>)))\<rparr>], None)"
    by (simp add: SendBroadcast_def session_send_def e')
  moreover have "\<exists>d'. BroadcastDelivery_Ack ctx (Some (client_broadcast env (e', [])), c) =
      ((Some d', c), None)"
    by (simp add: BroadcastDelivery_Ack_def client_broadcast_def newBroadcastDelivery_def)
  ultimately show ?thesis using e' receive_Broadcast [of e'] by blast
qed

text \<open>
  A delivery and a broadcast are acknowledged at most once: after any number of calls of
  \<open>Ack\<close>, with whatever contexts, the state is that after the first call, and every
  further call returns the first one's error.\<close>

theorem acknowledged_at_most_once:
  "((\<lambda>s. fst (Delivery_Ack ctx s)) ^^ Suc n) s = fst (Delivery_Ack ctx s) \<and>
   Delivery_Ack ctx' (fst (Delivery_Ack ctx s)) = Delivery_Ack ctx s \<and>
   ((\<lambda>s. fst (BroadcastDelivery_Ack ctx s)) ^^ Suc n) b = fst (BroadcastDelivery_Ack ctx b) \<and>
   BroadcastDelivery_Ack ctx' (fst (BroadcastDelivery_Ack ctx b)) = BroadcastDelivery_Ack ctx b"
  using delivery_once.calls_after_first [where ctx = ctx and n = n and s = s]
    broadcast_once.calls_after_first [where ctx = ctx and n = n and s = b]
    Delivery_Ack_repeat [of ctx s "fst (Delivery_Ack ctx s)" "snd (Delivery_Ack ctx s)" ctx']
    BroadcastDelivery_Ack_repeat
      [of ctx b "fst (BroadcastDelivery_Ack ctx b)" "snd (BroadcastDelivery_Ack ctx b)" ctx']
  by simp

text \<open>
  Closing a server after \<open>Serve\<close> leaves no listener open and no gRPC server running,
  whether \<open>Serve\<close> failed or not, and a second \<open>Close\<close> changes nothing;
  but when \<open>Close\<close> comes before \<open>Serve\<close>, what \<open>Serve\<close> opens
  stays open.\<close>

theorem server_close_releases:
  assumes "NewServer opts = Inr s"
  shows "let served = fst (server_Serve Listen Load h s);
             closed = fst (server_Close served);
             reopened = fst (server_Serve Listen Load h closed)
    in sv_open closed = [] \<and> \<not> sv_running closed \<and> server_Close closed = (closed, None) \<and>
       server_Close reopened = (reopened, None)"
  using server_Close_releases [OF assms, of Listen Load h]
    server_once.op_done [of "fst (server_Serve Listen Load h s)"]
    server_Close_spent [of "fst (server_Close (fst (server_Serve Listen Load h s)))" Listen Load h]
  by (simp add: Let_def) (simp add: server_Close_def)

theorem server_close_witness:
  "\<exists>s. NewServer sample_options = Inr s \<and>
     sv_open (fst (server_Serve (\<lambda>_. Inr 4) (\<lambda>_ _. Inr ()) (Some (\<lambda>_ _ w. (w, None))) s)) = [4] \<and>
     sv_open (fst (server_Close (fst (server_Serve (\<lambda>_. Inr 4) (\<lambda>_ _. Inr ())
       (Some (\<lambda>_ _ w. (w, None))) s)))) = []"
proof -
  obtain s where s: "NewServer sample_options = Inr s" "sv_opts s = sample_options" "sv_open s = []"
    by (simp add: NewServer_def sample_options_def)
  moreover have "sv_open (fst (server_Serve (\<lambda>_. Inr 4) (\<lambda>_ _. Inr ()) (Some (\<lambda>_ _ w. (w, None))) s)) = [4]"
    using s(2,3) by (simp add: server_Serve_def server_creds_def sample_options_def Let_def)
  ultimately show ?thesis
    using server_close_releases [OF s(1)] unfolding Let_def by blast
qed

text \<open>
  Over one connection deliveries reach the subscribers in order: as long as the run loop has not
  lost a connection, what they have taken, oldest first, is a prefix of what the stream brought.\<close>

theorem deliveries_in_order:
  assumes "client_reaches opts tr s" and "EvConnLost \<notin> snd ` set tr"
  shows "prefix (rev (map fst (sy_taken s))) (received_in pick_deliver tr)"
proof -
  obtain c where c: "NewClient opts = Inr c" "client_run (init_sys c) tr s"
    using assms(1) by (rule client_reachesE)
  have "order_inv s (received_in pick_deliver tr)"
    using run_order_inv [OF c(2) init_order_inv [OF c(1)] init_invariants(5) [OF c(1)] assms(2)] ..
  then show ?thesis
    by (auto simp: order_inv_def delivered_order_def dest: append_prefixD)
qed

theorem deliveries_in_order_witness:
  "\<exists>s :: unit sys. client_reaches sample_options delivering s \<and>
     sy_taken s = [(sample_queued, False)] \<and> prefix [sample_queued] (received_in pick_deliver delivering)"
proof -
  obtain s :: "unit sys" where s: "client_reaches sample_options delivering s"
    "sy_taken s = [(sample_queued, False)]"
    using sample_delivering by blast
  moreover have "EvConnLost \<notin> snd ` set delivering"
    by (auto simp: delivering_def startup_def)
  ultimately show ?thesis using deliveries_in_order [OF s(1)] by (intro exI [of _ s]) simp
qed

text \<open>
  Every ingress frame a client ever puts on a stream carries an envelope with all its defaults set:
  versions, request identifier, maps and timestamps, in the message as in the envelope, whenever
  the identifiers drawn are not empty and the clock does not read the zero time.\<close>

theorem wire_envelopes_complete:
  assumes "client_reaches opts tr s"
    and "\<forall>(env, ev) \<in> set tr. well_stamped ev"
    and "(st, f) \<in> set (cl_sent (sy_client s))" and "sr_Payload f = Some (StreamRequest_Ingress (Some i))"
  shows "\<exists>e. ing_Envelope i = Some e \<and> envelope_complete (Some e)"
proof -
  obtain c where c: "NewClient opts = Inr c" "client_run (init_sys c) tr s"
    using assms(1) by (rule client_reachesE)
  have "\<forall>x \<in> set tr. well_stamped (snd x)"
    using assms(2) by auto
  from run_complete_inv [OF c(2) init_complete_inv [OF c(1)] this] assms(3) have "frame_complete f"
    by (force simp: complete_inv_def)
  with assms(4) show ?thesis by (auto simp: frame_complete_def)
qed

theorem wire_envelopes_witness:
  "\<exists>(s :: unit sys) i e. client_reaches sample_options (publishing @ [(sample_env, EvPubSend)]) s \<and>
     sr_Payload (ingress_frame sample_stamp sample_message_env) = Some (StreamRequest_Ingress (Some i)) \<and>
     ing_Envelope i = Some e \<and> envelope_complete (Some e)"
proof -
  obtain s :: "unit sys" where s: "client_reaches sample_options (publishing @ [(sample_env, EvPubSend)]) s"
    "(5, ingress_frame sample_stamp sample_message_env) \<in> set (cl_sent (sy_client s))"
    using sample_published by blast
  obtain i where i: "sr_Payload (ingress_frame sample_stamp sample_message_env) =
      Some (StreamRequest_Ingress (Some i))"
    by (simp add: ingress_frame_def)
  have "stamp_ok sample_stamp"
    by (simp add: stamp_ok_def sample_stamp_def ts_IsZero_def Let_def)
  then have "\<forall>(env, ev) \<in> set (publishing @ [(sample_env, EvPubSend)]). well_stamped ev"
    by (simp add: publishing_def startup_def well_stamped_def)
  from wire_envelopes_complete [OF s(1) this s(2) i] s(1) i show ?thesis by blast
qed

text \<open>
  End to end deliveries stay in order: as long as the client has not lost a connection there is one
  stream such that what its subscribers have taken, oldest first, is an initial part, without
  gaps, of the deliveries the server's session has sent on that stream.\<close>

theorem deliveries_arrive_in_order:
  assumes "link_reaches opts tr l" and "LClient EvConnLost \<notin> snd ` set tr"
  shows "\<exists>st. prefix (rev (map fst (sy_taken (lk_client l))))
    (picks pick_deliver (on_stream st (lk_out l)))"
  by (rule subscribers_in_order [OF assms])

theorem arrive_in_order_witness:
  "\<exists>(l :: unit link) e' st. link_reaches sample_options linked_trip l \<and>
     prefix [(e', ''m1'')] (picks pick_deliver (on_stream st (lk_out l)))"
proof -
  obtain l :: "unit link" and e' where l: "link_reaches sample_options linked_trip l"
    "sy_taken (lk_client l) = [((e', ''m1''), True)]"
    using sample_trip by blast
  have "LClient EvConnLost \<notin> snd ` set linked_trip"
    by (auto simp: linked_trip_def linking_def link_startup_def round_trip_def)
  from deliveries_arrive_in_order [OF l(1) this] l show ?thesis by auto
qed

text \<open>
  An issued refresh token that was not used yields, up to a second before its life ends, exactly the
  claims it was issued with, whenever the store answers the consumption.\<close>

theorem issued_refresh_token_consumed:
  assumes "jwt_documented lib" and "refresh_lawful (cd, store)" and "issue_ok now uuids sq cfg"
    and "snd uuids \<noteq> []"
    and "GenerateTokenPairWithVersion lib now uuids u sq ver cfg
           (Some (RedisRefreshStore_iface (cd, store))) r = (r', Inr p)"
    and "now \<le> t" and "t + Second \<le> now + cfg_RefreshTTL (AuthConfig_Defaults cfg)"
    and "RedisRefreshStore_Consume cd store (snd uuids) t r' = (r'', Inr mo)"
  shows "ConsumeRefreshToken lib t (tp_RefreshToken p) cfg
      (Some (RedisRefreshStore_iface (cd, store))) r' =
    (r'', Inr (refresh_claims lib now (snd uuids) u sq (AuthConfig_Defaults cfg)))"
proof -
  have "storable_meta \<lparr>rm_UserID = u, rm_Sequence = sq\<rparr>"
    using assms(3) by (simp add: storable_meta_def issue_ok_def)
  moreover have "rt_Consume (RedisRefreshStore_iface (cd, store)) (snd uuids) t r' = (r'', Inr mo)"
    using assms(8) by (simp add: RedisRefreshStore_iface_def)
  ultimately show ?thesis
    using redis_refresh.issued_refresh_consumed [OF assms(1-3) _ assms(4-7)]
    unfolding issued_refresh_def by blast
qed

theorem issued_refresh_token_witness:
  "ConsumeRefreshToken sample_jwt Second ''R'' sample_cfg
      (Some (RedisRefreshStore_iface sample_refresh_store)) refresh_redis =
    (Map.empty, Inr sample_refresh)"
proof -
  have s7: "string_of_int 7 = ''7''" "int_of_string ''7'' = 7"
    by code_simp+
  have "RedisRefreshStore_Consume (fst sample_refresh_store) (snd sample_refresh_store) ''r'' Second
      refresh_redis = (Map.empty, Inr (Some \<lparr>rm_UserID = 7, rm_Sequence = ''s''\<rparr>))"
    by (simp add: RedisRefreshStore_Consume_def sample_refresh_store_def NewRedisRefreshStore_def
        RedisRefreshStore_key_def sample_codec_def refresh_redis_def mem_content_def s7)
  moreover have "cfg_RefreshTTL (AuthConfig_Defaults sample_cfg) = 3600 * Second"
    by (simp add: sample_cfg_def)
  ultimately show ?thesis
    using issued_refresh_token_consumed [OF sample_jwt_documented _ sample_issue_ok,
        where cd = "fst sample_refresh_store" and store = "snd sample_refresh_store" and u = 7
          and ver = 1 and r = Map.empty and r' = refresh_redis and p = sample_pair and t = Second]
      sample_stores_lawful(1) sample_issued(1) sample_claims(2)
    by (simp add: sample_pair_def issued_refresh_def del: AuthConfig_Defaults_fields)
qed

text \<open>
  The token a login returns is accepted, with the claims it was issued for, up to a second before
  its expiry, whenever the version store in Redis still knows the user and answers.\<close>

theorem simple_login_accepted:
  assumes "jwt_documented lib" and "version_lawful store" and "versions_numeric store r"
    and "simple_issue_ok now uuid sq cfg"
    and "GenerateSimpleToken lib now uuid u sq cfg (Some (RedisTokenVersionStore_iface store)) r =
           (r', Inr res)"
    and "now \<le> t" and "t + Second \<le> now + sc_TTL (SimpleTokenConfig_Defaults cfg)"
    and "stored_version store r' t u \<noteq> 0"
    and "RedisTokenVersionStore_GetVersion store u t r' = (v, None)"
  shows "VerifySimpleToken lib t (str_Token res) cfg (Some (RedisTokenVersionStore_iface store)) r' =
    Inr (simple_claims lib now uuid u sq (str_Version res) (SimpleTokenConfig_Defaults cfg))"
proof -
  have "tv_GetVersion (RedisTokenVersionStore_iface store) u t r' = (v, None)"
    using assms(9) by (simp add: RedisTokenVersionStore_iface_def)
  with redis_version.login_accepted [OF assms(1-8)] show ?thesis
    unfolding issued_simple_def .
qed

theorem simple_login_witness:
  "VerifySimpleToken sample_jwt Second ''S'' sample_scfg
     (Some (RedisTokenVersionStore_iface (sample_versions 0))) (version_redis 1 None) =
   Inr (sample_simple 0 ''u'' 1)"
proof -
  have "VerifySimpleToken sample_jwt Second (str_Token (sample_login ''S'' 0 1)) sample_scfg
      (Some (RedisTokenVersionStore_iface (sample_versions 0))) (version_redis 1 None) =
    Inr (simple_claims sample_jwt 0 ''u'' 7 ''s'' (str_Version (sample_login ''S'' 0 1))
      (SimpleTokenConfig_Defaults sample_scfg))"
    by (rule simple_login_accepted [OF sample_jwt_documented sample_stores_lawful(3)
          sample_numeric(1) _ sample_logins(1), where t = Second and v = 1])
       (simp_all add: sample_stored sample_get sample_scfg_ok sample_ttl del: SimpleTokenConfig_Defaults_fields)
  then show ?thesis
    using sample_claims(3) [of 0 "''u''" 1] by (simp add: sample_login_def issued_simple_def)
qed

text \<open>
  A login ends the one before: after two logins of one user, with the version store in Redis
  remembering the user throughout, the token of the first is refused at every later instant.\<close>

theorem second_login_ends_first:
  assumes "jwt_documented lib" and "version_lawful store" and "versions_numeric store r"
    and "simple_issue_ok now uuid sq cfg"
    and "GenerateSimpleToken lib now uuid u sq cfg (Some (RedisTokenVersionStore_iface store)) r =
           (r1, Inr res)"
    and "now \<le> now'" and "stored_version store r1 now' u \<noteq> 0"
    and "GenerateSimpleToken lib now' uuid' u sq' cfg' (Some (RedisTokenVersionStore_iface store)) r1 =
           (r2, Inr res')"
    and "now' \<le> t" and "stored_version store r2 t u \<noteq> 0"
  shows "isl (VerifySimpleToken lib t (str_Token res) cfg
    (Some (RedisTokenVersionStore_iface store)) r2)"
  using redis_version.second_login_ends [OF assms] by (metis Inr_projr_iff)

theorem second_login_witness:
  "isl (VerifySimpleToken sample_jwt (2 * Second) ''S'' sample_scfg
     (Some (RedisTokenVersionStore_iface (sample_versions 0))) (version_redis 2 None))"
  using second_login_ends_first [OF sample_jwt_documented sample_stores_lawful(3)
      sample_numeric(1) sample_scfg_ok(1) sample_logins(1) _ _ sample_logins(2), where t = "2 * Second"]
  by (simp add: sample_stored sample_login_def)

text \<open>
  After \<open>RevokeSimpleToken\<close> succeeded for a user, every token of that user that was
  accepted until then is refused, under any configuration, as long as the version store in Redis
  remembers the user.\<close>

theorem revocation_ends_all_simple_tokens:
  assumes "jwt_documented lib" and "version_lawful store" and "versions_numeric store r"
    and "VerifySimpleToken lib now tok cfg (Some (RedisTokenVersionStore_iface store)) r = Inr c"
    and "RevokeSimpleToken now (stc_UserID c) (Some (RedisTokenVersionStore_iface store)) r = (r', None)"
    and "now \<le> t" and "stored_version store r' t (stc_UserID c) \<noteq> 0"
  shows "isl (VerifySimpleToken lib t tok cfg' (Some (RedisTokenVersionStore_iface store)) r')"
  using redis_version.revocation_ends_all [OF assms] by (metis Inr_projr_iff)

theorem revocation_witness:
  "isl (VerifySimpleToken sample_jwt (2 * Second) ''S'' sample_scfg
     (Some (RedisTokenVersionStore_iface (sample_versions 0))) (version_redis 2 None))"
proof -
  have "RevokeSimpleToken Second (stc_UserID (sample_simple 0 ''u'' 1))
      (Some (RedisTokenVersionStore_iface (sample_versions 0))) (version_redis 1 None) =
    (version_redis 2 None, None)"
    using sample_incr(2) [of Second] by (simp add: RevokeSimpleToken_def sample_simple_def)
  moreover have "VerifySimpleToken sample_jwt Second ''S'' sample_scfg
      (Some (RedisTokenVersionStore_iface (sample_versions 0))) (version_redis 1 None) =
    Inr (sample_simple 0 ''u'' 1)"
    by (rule sample_simple_verifies)
  ultimately show ?thesis
    by (intro revocation_ends_all_simple_tokens [OF sample_jwt_documented sample_stores_lawful(3)
          sample_numeric(2), where now = Second and c = "sample_simple 0 ''u'' 1" and cfg = sample_scfg])
       (simp_all add: sample_stored sample_simple_def)
qed

text \<open>
  Every default-filling function of the repository's configurations yields a complete configuration,
  and leaves a configuration alone exactly when it is complete; so filling twice is filling once.\<close>

theorem defaults_complete_and_stable:
  "auth_config_complete (AuthConfig_Defaults a) \<and>
   (AuthConfig_Defaults a = a \<longleftrightarrow> auth_config_complete a) \<and>
   simple_config_complete (SimpleTokenConfig_Defaults s) \<and>
   (SimpleTokenConfig_Defaults s = s \<longleftrightarrow> simple_config_complete s) \<and>
   slot_complete (SlotConfig_ApplyDefaults sl) \<and>
   (SlotConfig_ApplyDefaults sl = sl \<longleftrightarrow> slot_complete sl) \<and>
   met_Addr (MetricsConfig_ApplyDefaults m) \<noteq> [] \<and>
   (MetricsConfig_ApplyDefaults m = m \<longleftrightarrow> met_Addr m \<noteq> []) \<and>
   bridge_client_complete (BridgeClientConfig_ApplyDefaults bc) \<and>
   (BridgeClientConfig_ApplyDefaults bc = bc \<longleftrightarrow> bridge_client_complete bc) \<and>
   bridge_server_complete (BridgeServerConfig_ApplyDefaults bs) \<and>
   (BridgeServerConfig_ApplyDefaults bs = bs \<longleftrightarrow> bridge_server_complete bs) \<and>
   tracing_complete (TracingConfig_ApplyDefaults t) \<and>
   (TracingConfig_ApplyDefaults t = t \<longleftrightarrow> tracing_complete t) \<and>
   postgres_complete (PostgresConfig_ApplyDefaults p) \<and>
   (PostgresConfig_ApplyDefaults p = p \<longleftrightarrow> postgres_complete p)"
  by (simp only: simp_thms
      auth_config.fill_complete [OF TrueI] auth_config.fixed_iff_complete [OF TrueI]
      simple_config.fill_complete [OF TrueI] simple_config.fixed_iff_complete [OF TrueI]
      slot_config.fill_complete [OF TrueI] slot_config.fixed_iff_complete [OF TrueI]
      metrics_config.fill_complete [OF TrueI] metrics_config.fixed_iff_complete [OF TrueI]
      bridge_client_config.fill_complete [OF TrueI] bridge_client_config.fixed_iff_complete [OF TrueI]
      bridge_server_config.fill_complete [OF TrueI] bridge_server_config.fixed_iff_complete [OF TrueI]
      tracing_config.fill_complete [OF TrueI] tracing_config.fixed_iff_complete [OF TrueI]
      postgres_config.fill_complete [OF TrueI] postgres_config.fixed_iff_complete [OF TrueI])

text \<open>
  The conversion of a configured number of seconds to a \<open>time.Duration\<close> is exact if and
  only if the number is at most 9223372036 in absolute value; any larger number wraps around to a
  wrong duration.\<close>

theorem duration_exact_iff:
  "sint (Duration_Duration d) = sint d * Second \<longleftrightarrow> \<bar>sint d\<bar> \<le> 9223372036"
proof
  assume "sint (Duration_Duration d) = sint d * Second"
  with sint_bounds_i64 [of "Duration_Duration d"]
  have "- (2 ^ 63) \<le> sint d * Second" "sint d * Second < 2 ^ 63" by simp_all
  then show "\<bar>sint d\<bar> \<le> 9223372036" by simp
qed (rule Duration_Duration_exact)

text \<open>
  An optional secret that is found nowhere overwrites what the configuration file had given its
  target: the target ends up with the definition's default, an empty string when none was written.\<close>

theorem optional_secret_overwrites_config:
  assumes "LoadConfig libs opts w = (w1, None)"
    and "sd_Target s = Some a" and "\<not> sd_Required s"
    and "os_Getenv (cw_os w1) (sd_Name s) = []"
    and "os_Getenv (cw_os w1) (sd_Name s @ ''_FILE'') = []"
  shows "\<exists>w2. LoadConfigWithSecrets libs [s] opts w = (w2, None) \<and> cw_mem w2 a = sd_Default s"
proof -
  obtain w2 err where w2: "LoadConfigWithSecrets libs [s] opts w = (w2, err)" by fastforce
  from optional_secret_overwrites [OF assms(1) w2 assms(2-)] w2 show ?thesis by auto
qed

theorem optional_secret_witness:
  "\<exists>w2. LoadConfigWithSecrets sample_config_libs [sample_secret] [] sample_world = (w2, None) \<and>
     cw_mem w2 0 = []"
  using optional_secret_overwrites_config [OF sample_LoadConfig, where s = sample_secret and a = 0]
  by (simp add: sample_secret_def sample_loaded_def sample_world_def sample_os_def os_Getenv_def)

text \<open>
  The Kafka header carrier only grows: after \<open>Set\<close>, \<open>Get\<close> returns the new
  value for a key that was not there, and still the old one for a key that was.\<close>

theorem carrier_set_then_get:
  "carrier_Get (carrier_Set c k v) k =
     (if k \<in> set (carrier_Keys c) then carrier_Get c k else v) \<and>
   (k' = k \<or> carrier_Get (carrier_Set c k v) k' = carrier_Get c k') \<and>
   carrier_Keys (carrier_Set c k v) = carrier_Keys c @ [k]"
proof -
  have "carrier_Get c k' = []" if "k' \<notin> set (carrier_Keys c)"
    using that by (induction c) (auto simp: carrier_Keys_def)
  then show ?thesis
    by (auto simp: carrier_Get_Set) (simp_all add: carrier_Keys_def carrier_Set_def)
qed

text \<open>
  Trace context survives a round trip through metadata inside one process: extracting from what
  \<open>InjectMetadata\<close> wrote into fresh metadata reads exactly the headers the propagator
  wrote, and adds the trace identifier as an attribute.\<close>

theorem trace_context_within_process:
  assumes "trace_documented lib"
  shows "ExtractMetadata lib ctx' (Some (InjectMetadata lib ctx None)) =
    (let c = tr_Extract lib
               (\<lambda>k. case map_of (tr_Inject lib ctx) k of None \<Rightarrow> [] | Some v \<Rightarrow> v) ctx'
     in case tr_TraceID lib ctx of
          None \<Rightarrow> c
        | Some tid \<Rightarrow> tr_SetAttribute lib traceMetadataKey tid c)"
  using inject_then_extract [OF assms] by simp

theorem trace_context_witness:
  "ExtractMetadata sample_trace [] (Some (InjectMetadata sample_trace ''t1'' None)) = ''t1;t1''"
  unfolding trace_context_within_process [OF sample_trace_documented]
  by (simp add: sample_trace_def)

text \<open>
  Ingress validation accepts exactly the requests that name an action and carry text or audio, and
  its verdict does not depend on whether the message was normalized first.\<close>

theorem ingress_validation:
  "(ValidateIngress msg = None \<longleftrightarrow> ingress_ok msg) \<and>
   ValidateIngress (NormalizeMessage p msg) = ValidateIngress msg"
proof (cases msg)
  case (Some m)
  obtain m' where m': "NormalizeMessage p (Some m) = Some m'" using NormalizeMessage_Some by blast
  from NormalizeMessage_frame [OF m'] have "ValidateIngress (Some m') = ValidateIngress (Some m)"
    by (intro ValidateIngress_depends) simp_all
  then show ?thesis by (simp only: Some m' ValidateIngress_cases simp_thms)
qed (simp add: ValidateIngress_cases NormalizeMessage_def)

text \<open>
  An envelope keeps its trace identifier in two places that agree after a stamp, and later stamps
  and normalizations keep them in agreement. A stamp with an identifier takes its place even where
  another identifier was set before.\<close>

theorem trace_stamp_consistent:
  "(traceID = [] \<and> \<not> trace_consistent env \<or> trace_consistent (StampTrace env traceID)) \<and>
   (\<not> trace_consistent env \<or> trace_consistent (NormalizeEnvelope p env)) \<and>
   (traceID = [] \<or> TransportEnvelope_GetTraceId (StampTrace (Some e) traceID) = traceID)"
  using StampTrace_consistent [of env traceID] NormalizeEnvelope_trace [of env p]
  by (auto simp: StampTrace_def TransportEnvelope_GetTraceId_def Let_def)

theorem trace_stamp_witness:
  "trace_consistent (StampTrace (Some (TransportEnvelope_Reset :: unit TransportEnvelope)) ''t'')"
  using trace_stamp_consistent [where traceID = "''t''" and
      env = "Some (TransportEnvelope_Reset :: unit TransportEnvelope)", THEN conjunct1]
  by simp

end
