(* ===== verification/Spec2Isabelle.thy ===== *)
theory Spec2Isabelle
  imports Further_Facts
begin

text \<open>
  A verification library for transport-lib (module \<open>github.com/Goden-Gun/transport-lib\<close>): the
  Go library that carries messages between a gateway sidecar and its business services over
  one bidirectional gRPC stream, with the tokens, configuration, Kafka and tracing helpers that
  the services share.

  \<^bold>\<open>The parts and how they interact.\<close> A bridge client (\<open>pkg/bridge/client.go\<close>) keeps one stream to
  a bridge server (\<open>pkg/bridge/server.go\<close>): it registers, publishes ingress envelopes under an
  optional back-pressure limit, receives deliveries and broadcasts that its subscribers read off
  two channels and acknowledge (\<open>pkg/bridge/delivery.go\<close>), sends heartbeats, and reconnects with a
  back-off. The server drives a handler of the application for each stream. Envelopes are filled and
  validated by \<open>pkg/envelope\<close>, on the generated messages of \<open>gen/go/bridge/v1\<close>. \<open>pkg/auth\<close> issues and
  checks JWT tokens against stores in Redis. \<open>pkg/config\<close> loads configuration and secrets,
  \<open>pkg/kafka\<close> publishes events, \<open>pkg/tracing\<close>, \<open>pkg/logger\<close> and \<open>pkg/bootstrap\<close> set the rest up.

  \<^bold>\<open>Theories.\<close>

  \<^item> \<open>Go_Prelude\<close>: Go errors, results, contexts, integers; the contracts \<open>defaulting\<close> (functions that
    fill defaults) and \<open>once_guarded\<close> (operations under a \<open>sync.Once\<close>). \<open>Go_Strings\<close> has \<open>TrimSpace\<close>,
    case mapping and decimal printing on byte strings, \<open>Go_Time\<close> \<open>time.Until\<close> and
    \<open>Duration.Seconds\<close> with its rounding to a 64-bit float.
  \<^item> \<open>Bridgepb\<close>: the message structs of \<open>bridge.pb.go\<close>, \<open>Reset\<close> and the nil-safe getters; \<open>Envelope\<close>:
    \<open>envelope.go\<close>; \<open>Codes\<close>: \<open>codes.go\<close>.
  \<^item> \<open>Delivery\<close>, \<open>Server\<close>, \<open>Client\<close>: \<open>delivery.go\<close>, \<open>server.go\<close> with \<open>bridge.go\<close>, and \<open>client.go\<close>, one
    definition per method. \<open>Client_Steps\<close> puts the methods together as the goroutines run them: a
    labelled step relation whose states hold the client and the position of each goroutine.
    \<open>Client_Invariants\<close> and \<open>Client_Runs\<close> prove what holds in every reachable state, what runs exist,
    and how a closed client comes to its end; \<open>Client_Traces\<close> relates what came in over the network,
    as the labels of a run record it, to what the subscribers got, and the step relation to
    \<open>PublishIngress\<close> run without interruption; \<open>Client_Shutdown\<close> bounds the way of a cancelled client
    to its end by a measure; \<open>Client_Acks\<close> counts acknowledgements message by message.
  \<^item> \<open>Server_Steps\<close>: the goroutine of one stream of the server as a machine that reacts to requests,
    failures of \<open>Recv\<close> and returns of the handler, proved to be \<open>bridgeService_Stream\<close>. \<open>Bridge_Link\<close>
    joins a client to its server over streams that keep the order of messages and may break off
    anywhere; a run of the whole projects to a run of the client. \<open>Link_Invariants\<close> has what holds
    in every joint state, \<open>Link_Guarantees\<close> the end-to-end guarantees, \<open>Link_Runs\<close> the runs that exist.
    \<open>Client_Connections\<close> and \<open>Link_Order\<close> follow a client over its reconnections: one consumer at a
    time, order from stream to stream, and the loss of what was under way. \<open>Bridge_Network\<close> has any
    number of clients at one server that is served and closed meanwhile; a run of it projects to a
    joint run of each client.
  \<^item> \<open>Auth_Store\<close>: what the Redis client is documented to do, the store interfaces of \<open>pkg/auth\<close> and
    their contracts as the locales \<open>refresh_contract\<close>, \<open>blocklist_contract\<close> and \<open>version_contract\<close>.
    \<open>Redis_Store\<close>: \<open>redis_store.go\<close>, which is proved to fulfil them. \<open>Auth_Token\<close>, \<open>Simple_Token\<close>:
    \<open>token.go\<close>, \<open>config.go\<close> and \<open>simple_token.go\<close>. \<open>Token_Laws\<close> and \<open>Token_Contracts\<close>: when tokens are
    accepted, and what the contracts give on sequences of operations. \<open>Login_Sessions\<close>: the abstract
    view of simple tokens, a trace of logins and logouts with one current session per user, and its
    refinement by any store that fulfils \<open>version_contract\<close>.
  \<^item> \<open>Config\<close>: \<open>types.go\<close>, \<open>defaults.go\<close>, \<open>duration.go\<close>; \<open>Secrets\<close>: \<open>loader.go\<close>, \<open>secrets.go\<close>; \<open>Kafka\<close>:
    \<open>manager.go\<close>; \<open>Observability\<close>: \<open>tracing.go\<close>, \<open>pkg/logger\<close> and the rest of \<open>pkg/bootstrap\<close>.
  \<^item> \<open>Samples\<close>, \<open>Bridge_Samples\<close>, \<open>Network_Samples\<close>: concrete libraries that behave as documented and concrete inputs.
  \<^item> \<open>Further_Facts\<close>: smaller facts about single functions.
  \<^item> this theory: the properties, those that span components among them, each with a witness at a
    concrete input where it has hypotheses.

  \<^bold>\<open>How the code is read.\<close> A pointer that may be nil is an \<open>option\<close>; \<open>(T, error)\<close> is a sum; a panic is a
  value (\<open>outcome\<close>) or a flag of the state. 64-bit integers are words where their overflow matters
  (back-off, durations in seconds, versions, user ids); instants and the durations that are only
  compared and added are integers of nanoseconds. Strings are byte lists. Fresh identifiers, the clock
  and everything outside the repository (gRPC, TLS, JWT, Redis, sarama, viper, godotenv, logrus,
  OpenTelemetry, the file system) are arguments; what a property relies on is a named hypothesis of
  documented behaviour (\<open>jwt_documented\<close>, \<open>redis_documented\<close>, \<open>grpc_rejects_done\<close>, \<open>trace_documented\<close>,
  \<open>codec_documented\<close>). A step of the client is one goroutine moving between two points where
  another can run: taking a slot, calling and returning from \<open>Recv\<close>, \<open>Send\<close> under the mutex, a
  channel operation. Dialling is one step; the network may answer differently at every step. A
  state with a panic has no successor.

  \<^bold>\<open>Client and server together.\<close> A joint state has one client with all its goroutines and, for every
  stream it opened, the handler goroutine of the server; other clients of the server have streams of
  their own and share nothing with it but the application. What gRPC is relied on for is in the rules
  of \<open>link_step\<close>: a new stream is new, either end receives what the other sent, in order and without
  gaps, and \<open>Recv\<close> may fail at any point. The application is unconstrained: the handler may answer
  anything, and every session it was given may send at any time, with or without success. In the
  network of \<open>net_step\<close> the documented part of \<open>GracefulStop\<close> is in the rules: from the call on no
  stream is accepted, and it returns when every stream has ended.

  \<^bold>\<open>Bounds and fuel.\<close> No loop of the code needs fuel except the search for the unit in the last place
  of a float (\<open>Go_Time.f64_ulp\<close>, fuel 120), which doubles a unit until 53 bits are enough; 120
  doublings exceed every 64-bit input. The run loop of the client does not end by itself, so it is
  part of the step relation.

  \<^bold>\<open>Not modelled.\<close> \<open>bridge_grpc.pb.go\<close> and the reflection part of \<open>bridge.pb.go\<close> (generated glue of the
  gRPC and protobuf libraries); when tickers and timeouts fire (a timer may fire at any time, and
  dialling may fail at any time); memory-model races on the fields the client shares without a lock,
  whose every interleaving at the points above is covered.
\<close>

section \<open>Properties\<close>

text \<open>C1: The handler sees what the client sent: on every stream it is either not called at all, or first
  with the registration of the client's own node, namespace and version, then with exactly the
  calls an initial part of the frames the client sent on that stream asks for, in their order,
  then at most with \<open>OnClose\<close>. On the first stream a client ever sends on, the
  handler is called as soon as anything was received.\<close>

theorem handler_sees_client:
  assumes "link_reaches opts tr l"
  shows "(on_stream st (lk_calls l) = [] \<or>
      (\<exists>reqs tail. prefix (register_frame (client_defaults opts) # reqs) (on_stream st (lk_sent l)) \<and>
         (tail = [] \<or> tail = [OnClose]) \<and>
         on_stream st (lk_calls l) =
           OnRegister \<lparr>rm_NodeID = o_NodeID opts, rm_Namespace = o_Namespace opts,
             rm_Version = o_BridgeVersion (client_defaults opts)\<rparr> # wanted_calls reqs @ tail)) \<and>
    (\<forall>f fs. lk_sent l = (st, f) # fs \<and> on_stream st (lk_read l) \<noteq> [] \<longrightarrow> on_stream st (lk_calls l) \<noteq> [])"
  using handler_calls [OF assms, of st] first_stream_accepted [OF assms, of st]
  unfolding client_meta_def by blast

theorem handler_sees_client_witness:
  "\<exists>(l :: unit link) reqs. link_reaches sample_options linked_trip l \<and>
     prefix (register_frame (client_defaults sample_options) # reqs) (on_stream 5 (lk_sent l)) \<and>
     wanted_calls reqs = [OnAck sample_ack]"
proof -
  obtain l :: "unit link" where l: "link_reaches sample_options linked_trip l"
    "lk_calls l = [(5, OnRegister (client_meta sample_options)), (5, OnAck sample_ack)]"
    using sample_trip by blast
  then have calls: "on_stream 5 (lk_calls l) = [OnRegister (client_meta sample_options), OnAck sample_ack]"
    by simp
  note seen = conjunct1 [OF handler_sees_client [OF l(1), of 5], unfolded calls]
  obtain reqs tail where r: "prefix (register_frame (client_defaults sample_options) # reqs) (on_stream 5 (lk_sent l))"
    "tail = [] \<or> tail = [OnClose]" "[OnAck sample_ack] = wanted_calls reqs @ tail"
  proof (rule disjE [OF seen])
    assume "\<exists>reqs tail. prefix (register_frame (client_defaults sample_options) # reqs) (on_stream 5 (lk_sent l)) \<and>
      (tail = [] \<or> tail = [OnClose]) \<and>
      [OnRegister (client_meta sample_options), OnAck sample_ack] =
      OnRegister \<lparr>rm_NodeID = o_NodeID sample_options, rm_Namespace = o_Namespace sample_options,
        rm_Version = o_BridgeVersion (client_defaults sample_options)\<rparr> # wanted_calls reqs @ tail"
    then show thesis by (elim exE conjE) (rule that, assumption+, simp only: list.inject)
  qed simp
  then have "wanted_calls reqs = [OnAck sample_ack]" by auto
  with r(1) l(1) show ?thesis by blast
qed

text \<open>C2: The handler can trust an acknowledgement: each one it sees names a message and no broadcast, and
  it sees it at most as often as a subscriber of the client has acknowledged a delivery of that
  message, which in turn is at most as often as the application asked for one. In particular no
  broadcast is ever acknowledged to the handler.\<close>

theorem acknowledgements_genuine:
  assumes "link_reaches opts tr l" and "(st, OnAck a) \<in> set (lk_calls l)"
  shows "ak_MessageID a \<noteq> '''' \<and> ak_BroadcastID a = '''' \<and>
    count_list (map snd (lk_calls l)) (OnAck a) \<le>
      length (filter (\<lambda>x. snd x \<and> snd (fst x) = ak_MessageID a) (sy_taken (lk_client l))) \<and>
    length (filter (\<lambda>x. snd x \<and> snd (fst x) = ak_MessageID a) (sy_taken (lk_client l))) \<le>
      length (filter (\<lambda>q. snd q = ak_MessageID a) (asked_deliveries tr))"
  using ack_calls_bounded [OF assms] acked_requested [OF assms(1), of "ak_MessageID a"]
  unfolding acked_in_def requested_asked by blast

theorem acknowledgements_witness:
  "\<exists>l :: unit link. link_reaches sample_options linked_trip l \<and> (5, OnAck sample_ack) \<in> set (lk_calls l) \<and>
     1 \<le> length (filter (\<lambda>q. snd q = ''m1'') (asked_deliveries linked_trip))"
proof -
  obtain l :: "unit link" and e' where l: "link_reaches sample_options linked_trip l"
    "sy_taken (lk_client l) = [((e', ''m1''), True)]"
    "lk_calls l = [(5, OnRegister (client_meta sample_options)), (5, OnAck sample_ack)]"
    using sample_trip by blast
  have "(5, OnAck sample_ack) \<in> set (lk_calls l)" using l(3) by simp
  from acknowledgements_genuine [OF l(1) this] this l(1,2) show ?thesis
    by (intro exI [of _ l]) (simp add: sample_ack_def)
qed

text \<open>C3: End to end nothing is made up or duplicated: the deliveries the subscribers of the client have
  taken, those queued and those in its consumers' hands are among the normalized envelopes the
  application on the server asked its sessions to send, each at most as often as it was asked for;
  and the same for broadcasts.\<close>

theorem subscribers_get_what_was_sent:
  assumes "link_reaches opts tr l"
  shows "deliveries (lk_client l) \<subseteq># mset (asked_deliveries tr) \<and>
    broadcasts (lk_client l) \<subseteq># mset (asked_broadcasts tr)"
  using subscribers_get_requested [OF assms] unfolding requested_asked by blast

theorem subscribers_get_witness:
  "\<exists>(l :: unit link) e'. link_reaches sample_options linked_trip l \<and>
     sy_taken (lk_client l) = [((e', ''m1''), True)] \<and>
     {#(e', ''m1'')#} \<subseteq># mset (asked_deliveries linked_trip)"
proof -
  obtain l :: "unit link" and e' where l: "link_reaches sample_options linked_trip l"
    "sy_taken (lk_client l) = [((e', ''m1''), True)]"
    using sample_trip by blast
  have "{#(e', ''m1'')#} \<subseteq># deliveries (lk_client l)"
    using l(2) by (simp add: deliveries_def)
  also have "\<dots> \<subseteq># mset (asked_deliveries linked_trip)"
    using subscribers_get_what_was_sent [OF l(1)] by blast
  finally show ?thesis using l by blast
qed

text \<open>C4: Over any number of reconnections deliveries stay in order and none that came in is skipped: the
  streams the client opened are distinct; on each it received an initial part of what was sent
  there; what the subscribers took is an initial part of what came in, stream after stream in the
  order they were opened, and the same for broadcasts; and until the client is closed or its
  context cancelled, all that came in is taken, queued, or in the hands of its consumer.\<close>

theorem deliveries_in_order_across_connections:
  assumes "link_reaches opts tr l"
  shows "distinct (lk_opened l) \<and>
    (\<forall>st. prefix (on_stream st (lk_in l)) (on_stream st (lk_out l))) \<and>
    prefix (rev (map fst (sy_taken (lk_client l))))
      (concat (map (\<lambda>st. picks pick_deliver (on_stream st (lk_in l))) (rev (lk_opened l)))) \<and>
    prefix (rev (map fst (sy_takenB (lk_client l))))
      (concat (map (\<lambda>st. picks pick_broadcast (on_stream st (lk_in l))) (rev (lk_opened l)))) \<and>
    (\<not> ctx_done (cl_runCtx (sy_client (lk_client l))) \<longrightarrow>
       rev (map fst (sy_taken (lk_client l))) @ ch_buf (cl_deliverCh (sy_client (lk_client l))) @
         held pick_deliver (lk_client l) =
       concat (map (\<lambda>st. picks pick_deliver (on_stream st (lk_in l))) (rev (lk_opened l))) \<and>
       rev (map fst (sy_takenB (lk_client l))) @ ch_buf (cl_broadcastCh (sy_client (lk_client l))) @
         held pick_broadcast (lk_client l) =
       concat (map (\<lambda>st. picks pick_broadcast (on_stream st (lk_in l))) (rev (lk_opened l))))"
  using subscribers_get_in_order [OF assms] link_reaches_order [OF assms] link_reaches_wires [OF assms]
  unfolding came_def delivered_order_def broadcast_order_def order_link_def wires_inv_def wire_ok_def
  by (blast dest: append_prefixD)

theorem across_connections_witness:
  "\<exists>(l :: unit link) e'. link_reaches sample_options (linking @ reconnecting) l \<and>
     lk_opened l = [6, 5] \<and> sy_taken (lk_client l) = [((e', ''m1''), True)] \<and>
     prefix [(e', ''m1'')]
       (picks pick_deliver (on_stream 5 (lk_in l)) @ picks pick_deliver (on_stream 6 (lk_in l)))"
proof -
  obtain l :: "unit link" and e' where l: "link_reaches sample_options (linking @ reconnecting) l"
    "lk_opened l = [6, 5]" "sy_taken (lk_client l) = [((e', ''m1''), True)]"
    using sample_reconnected by blast
  from deliveries_in_order_across_connections [OF l(1)] l show ?thesis by auto
qed

text \<open>C5: A delivery gets through and its acknowledgement comes back: on a stream both ends agree on, with
  nothing under way, an empty queue and a network that sends, there is a run in which the envelope
  given to \<open>SendDeliver\<close> reaches a subscriber normalized, the subscriber acknowledges
  it, the handler's \<open>OnAck\<close> is called with its request identifier and nothing else is
  called, and both ends agree again.\<close>

theorem delivery_round_trip:
  assumes "linked st l" and "chan_has_room (cl_deliverCh (sy_client (lk_client l)))"
    and "ch_buf (cl_deliverCh (sy_client (lk_client l))) = []"
    and "NormalizeEnvelope p (Some e) = Some e'" and "m = Message_GetRequestId (env_Message e')"
    and "m \<noteq> ''''" and "\<And>f. be_Send env st f = None"
  shows "\<exists>l'. link_run l (round_trip env st p e m) l' \<and> linked st l' \<and>
    sy_taken (lk_client l') = ((e', m), True) # sy_taken (lk_client l) \<and>
    lk_calls l' = lk_calls l @
      [(st, OnAck \<lparr>ak_MessageID = m, ak_BroadcastID = '''', ak_Status = '''', ak_Reason = ''''\<rparr>)]"
  by (rule round_trip_runs [OF assms])

theorem delivery_round_trip_witness:
  "\<exists>(l :: unit link) l'. link_reaches sample_options linking l \<and>
     link_run l (round_trip sample_env 5 sample_stamp sample_message_env ''m1'') l' \<and>
     lk_calls l' = [(5, OnRegister (client_meta sample_options)), (5, OnAck sample_ack)]"
proof -
  obtain l :: "unit link" where l: "link_reaches sample_options linking l" "linked 5 l"
    "lk_calls l = [(5, OnRegister (client_meta sample_options))]"
    "ch_buf (cl_deliverCh (sy_client (lk_client l))) = []"
    "chan_has_room (cl_deliverCh (sy_client (lk_client l)))"
    using sample_linked by blast
  obtain e' where e': "NormalizeEnvelope sample_stamp (Some sample_message_env) = Some e'"
    "''m1'' = Message_GetRequestId (env_Message e')"
    using sample_normalized by metis
  have send: "be_Send sample_env 5 f = None" for f by (simp add: sample_env_def plain_env_def)
  from delivery_round_trip [OF l(2,5,4) e' _ send] l(1,3) show ?thesis
    unfolding sample_ack_def by fastforce
qed





text \<open>C8: What is under way when a connection is given up is lost: once the client is back to connecting or
  backing off, it never again receives anything on a stream it had opened, whatever it, the server
  and the network do; the deliveries that were in flight stay in flight, although
  \<open>SendDeliver\<close> has returned without an error.\<close>

theorem undelivered_is_lost:
  fixes tr tr' :: "(('v, 'c) bridge_env \<times> 'v link_event) list"
  assumes "link_reaches opts tr l"
    and "sy_run (lk_client l) = RunConnecting r \<or> sy_run (lk_client l) = RunBackoff r"
    and "st \<in> set (lk_opened l)" and "link_run l tr' l'"
  shows "on_stream st (lk_in l') = on_stream st (lk_in l) \<and>
    prefix (in_flight st (lk_in l) (lk_out l)) (in_flight st (lk_in l') (lk_out l'))"
proof -
  have same: "on_stream st (lk_in l') = on_stream st (lk_in l)"
    by (rule given_up_streams_silent [OF assms(4,1,2,3)])
  obtain xs where "lk_out l' = lk_out l @ xs" using link_run_out [OF assms(4)] by blast
  with in_flight_stays [OF same] same show ?thesis by simp
qed

theorem undelivered_witness:
  "\<exists>(l :: unit link) l'. link_reaches sample_options (linking @ losing) l \<and>
     link_run l [(second_env, LClient EvConnect)] l' \<and> lk_opened l' = [6, 5] \<and>
     prefix [deliver_response sample_stamp sample_message_env] (in_flight 5 (lk_in l') (lk_out l'))"
proof -
  obtain l :: "unit link" and r l' where l: "link_reaches sample_options (linking @ losing) l"
    "sy_run (lk_client l) = RunConnecting r" "5 \<in> set (lk_opened l)"
    "in_flight 5 (lk_in l) (lk_out l) = [deliver_response sample_stamp sample_message_env]"
    "link_run l [(second_env, LClient EvConnect)] l'" "lk_opened l' = [6, 5]"
    using sample_lost_reopened by blast
  from undelivered_is_lost [OF l(1) disjI1 [OF l(2)] l(3,5)] l show ?thesis
    by (intro exI [of _ l] exI [of _ l']) simp
qed

text \<open>C9: With back-pressure on, in every state the client can reach at most
  \<open>MaxInFlightDeliver\<close> publishers are between taking and releasing their slot, and a
  further caller of \<open>acquireSlot\<close> is blocked exactly when the limit is used up and
  its context is not done.\<close>

theorem publishers_bounded:
  assumes "client_reaches opts tr s" and "o_EnableBackpressure opts"
    and "0 < o_MaxInFlightDeliver opts"
  shows "length (sy_pubs s) \<le> nat (o_MaxInFlightDeliver opts) \<and>
    (acquireSlot ctx (sy_client s) = [] \<longleftrightarrow>
       length (sy_pubs s) = nat (o_MaxInFlightDeliver opts) \<and> \<not> ctx_done ctx)"
  using acquireSlot_blocked [OF reaches_slot_inv [OF assms(1)], of ctx] reaches_opts [OF assms(1)]
    assms(2,3) by (simp add: client_defaults_def)

theorem publishers_bounded_witness:
  "\<exists>s :: unit sys. client_reaches sample_options publishing s \<and> length (sy_pubs s) = 1 \<and>
     acquireSlot Background (sy_client s) = []"
proof -
  obtain s :: "unit sys" where s: "client_reaches sample_options publishing s"
    "sy_pubs s = [PubSending sample_stamp sample_message_env]"
    using sample_publishing by blast
  with publishers_bounded [OF s(1), of Background] show ?thesis by auto
qed



text \<open>C11: Every frame a client ever sends is its registration, a normalized ingress frame, a heartbeat, or
  an acknowledgement that names what it confirms; and it never sends more acknowledgements than
  there are deliveries and broadcasts its subscribers have acknowledged.\<close>

theorem only_known_frames:
  assumes "client_reaches opts tr s"
  shows "(\<forall>(st, f) \<in> set (cl_sent (sy_client s)).
       f = register_frame (client_defaults opts) \<or> (\<exists>p e. f = ingress_frame p e) \<or>
       (\<exists>n. f = heartbeat_frame n) \<or> (\<exists>m b. f = ack_frame m b \<and> (m \<noteq> [] \<or> b \<noteq> []))) \<and>
    ack_count (cl_sent (sy_client s)) \<le>
       length (filter snd (sy_taken s)) + length (filter snd (sy_takenB s))"
  using reaches_frames_inv [OF assms] reaches_opts [OF assms]
  unfolding case_prod_beta by (simp add: frames_inv_def good_frame_def acked_def)

theorem only_known_frames_witness:
  "\<exists>s :: unit sys. client_reaches sample_options (startup sample_env) s \<and>
     cl_sent (sy_client s) \<noteq> [] \<and>
     ack_count (cl_sent (sy_client s)) \<le>
       length (filter snd (sy_taken s)) + length (filter snd (sy_takenB s))"
proof -
  obtain s :: "unit sys" where s: "client_reaches sample_options (startup sample_env) s"
    "cl_sent (sy_client s) = [(5, register_frame (client_defaults sample_options))]"
    using sample_service by blast
  with only_known_frames [OF s(1)] show ?thesis by (intro exI [of _ s]) simp
qed

text \<open>C12: As long as the run loop has not given a connection up and the client has not been closed, no
  goroutine of the client panics, whatever the interleaving of publishers, consumer, heartbeats,
  subscribers and the run loop, and whatever the network answers.\<close>

theorem no_panic_while_connected:
  assumes "client_reaches opts tr s"
    and "\<forall>(env, ev) \<in> set tr. ev \<noteq> EvRunDone \<and> ev \<noteq> EvConnLost \<and> ev \<noteq> EvClose"
  shows "sy_panic s = None"
proof -
  obtain c where c: "NewClient opts = Inr c" "client_run (init_sys c) tr s"
    using assms(1) by (rule client_reachesE)
  have "\<not> (\<exists>x \<in> set tr. disruptive (snd x))"
    using assms(2) by (fastforce simp: disruptive_def split: event.splits)
  from run_calm_inv [OF c(2) init_invariants(6) [OF c(1)] this] show ?thesis
    by (simp add: calm_inv_def)
qed

theorem no_panic_witness:
  "\<exists>s :: unit sys. client_reaches sample_options publishing s \<and> sy_panic s = None"
proof -
  obtain s :: "unit sys" where s: "client_reaches sample_options publishing s"
    using sample_publishing by blast
  then have "sy_panic s = None"
    by (rule no_panic_while_connected) (simp add: publishing_def startup_def)
  with s show ?thesis by blast
qed

text \<open>C13: Nothing is made up, duplicated or lost between the stream and the subscribers: in every state the
  client can reach, the deliveries taken, queued and in the consumers' hands are among those the
  streams brought, as often as they came, and are all of them as long as no consumer has left with
  one in its hands because its context ended; and the same for broadcasts.\<close>

theorem deliveries_conserved:
  assumes "client_reaches opts tr s"
  shows "deliveries s \<subseteq># mset (received_in pick_deliver tr) \<and>
    broadcasts s \<subseteq># mset (received_in pick_broadcast tr) \<and>
    (EvConsumerExit \<notin> snd ` set tr \<longrightarrow>
       deliveries s = mset (received_in pick_deliver tr) \<and>
       broadcasts s = mset (received_in pick_broadcast tr))"
proof -
  obtain c where c: "NewClient opts = Inr c" "client_run (init_sys c) tr s"
    using assms by (rule client_reachesE)
  from init_accounts [OF c(1)] show ?thesis by (intro run_accounts [OF c(2)]) simp_all
qed

theorem deliveries_conserved_witness:
  "\<exists>s :: unit sys. client_reaches sample_options delivering s \<and> deliveries s = {#sample_queued#}"
proof -
  obtain s :: "unit sys" where s: "client_reaches sample_options delivering s"
    using sample_delivering by blast
  have "received_in pick_deliver delivering = [sample_queued]"
    by (simp add: received_in_def delivering_def startup_def came_in_def receive_sample)
  moreover have "EvConsumerExit \<notin> snd ` set delivering"
    by (auto simp: delivering_def startup_def)
  ultimately show ?thesis using deliveries_conserved [OF s] s by (intro exI [of _ s]) simp
qed





text \<open>C16: A started client can always be drained: from every state it can reach without a panic, after
  \<open>Close\<close> there is a way for its goroutines to go on, without a panic, until the wait
  group is at zero, where \<open>Drain\<close> can return nil, provided gRPC refuses streams on
  contexts that are done.\<close>

theorem closed_client_drains:
  assumes "client_reaches opts tr s" and "sy_panic s = None" and "cl_runCancel (sy_client s)"
    and "\<not> cl_stopOnce (sy_client s)" and "grpc_rejects_done env"
  shows "\<exists>evs s'. client_run s (map (Pair env) (EvClose # evs)) s' \<and> sy_panic s' = None \<and>
    cl_wg (sy_client s') = 0 \<and> None \<in> set (snd (client_Drain env ctx (sy_client s')))"
proof -
  obtain evs s' where
    "client_run s (map (Pair env) (EvClose # evs)) s'" "sy_panic s' = None" "cl_wg (sy_client s') = 0"
    using close_then_drained [OF assms] by blast
  then show ?thesis
    by (intro exI [of _ evs] exI [of _ s']) (simp add: client_Drain_def client_Close_keeps Let_def)
qed

theorem closed_client_drains_witness:
  "\<exists>(s :: unit sys) evs s'. client_reaches sample_options (startup sample_env) s \<and>
     client_run s (map (Pair sample_env) (EvClose # evs)) s' \<and>
     None \<in> set (snd (client_Drain sample_env Background (sy_client s')))"
proof -
  obtain s :: "unit sys" where s: "client_reaches sample_options (startup sample_env) s" "in_service 5 s"
    "\<not> cl_stopOnce (sy_client s)"
    using sample_service_open by blast
  then have "sy_panic s = None" "cl_runCancel (sy_client s)" by (simp_all add: in_service_def)
  from closed_client_drains [OF s(1) this s(3) sample_env_simps(2), of Background] s(1)
  show ?thesis by blast
qed



text \<open>C18: The handler sees a stream in one order only: nothing when the first request is no registration,
  else \<open>OnRegister\<close>; when that fails nothing more, else the calls for the requests,
  in order and without gaps, and \<open>OnClose\<close> once, last. The calls stop short of the
  requests only at one whose error the stream then returns.\<close>

theorem stream_handler_protocol:
  assumes "bridgeService_Stream h send (first # reqs) recv_err w = (w', cs, e)"
  shows "(case StreamRequest_GetRegister (Some first) of
      None \<Rightarrow> cs = [] \<and> w' = w \<and> e = ErrorsNew ''register frame required''
    | Some reg \<Rightarrow>
        let meta = register_meta reg; sess = \<lparr>ss_meta = meta, ss_stream = send\<rparr>
        in case h sess (OnRegister meta) w of
             (w1, Some err) \<Rightarrow> cs = [OnRegister meta] \<and> w' = w1 \<and> e = err
           | (w1, None) \<Rightarrow>
               \<exists>mid. cs = OnRegister meta # mid @ [OnClose] \<and> prefix mid (wanted_calls reqs) \<and>
                 (\<forall>m. OnRegister m \<notin> set mid) \<and> OnClose \<notin> set mid \<and>
                 (mid = wanted_calls reqs \<or>
                  (\<exists>w0 w2. mid \<noteq> [] \<and> h sess (last mid) w0 = (w2, Some e))))"
proof (cases "StreamRequest_GetRegister (Some first)")
  case None
  with assms show ?thesis by (auto simp: bridgeService_Stream_def)
next
  case (Some reg)
  let ?sess = "\<lparr>ss_meta = register_meta reg, ss_stream = send\<rparr>"
  obtain w1 r where reg: "h ?sess (OnRegister (register_meta reg)) w = (w1, r)" by fastforce
  obtain w2 mid e2 where mid: "stream_loop h ?sess reqs recv_err w1 = (w2, mid, e2)"
    by (metis prod_cases3)
  note facts = stream_loop_prefix [OF mid] stream_loop_frame [OF mid] stream_loop_stops [OF mid]
  from assms Some reg mid show ?thesis
  proof (cases r)
    case None
    then have "cs = OnRegister (register_meta reg) # mid @ [OnClose]" "e = e2"
      using assms Some reg mid by (auto simp: bridgeService_Stream_def Let_def split: prod.splits)
    moreover have "\<forall>m. OnRegister m \<notin> set mid" "OnClose \<notin> set mid"
      using facts(2) is_frame_call_simps by blast+
    ultimately show ?thesis using Some None reg facts(1,3) by (auto simp: Let_def)
  qed (auto simp: bridgeService_Stream_def Let_def)
qed

theorem stream_handler_witness:
  "\<exists>mid. sample_calls = OnRegister (register_meta sample_register) # mid @ [OnClose] \<and>
     prefix mid [OnHeartbeat ''1'', OnHeartbeat ''2'', OnHeartbeat ''3'']"
proof -
  have "StreamRequest_GetRegister (Some (register_frame sample_options :: unit StreamRequest)) =
      Some sample_register"
    by (simp add: register_frame_def sample_register_def getter_defs)
  with stream_handler_protocol [OF sample_stream] show ?thesis
    by (auto simp: failing_handler_def dispatch_heartbeat)
qed

text \<open>C19: One stream of the server, as a machine that reacts to requests, failures of \<open>Recv\<close>
  and returns of the handler, is \<open>bridgeService_Stream\<close>: a finished run is an
  execution of the function for a handler that answers as recorded, and every execution, with
  whatever handler and state, is a finished run that reads a part of the same requests, makes the
  same calls and ends with the same error.\<close>

theorem stream_machine_is_Stream:
  "(stream_run Opened evs = Some (Ended e, cs) \<and> (failure_in evs = None \<or> failure_in evs = Some err) \<longrightarrow>
      bridgeService_Stream scripted send (requests_in evs) err (answers_in evs) = ([], cs, e)) \<and>
   (bridgeService_Stream h send' recvd err w = (w', cs', e') \<longrightarrow>
      (\<exists>evs'. stream_run Opened evs' = Some (Ended e', cs') \<and> prefix (requests_in evs') recvd \<and>
         (failure_in evs' = None \<or> failure_in evs' = Some err \<and> requests_in evs' = recvd)))"
  using run_is_stream [of evs e cs err send] stream_has_run [of h send' recvd err w w' cs' e']
  unfolding reads_from_def by blast

theorem stream_machine_witness:
  "bridgeService_Stream scripted (\<lambda>_ log. (log, None))
     [register_frame sample_options, heartbeat_frame ''1'' :: unit StreamRequest] ContextCanceled
     [None, None, None] =
     ([], [OnRegister (register_meta sample_register), OnHeartbeat ''1'', OnClose], ContextCanceled) \<and>
   (\<exists>evs. stream_run Opened evs = Some (Ended RedisNil, sample_calls) \<and>
      prefix (requests_in evs) (register_frame sample_options #
        [heartbeat_frame ''1'', heartbeat_frame ''2'', heartbeat_frame ''3'']))"
proof
  let ?evs = "[Received (register_frame sample_options), Returned None, Received (heartbeat_frame ''1''),
    Returned None, RecvFailed ContextCanceled, Returned None] :: unit stream_event list"
  have "StreamRequest_GetRegister (Some (register_frame sample_options :: unit StreamRequest)) =
      Some sample_register"
    by (simp add: register_frame_def sample_register_def getter_defs)
  then have run: "stream_run Opened ?evs = Some (Ended ContextCanceled,
      [OnRegister (register_meta sample_register), OnHeartbeat ''1'', OnClose])"
    by simp
  note machine = stream_machine_is_Stream [where evs = ?evs and err = ContextCanceled]
  from machine run show "bridgeService_Stream scripted (\<lambda>_ log. (log, None))
     [register_frame sample_options, heartbeat_frame ''1'' :: unit StreamRequest] ContextCanceled
     [None, None, None] =
     ([], [OnRegister (register_meta sample_register), OnHeartbeat ''1'', OnClose], ContextCanceled)"
    by force
  from stream_machine_is_Stream [where h = failing_handler] sample_stream
  show "\<exists>evs. stream_run Opened evs = Some (Ended RedisNil, sample_calls) \<and>
      prefix (requests_in evs) (register_frame sample_options #
        [heartbeat_frame ''1'', heartbeat_frame ''2'', heartbeat_frame ''3''])"
    by blast
qed

text \<open>C20: An access token is accepted exactly when the secret is set, it decodes with an HMAC method, its
  signature verifies under the secret, the clock is within its times up to the configured skew,
  its type is \<open>access\<close>, and the blocklist, where there is one and the token has an
  identifier, answers that it is not blocked; the claims returned are those the token carries.\<close>

theorem access_token_accepted_iff:
  assumes "jwt_documented lib"
  shows "VerifyAccessToken lib now tok cfg blocklist r = Inr c \<longleftrightarrow>
    (\<exists>alg pl. cfg_Secret cfg \<noteq> [] \<and> jwt_ParseUnverified lib tok = Inr (HMAC alg, pl) \<and>
       jwt_verifies lib (HMAC alg) (cfg_Secret cfg) tok \<and>
       in_time pl (max 0 (cfg_ClockSkew cfg)) now \<and> AccessClaims_of pl = Inr c) \<and>
    ac_TokenType c = ''access'' \<and> not_blocked blocklist c now r"
  using VerifyAccessToken_Inr_iff [OF assms, of now tok cfg blocklist r c]
  by (auto simp: genuine_def)

theorem access_token_accepted_witness:
  "VerifyAccessToken sample_jwt Second ''A'' sample_cfg
     (Some (RedisAccessBlocklist_iface sample_blocklist)) Map.empty = Inr sample_access"
proof -
  have a: "jwt_ParseUnverified sample_jwt ''A'' =
      Inr (HMAC ''HS256'', AccessClaims_payload sample_access)"
    "jwt_verifies sample_jwt (HMAC ''HS256'') ''k'' ''A''"
    by (simp_all add: sample_jwt_def table_jwt_def sample_table_def)
  have c: "ac_TokenType sample_access = ''access''" "cfg_Secret sample_cfg = ''k''"
    "rg_ID (ac_RegisteredClaims sample_access) = ''a''"
    "in_time (AccessClaims_payload sample_access) 30000000000 1000000000"
    "cfg_ClockSkew sample_cfg = 30000000000"
    by (simp_all add: sample_access_def sample_cfg_def issued_access_def access_claims_def
        in_time_def AccessClaims_payload_def)
  have "not_blocked (Some (RedisAccessBlocklist_iface sample_blocklist)) sample_access Second Map.empty"
    by (simp add: not_blocked_def RedisAccessBlocklist_iface_def RedisAccessBlocklist_IsBlocked_def
        sample_blocklist_def NewRedisAccessBlocklist_def c mem_content_def)
  with a c show ?thesis
    unfolding access_token_accepted_iff [OF sample_jwt_documented] by fastforce
qed

text \<open>C21: The access token of an issued pair is accepted exactly while the clock is before its expiry, cut
  to whole seconds, plus the clock skew, and it is not blocked; the claims it yields are those it
  was issued for: the user, the sequence, the session version, the drawn identifier.\<close>

theorem issued_access_token_accepted:
  assumes "jwt_documented lib" and "issue_ok now uuids sq cfg"
    and "GenerateTokenPairWithVersion lib now uuids u sq ver cfg store r = (r', Inr p)"
  shows "VerifyAccessToken lib t (tp_AccessToken p) cfg blocklist s = Inr c \<longleftrightarrow>
    c = access_claims lib now (fst uuids) u sq ver (AuthConfig_Defaults cfg) \<and>
    t < (now + cfg_AccessTTL (AuthConfig_Defaults cfg)) div Second * Second +
        max 0 (cfg_ClockSkew cfg) \<and>
    not_blocked blocklist c t s"
  using issued_access_accepted [OF assms, of t blocklist s c] unfolding issued_access_def .

theorem issued_access_token_witness:
  "VerifyAccessToken sample_jwt (89 * Second) (tp_AccessToken sample_pair) sample_cfg None () =
     Inr sample_access \<and>
   VerifyAccessToken sample_jwt (90 * Second) (tp_AccessToken sample_pair) sample_cfg None () \<noteq>
     Inr sample_access"
proof -
  have cfg: "cfg_AccessTTL (AuthConfig_Defaults sample_cfg) = 60 * Second"
    "cfg_ClockSkew sample_cfg = 30 * Second"
    by (simp_all add: sample_cfg_def)
  show ?thesis
    unfolding issued_access_token_accepted
      [OF sample_jwt_documented sample_issue_ok sample_issued(2) [where r = "()"]]
    using sample_claims(1)
    by (simp add: cfg not_blocked_def issued_access_def del: AuthConfig_Defaults_fields)
qed

text \<open>C22: The two tokens of a pair cannot stand in for each other, whatever the configuration and the
  instant: the refresh token never verifies as an access token, and the access token is refused as
  a refresh token without a change to the store.\<close>

theorem token_types_separate:
  assumes "jwt_documented lib" and "issue_ok now uuids sq cfg"
    and "GenerateTokenPairWithVersion lib now uuids u sq ver cfg store r = (r', Inr p)"
  shows "isl (VerifyAccessToken lib t (tp_RefreshToken p) cfg' blocklist s) \<and>
    (\<exists>e. ConsumeRefreshToken lib t (tp_AccessToken p) cfg' store' s' = (s', Inl e))"
  using issued_refresh_not_access [OF assms] issued_access_not_refresh [OF assms]
  by (metis Inr_projr_iff)

theorem token_types_separate_witness:
  "isl (VerifyAccessToken sample_jwt Second ''R'' sample_cfg None ()) \<and>
   (\<exists>e. ConsumeRefreshToken sample_jwt Second ''A'' sample_cfg
      (Some (RedisRefreshStore_iface sample_refresh_store)) refresh_redis = (refresh_redis, Inl e))"
  using token_types_separate [OF sample_jwt_documented sample_issue_ok
      sample_issued(2) [where r = "()"], where t = Second and cfg' = sample_cfg]
  by (simp add: sample_pair_def)

text \<open>C23: One-time use. In any run of issuing pairs and consuming refresh tokens through one Redis store, at
  instants in order, where the drawn refresh identifiers are distinct and not yet in the store, no
  identifier is consumed twice, whatever the store operations report.\<close>

theorem refresh_tokens_consumed_once:
  assumes "jwt_documented lib" and "refresh_lawful (cd, store)"
    and "sorted (map op_time ops)" and "distinct (concat (map op_issues ops))"
    and "\<forall>op \<in> set ops. start \<le> op_time op"
    and "\<forall>jti \<in> set (concat (map op_issues ops)). \<forall>t \<ge> start. refresh_stored (cd, store) r t jti = None"
  shows "distinct (token_run lib cfg (RedisRefreshStore_iface (cd, store)) ops r)"
  using redis_refresh.run_consumes_once [OF assms(1-4), of start "{}" r cfg] assms(5,6)
  by (auto simp: redis_refresh.spent_def)

theorem refresh_tokens_consumed_once_witness:
  "distinct (token_run sample_jwt sample_cfg (RedisRefreshStore_iface sample_refresh_store)
     [Issue 0 (''a'', ''r'') 7 ''s'' 1, Consume Second ''R'', Consume (2 * Second) ''R''] Map.empty)"
  using refresh_tokens_consumed_once [OF sample_jwt_documented,
      where cd = "fst sample_refresh_store" and store = "snd sample_refresh_store"
        and ops = "[Issue 0 (''a'', ''r'') 7 ''s'' 1, Consume Second ''R'', Consume (2 * Second) ''R'']"
        and start = 0 and r = Map.empty and cfg = sample_cfg]
    sample_stores_lawful(1)
  by (simp add: refresh_stored_def sample_refresh_store_def NewRedisRefreshStore_def mem_content_def)

text \<open>C24: A revocation works: once \<open>RevokeAccessToken\<close> has succeeded on the claims of a token
  that was accepted, the same token is refused with that Redis blocklist, under any configuration,
  up to a millisecond before the expiry its claims name.\<close>

theorem revoked_token_refused:
  assumes "jwt_documented lib" and "blocklist_lawful b"
    and "VerifyAccessToken lib now tok cfg blocklist s = Inr c"
    and "RevokeAccessToken now (Some c) cfg (Some (RedisAccessBlocklist_iface b)) r = (r', None)"
    and "rg_ExpiresAt (ac_RegisteredClaims c) = Some e" and "e - now \<le> MaxDuration"
    and "now \<le> t" and "t + Millisecond \<le> e"
  shows "isl (VerifyAccessToken lib t tok cfg' (Some (RedisAccessBlocklist_iface b)) r')"
proof (rule ccontr)
  assume "\<not> isl (VerifyAccessToken lib t tok cfg' (Some (RedisAccessBlocklist_iface b)) r')"
  then obtain c' where c': "VerifyAccessToken lib t tok cfg' (Some (RedisAccessBlocklist_iface b)) r' = Inr c'"
    by (auto simp: Inr_projr_iff)
  have "c' = c"
    using assms(3) c' by (auto simp: VerifyAccessToken_Inr_iff [OF assms(1)] genuine_def)
  with redis_blocklist.revoked_refused [OF assms(1,2,4-8) c'] show False by simp
qed

theorem revoked_token_witness:
  "isl (VerifyAccessToken sample_jwt (59 * Second) ''A'' sample_cfg
     (Some (RedisAccessBlocklist_iface sample_blocklist)) revoked_redis)"
proof -
  have "VerifyAccessToken sample_jwt Second ''A'' sample_cfg None () = Inr sample_access"
    using sample_access_verifies [of Second "()"] by simp
  with sample_revoked sample_access_expires show ?thesis
    by (intro revoked_token_refused [OF sample_jwt_documented sample_stores_lawful(2),
          where now = Second and c = sample_access and e = "60 * Second" and cfg = sample_cfg])
       simp_all
qed

text \<open>C25: After the session version of a user was counted up to \<open>v\<close> in Redis, every token of
  that user that \<open>VerifyAccessTokenWithVersion\<close> accepts later, with the store
  answering, carries exactly the version \<open>v\<close>: older sessions are superseded.\<close>

theorem session_version_enforced:
  assumes "redis_documented (rsv_client st)"
    and "\<forall>s. rc_content (rsv_client st) r now (RedisSessionVersionStore_key st u) = Some s \<longrightarrow>
           (\<exists>n. s = string_of_int n)"
    and "RedisSessionVersionStore_Incr (Some st) u now r = (r', Inr v)" and "0 < sint v"
    and "now \<le> t" and "RedisSessionVersionStore_Get (Some st) u t r' = (current, None)"
    and "VerifyAccessTokenWithVersion lib t tok cfg blocklist
           (Some (RedisSessionVersionStore_iface (Some st))) r' = Inr c"
    and "ac_UserID c = u"
  shows "ac_SessionVersion c = v"
proof -
  have "current = v"
    by (rule session_Get_after_Incr [OF assms(1,2,3,5,6)])
  with assms(4,6,7,8) show ?thesis
    by (auto simp: VerifyAccessTokenWithVersion_Inr_iff RedisSessionVersionStore_iface_def)
qed

theorem session_version_witness:
  "VerifyAccessTokenWithVersion sample_jwt Second ''A'' sample_cfg None
     (Some (RedisSessionVersionStore_iface sample_sessions)) session_redis = Inr sample_access \<and>
   ac_SessionVersion sample_access = 1"
proof
  show ok: "VerifyAccessTokenWithVersion sample_jwt Second ''A'' sample_cfg None
     (Some (RedisSessionVersionStore_iface sample_sessions)) session_redis = Inr sample_access"
    using sample_access_verifies [of Second session_redis] sample_session(3)
    by (simp add: VerifyAccessTokenWithVersion_Inr_iff RedisSessionVersionStore_iface_def
        sample_access_def)
  obtain st where st: "sample_sessions = Some st" "rsv_client st = memory_redis"
    by (simp add: sample_sessions_def NewRedisSessionVersionStore_def)
  have one: "0 < sint (1 :: i64)" by simp
  show "ac_SessionVersion sample_access = 1"
    by (rule session_version_enforced [where st = st and r = Map.empty and now = 0 and u = 7
          and r' = session_redis and t = Second and current = 1])
       (use ok sample_session(2,3) one in
        \<open>simp_all add: st memory_redis_documented mem_content_def sample_access_user\<close>)
qed



text \<open>C27: \<open>Close\<close> may never return: once it is in \<open>GracefulStop\<close> with a session
  under way, it stays there as long as \<open>Recv\<close> does not fail on that stream and the
  handler answers without an error, whatever else happens and whatever
  \<open>GracefulShutdownTimeout\<close> is set to; nothing the server does ends a session.\<close>

theorem close_waits_for_sessions:
  fixes tr tr' :: "(('v, 'c) bridge_env \<times> 'v net_event) list"
  assumes "net_reaches sopts opts tr n" and "nw_close n = Stopping"
    and "st \<in> set (lk_opened (nw_links n i))"
    and "lk_pc (nw_links n i) st = Looping \<or> (\<exists>c. lk_pc (nw_links n i) st = InHandler c)"
    and "net_run n tr' n'"
    and "\<forall>e. NClient i (LServer st (RecvFailed e)) \<notin> snd ` set tr'"
    and "\<forall>e. NClient i (LServer st (Returned (Some e))) \<notin> snd ` set tr'"
  shows "nw_close n' = Stopping \<and> NCloseReturn \<notin> snd ` set tr'"
  by (rule close_waits [OF assms])

theorem close_waits_witness:
  "\<exists>(n :: unit network) n'. net_reaches sample_options (\<lambda>_. sample_options) closing n \<and>
     net_run n [(sample_env, NClient 0 (LHeartbeat 5 ''1''))] n' \<and> nw_close n' = Stopping"
proof -
  obtain n :: "unit network" where n: "net_reaches sample_options (\<lambda>_. sample_options) closing n"
    "nw_close n = Stopping" "linked 5 (nw_links n 0)" "lk_opened (nw_links n 0) = [5]"
    using sample_closing by blast
  obtain n' where run: "net_run n [(sample_env, NClient 0 (LHeartbeat 5 ''1''))] n'"
    using sample_beat [OF n(3)] by blast
  have "5 \<in> set (lk_opened (nw_links n 0))" "lk_pc (nw_links n 0) 5 = Looping"
    using n(3,4) by (simp_all add: linked_def)
  from close_waits_for_sessions [OF n(1,2) this(1) disjI1 [OF this(2)] run] n(1) run show ?thesis
    by auto
qed

text \<open>C28: A client configured with metadata never gets into service: its stream is asked for on a context
  derived from the dial context that has just been cancelled, so with a gRPC library that refuses
  such contexts no run ever sends a frame, and every \<open>PublishIngress\<close> is refused.\<close>

theorem metadata_never_connects:
  assumes "client_reaches opts tr s" and "o_Metadata opts \<noteq> []"
    and "\<forall>(env, ev) \<in> set tr. grpc_rejects_done env"
  shows "cl_sent (sy_client s) = [] \<and> \<not> cl_started (sy_client s) \<and>
    PublishIngress env' ctx p e (sy_client s) = [Returns (sy_client s, Some ErrNotStarted)]"
proof -
  obtain c where c: "NewClient opts = Inr c" "client_run (init_sys c) tr s"
    using assms(1) by (rule client_reachesE)
  have "\<forall>x \<in> set tr. grpc_rejects_done (fst x)" using assms(3) by auto
  from run_never_connected [OF c(2) this init_never_connected [OF c(1) assms(2)]] show ?thesis
    by (simp add: never_connected_def quiet_def PublishIngress_def)
qed

theorem metadata_never_connects_witness:
  "\<exists>s :: unit sys. client_reaches metadata_options
       [(sample_env, EvStart Background), (sample_env, EvConnect)] s \<and>
     \<not> cl_started (sy_client s) \<and> cl_openConns (sy_client s) = [3]"
proof -
  obtain s :: "unit sys" where s: "client_reaches metadata_options
      [(sample_env, EvStart Background), (sample_env, EvConnect)] s"
    "cl_openConns (sy_client s) = [3]"
    using sample_refused by blast
  moreover have "\<not> cl_started (sy_client s)"
    using metadata_never_connects [OF s(1) sample_options_fields(6), of sample_env Background
        sample_stamp sample_message_env] by simp
  ultimately show ?thesis by blast
qed

text \<open>C29: After a lost connection, until the next stream is there, the client still counts as started while
  its stream is nil: a \<open>PublishIngress\<close> in that window passes its check and ends the
  process with a nil dereference.\<close>

theorem publish_after_loss_panics:
  assumes "NewClient opts = Inr c" and "o_Metadata opts = []" and "cooperative env opts conn st"
    and "\<not> o_EnableBackpressure opts"
  shows "\<exists>s. client_run (init_sys c)
      (startup env @ [(env, EvRecvCall), (env, EvRecvErr err), (env, EvConnLost)] @
       [(env, EvPublish ctx p e), (env, EvPubSend)]) s \<and>
    sy_panic s = Some nil_stream_panic"
proof -
  have free: "cl_inflight c = None"
    using NewClient_fields(1,4) [OF assms(1)] assms(4) by (simp add: client_defaults_def)
  obtain s1 where s1: "client_run (init_sys c) (startup env) s1" "in_service st s1"
    "cl_inflight (sy_client s1) = None"
    using startup_in_service [OF assms(1-3)] free by auto
  obtain s2 where s2: "client_run s1 [(env, EvRecvCall), (env, EvRecvErr err), (env, EvConnLost)] s2"
    "sy_panic s2 = None" "cl_started (sy_client s2)" "cl_stream (sy_client s2) = None"
    "cl_inflight (sy_client s2) = None"
    using lose_connection [OF s1(2), of env err] s1(3) by auto
  from publish_without_stream [OF s2(2,3,5,4), of env ctx p e] show ?thesis
    using client_run_append [OF client_run_append s1(1)] s2(1)
    by (metis (no_types) client_run_append s1(1))
qed

theorem publish_after_loss_witness:
  "\<exists>(c :: unit client) (tr :: ((unit, unit) bridge_env \<times> unit event) list) s. NewClient unlimited_options = Inr c \<and>
     client_run (init_sys c) tr s \<and> fst ` set tr = {sample_env} \<and>
     sy_panic s = Some nil_stream_panic"
proof -
  obtain c :: "unit client" where c: "NewClient unlimited_options = Inr c"
    using NewClient_samples(2) by blast
  from publish_after_loss_panics [OF c, of sample_env 3 5 "LibError ''EOF''" Background
      sample_stamp sample_message_env] c
  show ?thesis by (fastforce simp: startup_def)
qed

text \<open>C30: On a reconnection an ingress frame can be the first on the new stream: between installing the
  stream and registering on it the run loop can be overtaken by a publisher, and the server
  answers such a stream with an error and never calls the handler.\<close>

theorem ingress_overtakes_registration:
  assumes "NewClient opts = Inr c" and "o_Metadata opts = []" and "cooperative env opts conn st"
    and "cooperative env' opts conn' st'" and "\<not> o_EnableBackpressure opts"
  shows "(\<exists>s r. client_run (init_sys c)
      (startup env @ [(env, EvRecvCall), (env, EvRecvErr err), (env, EvConnLost)] @
       [(env', EvConnect), (env', EvPublish ctx p e), (env', EvPubSend)]) s \<and>
      sy_run s = RunRegistering r st' \<and>
      cl_sent (sy_client s) =
        [(st, register_frame (client_defaults opts)), (st', ingress_frame p e)]) \<and>
    bridgeService_Stream h send (ingress_frame p e # reqs) recv_err w =
      (w, [], ErrorsNew ''register frame required'')"
proof
  have free: "cl_inflight c = None"
    using NewClient_fields(1,4) [OF assms(1)] assms(5) by (simp add: client_defaults_def)
  obtain s1 where s1: "client_run (init_sys c) (startup env) s1" "in_service st s1"
    "cl_inflight (sy_client s1) = None" "cl_opts (sy_client s1) = client_defaults opts"
    "cl_sent (sy_client s1) = [(st, register_frame (client_defaults opts))]"
    using startup_in_service [OF assms(1-3)] free by auto
  obtain s2 r where s2: "client_run s1 [(env, EvRecvCall), (env, EvRecvErr err), (env, EvConnLost)] s2"
    "sy_panic s2 = None" "sy_run s2 = RunConnecting r" "cl_started (sy_client s2)"
    "cl_inflight (sy_client s2) = None" "\<not> ctx_done (cl_runCtx (sy_client s2))"
    "cl_opts (sy_client s2) = client_defaults opts" "cl_sent (sy_client s2) = cl_sent (sy_client s1)"
    using lose_connection [OF s1(2), of env err] s1(3,4) by metis
  have "cooperative env' (cl_opts (sy_client s2)) conn' st'" "o_Metadata (cl_opts (sy_client s2)) = []"
    using cooperative_defaults [OF assms(4)] assms(2) s2(7) by (simp_all add: client_defaults_def)
  from publish_overtakes_register [OF s2(2-6) this, of ctx p e] obtain s3 where
    s3: "client_run s2 [(env', EvConnect), (env', EvPublish ctx p e), (env', EvPubSend)] s3"
    "sy_run s3 = RunRegistering r st'" "cl_sent (sy_client s3) = cl_sent (sy_client s2) @ [(st', ingress_frame p e)]"
    by blast
  show "\<exists>s r. client_run (init_sys c)
      (startup env @ [(env, EvRecvCall), (env, EvRecvErr err), (env, EvConnLost)] @
       [(env', EvConnect), (env', EvPublish ctx p e), (env', EvPubSend)]) s \<and>
      sy_run s = RunRegistering r st' \<and>
      cl_sent (sy_client s) =
        [(st, register_frame (client_defaults opts)), (st', ingress_frame p e)]"
    using client_run_append [OF client_run_append [OF s3(1) s2(1)] s1(1)] s3(2,3) s2(8) s1(5)
    by (intro exI [of _ s3] exI [of _ r]) simp
  show "bridgeService_Stream h send (ingress_frame p e # reqs) recv_err w =
      (w, [], ErrorsNew ''register frame required'')"
    by (simp add: bridgeService_Stream_def ingress_frame_def getter_defs)
qed

theorem ingress_overtakes_witness:
  "\<exists>(c :: unit client) (tr :: ((unit, unit) bridge_env \<times> unit event) list) s r. NewClient unlimited_options = Inr c \<and>
     client_run (init_sys c) tr s \<and> sy_run s = RunRegistering r 8 \<and>
     cl_sent (sy_client s) =
       [(5, register_frame (client_defaults unlimited_options)),
        (8, ingress_frame sample_stamp sample_message_env)]"
proof -
  obtain c :: "unit client" where c: "NewClient unlimited_options = Inr c"
    using NewClient_samples(2) by blast
  have env: "cooperative (plain_env 7 8 :: (unit, unit) bridge_env) unlimited_options 7 8"
    by (rule plain_env_cooperative)
  obtain tr :: "((unit, unit) bridge_env \<times> unit event) list" and s r where
    "client_run (init_sys c) tr s" "sy_run s = RunRegistering r 8"
    "cl_sent (sy_client s) =
       [(5, register_frame (client_defaults unlimited_options)),
        (8, ingress_frame sample_stamp sample_message_env)]"
    using conjunct1 [OF ingress_overtakes_registration [OF c sample_options_fields(4)
          sample_env_simps(1) env sample_options_fields(5)]] by metis
  with c show ?thesis by blast
qed

text \<open>C31: Closing a client in service can end the process: a consumer that has received a delivery when
  \<open>Close\<close> closes the channels may still choose to send on the closed channel.\<close>

theorem close_can_panic_consumer:
  assumes "NewClient opts = Inr c" and "o_Metadata opts = []" and "cooperative env opts conn st"
    and "receive resp = ToDeliver q"
  shows "\<exists>s. client_run (init_sys c)
      (startup env @ [(env, EvRecvCall), (env, EvRecv resp), (env, EvClose), (env, EvHand)]) s \<and>
    sy_panic s = Some closed_channel_panic"
proof -
  obtain s1 where s1: "client_run (init_sys c) (startup env) s1" "in_service st s1"
    using startup_in_service [OF assms(1-3)] by blast
  have "\<not> cl_stopOnce (sy_client s1)"
    using startup_open [OF assms(1) s1(1)] .
  from close_while_handing [OF s1(2) this assms(4), of env] show ?thesis
    using client_run_append [OF _ s1(1)] by blast
qed

theorem close_can_panic_witness:
  "\<exists>(c :: unit client) (tr :: ((unit, unit) bridge_env \<times> unit event) list) s. NewClient sample_options = Inr c \<and> client_run (init_sys c) tr s \<and>
     sy_panic s = Some closed_channel_panic"
proof -
  obtain c :: "unit client" where c: "NewClient sample_options = Inr c"
    using NewClient_samples(1) by blast
  obtain tr :: "((unit, unit) bridge_env \<times> unit event) list" and s where
    "client_run (init_sys c) tr s" "sy_panic s = Some closed_channel_panic"
    using close_can_panic_consumer [OF c sample_options_fields(1) sample_env_simps(1)
        receive_Deliver [of sample_message_env]] by blast
  with c show ?thesis by blast
qed



text \<open>C33: What revocation leaves open: its entry ends with the token's expiry, but verification allows for
  the clock skew, so between the expiry and the expiry plus the skew a revoked token of an issued
  pair is accepted again, with its claims.\<close>

theorem revoked_token_accepted_in_skew:
  assumes "jwt_documented lib" and "blocklist_lawful b" and "issue_ok now uuids sq cfg"
    and "fst uuids \<noteq> []"
    and "GenerateTokenPairWithVersion lib now uuids u sq ver cfg store s = (s', Inr p)"
    and "c = access_claims lib now (fst uuids) u sq ver (AuthConfig_Defaults cfg)"
    and "e = (now + cfg_AccessTTL (AuthConfig_Defaults cfg)) div Second * Second"
    and "RevokeAccessToken t (Some c) cfg (Some (RedisAccessBlocklist_iface b)) r = (r', None)"
    and "t + Millisecond \<le> e" and "e \<le> t'" and "t' < e + cfg_ClockSkew cfg"
    and "RedisAccessBlocklist_IsBlocked b (fst uuids) t' r' = Inr blocked"
  shows "VerifyAccessToken lib t' (tp_AccessToken p) cfg (Some (RedisAccessBlocklist_iface b)) r' = Inr c"
proof -
  have "bl_IsBlocked (RedisAccessBlocklist_iface b) (fst uuids) t' r' = Inr blocked"
    using assms(12) by (simp add: RedisAccessBlocklist_iface_def)
  with redis_blocklist.revoked_accepted_in_skew
    [OF assms(1-5) assms(6) [folded issued_access_def] assms(7-11)]
  show ?thesis .
qed

theorem revoked_in_skew_witness:
  "VerifyAccessToken sample_jwt (60 * Second) ''A'' sample_cfg
     (Some (RedisAccessBlocklist_iface sample_blocklist)) revoked_redis = Inr sample_access"
proof -
  have "RedisAccessBlocklist_IsBlocked sample_blocklist (fst (''a'', ''r'')) (60 * Second) revoked_redis =
      Inr False"
    by (simp add: RedisAccessBlocklist_IsBlocked_def sample_blocklist_def NewRedisAccessBlocklist_def
        RedisAccessBlocklist_key_def revoked_redis_def mem_content_def)
  moreover have "cfg_AccessTTL (AuthConfig_Defaults sample_cfg) = 60 * Second"
    "cfg_ClockSkew sample_cfg = 30 * Second"
    by (simp_all add: sample_cfg_def)
  moreover have "sample_access =
      access_claims sample_jwt 0 (fst (''a'', ''r'')) 7 ''s'' 1 (AuthConfig_Defaults sample_cfg)"
    using sample_claims(1) by (simp add: issued_access_def)
  ultimately have "VerifyAccessToken sample_jwt (60 * Second) (tp_AccessToken sample_pair) sample_cfg
     (Some (RedisAccessBlocklist_iface sample_blocklist)) revoked_redis = Inr sample_access"
    using sample_revoked
    by (intro revoked_token_accepted_in_skew [OF sample_jwt_documented sample_stores_lawful(2)
          sample_issue_ok _ sample_issued(2) [where r = "()"], where t = Second
          and e = "60 * Second" and blocked = False])
       (simp_all del: AuthConfig_Defaults_fields)
  then show ?thesis by (simp add: sample_pair_def)
qed

text \<open>C34: What a time to live on the versions costs: if the version key of a user lapses while the token of
  the first login is still in time, the next login starts numbering from 1 again and the old token
  is accepted again beside the new one.\<close>

theorem forgotten_version_revives_token:
  assumes "jwt_documented lib" and "version_lawful store" and "simple_issue_ok now uuid sq cfg"
    and "GenerateSimpleToken lib now uuid u sq cfg (Some (RedisTokenVersionStore_iface store)) r =
           (r1, Inr res)"
    and "str_Version res = 1" and "versions_numeric store r1" and "stored_version store r1 t u = 0"
    and "GenerateSimpleToken lib t uuid' u sq' cfg' (Some (RedisTokenVersionStore_iface store)) r1 =
           (r2, Inr res')"
    and "t + Second \<le> now + sc_TTL (SimpleTokenConfig_Defaults cfg)"
    and "RedisTokenVersionStore_GetVersion store u t r2 = (v, None)"
  shows "VerifySimpleToken lib t (str_Token res) cfg (Some (RedisTokenVersionStore_iface store)) r2 =
    Inr (simple_claims lib now uuid u sq 1 (SimpleTokenConfig_Defaults cfg))"
proof -
  have "tv_GetVersion (RedisTokenVersionStore_iface store) u t r2 = (v, None)"
    using assms(10) by (simp add: RedisTokenVersionStore_iface_def)
  with redis_version.forgotten_version_revives [OF assms(1-9)] show ?thesis
    unfolding issued_simple_def .
qed

theorem forgotten_version_witness:
  "VerifySimpleToken sample_jwt (3 * Second) ''S'' sample_scfg
     (Some (RedisTokenVersionStore_iface (sample_versions (2 * Second))))
     (version_redis 1 (Some (5 * Second))) = Inr (sample_simple 0 ''u'' 1)"
proof -
  have "VerifySimpleToken sample_jwt (3 * Second) (str_Token (sample_login ''S'' 0 1)) sample_scfg
      (Some (RedisTokenVersionStore_iface (sample_versions (2 * Second))))
      (version_redis 1 (Some (5 * Second))) =
    Inr (simple_claims sample_jwt 0 ''u'' 7 ''s'' 1 (SimpleTokenConfig_Defaults sample_scfg))"
    by (rule forgotten_version_revives_token [OF sample_jwt_documented sample_stores_lawful(3)
          sample_scfg_ok(1) sample_logins(3) _ sample_numeric(2) _ sample_logins(4), where v = 1])
       (simp_all add: sample_stored sample_get sample_ttl sample_login_def
          del: SimpleTokenConfig_Defaults_fields)
  then show ?thesis
    using sample_claims(3) [of 0 "''u''" 1] by (simp add: sample_login_def issued_simple_def)
qed

text \<open>C35: Simple tokens carry no type: an access token issued under the same secret is accepted by
  \<open>VerifySimpleToken\<close> as a token of user 0, as long as the version store in Redis
  holds no version for that user and answers.\<close>

theorem access_token_passes_as_simple_token:
  assumes "jwt_documented lib" and "issue_ok now uuids sq cfg"
    and "GenerateTokenPairWithVersion lib now uuids u sq ver cfg store s = (s', Inr p)"
    and "sc_Secret scfg = cfg_Secret cfg" and "0 \<le> sc_ClockSkew scfg"
    and "t < (now + cfg_AccessTTL (AuthConfig_Defaults cfg)) div Second * Second"
    and "RedisTokenVersionStore_GetVersion versions 0 t r = (0, None)"
  shows "\<exists>c. VerifySimpleToken lib t (tp_AccessToken p) scfg
      (Some (RedisTokenVersionStore_iface versions)) r = Inr c \<and> stc_UserID c = 0"
  by (rule access_token_is_simple_token [OF assms(1-6)])
     (simp add: RedisTokenVersionStore_iface_def assms(7))

theorem access_token_as_simple_witness:
  "\<exists>c. VerifySimpleToken sample_jwt Second ''A'' sample_scfg
      (Some (RedisTokenVersionStore_iface (sample_versions 0))) Map.empty = Inr c \<and> stc_UserID c = 0"
proof -
  have "cfg_AccessTTL (AuthConfig_Defaults sample_cfg) = 60 * Second"
    "sc_Secret sample_scfg = cfg_Secret sample_cfg" "0 \<le> sc_ClockSkew sample_scfg"
    by (simp_all add: sample_cfg_def sample_scfg_def)
  moreover have "RedisTokenVersionStore_GetVersion (sample_versions 0) 0 Second Map.empty = (0, None)"
    by (simp add: RedisTokenVersionStore_GetVersion_def sample_versions_def
        NewRedisTokenVersionStore_def WithTokenVersionTTL_def mem_GetInt64_def mem_content_def)
  ultimately show ?thesis
    using access_token_passes_as_simple_token [OF sample_jwt_documented sample_issue_ok
        sample_issued(2) [where r = "()"], where scfg = sample_scfg and t = Second
        and versions = "sample_versions 0" and r = Map.empty]
    by (simp add: sample_pair_def del: AuthConfig_Defaults_fields)
qed



text \<open>C37: The loop of \<open>LoadConfigWithSecrets\<close> implements its specification: an error of
  \<open>LoadConfig\<close> is returned as it is; otherwise the error is the first required secret
  that is missing, if any, and memory holds, at each target of the definitions before it, the
  value of the last of them that points there, and is unchanged elsewhere.\<close>

theorem secrets_injected:
  "LoadConfigWithSecrets libs secrets opts w =
     (case LoadConfig libs opts w of
        (w1, Some e) \<Rightarrow> (w1, Some e)
      | (w1, None) \<Rightarrow>
          (w1\<lparr>cw_mem :=
             value_at (cw_os w1) (takeWhile (\<lambda>s. \<not> missing (cw_os w1) s) secrets) (cw_mem w1)\<rparr>,
           map_option (\<lambda>s. SecretNotFoundError (sd_Name s)) (find (missing (cw_os w1)) secrets)))"
  by (auto simp: LoadConfigWithSecrets_def inject_secrets_spec Let_def
      split: prod.split option.split)

text \<open>C38: What \<open>Publish\<close> does: without a topic, or on a context that is done, it fails and
  leaves the producer alone; otherwise it hands the producer one message with the resolved topic,
  the key and value where they are not empty, and the headers of the propagator, and returns the
  producer's error. An installed observer is called once, with the resolved topic and the error
  returned.\<close>

theorem publish_outcome:
  assumes "Publish lib inject elapsed (Some m) ctx topic key v = (m', calls, err)"
    and "t = (if topic = [] then kc_Topic (mg_cfg m) else topic)"
  shows "(if t = [] \<or> ctx_done ctx then m' = Some m \<and> err \<noteq> None
      else m' = Some (m\<lparr>mg_producer := fst (sarama_SendMessage lib
             \<lparr>pm_Topic = t, pm_Key = (if key = [] then None else Some key),
              pm_Value = (if v = [] then None else Some v), pm_Headers = inject ctx\<rparr>
             (mg_producer m))\<rparr>) \<and>
           err = snd (sarama_SendMessage lib
             \<lparr>pm_Topic = t, pm_Key = (if key = [] then None else Some key),
              pm_Value = (if v = [] then None else Some v), pm_Headers = inject ctx\<rparr>
             (mg_producer m))) \<and>
    calls = (case mg_publishObserver m of None \<Rightarrow> [] | Some ob \<Rightarrow> [(ob, t, elapsed, err)])"
  using assms
  by (auto simp: Publish_def publish_body_def publishObserverSnapshot_def ctx_done_def Let_def
      split: option.splits prod.splits if_splits)

theorem publish_witness:
  "Publish sample_sarama (\<lambda>_. [(''traceparent'', ''x'')]) 5 (Some sample_manager) Background [] ''k'' [] =
     (Some (sample_manager\<lparr>mg_producer := [sample_message]\<rparr>), [(1 :: nat, ''events'', 5, None)], None)"
proof -
  obtain m' calls err where p: "Publish sample_sarama (\<lambda>_. [(''traceparent'', ''x'')]) 5
      (Some sample_manager) Background [] ''k'' [] = (m', calls, err)"
    by (metis prod_cases3)
  from publish_outcome [OF p refl] show ?thesis
    unfolding p
    by (simp add: sample_manager_def sample_kafka_cfg_def sample_sarama_def sample_message_def)
qed

text \<open>C39: A Kafka manager is only built with a broker list, and its settings follow the configuration:
  retries are the configured number but never below three, acknowledgements are as parsed from the
  text, the producer reports successes and is not idempotent, credentials switch SASL on, and the
  SCRAM generator always fits the mechanism.\<close>

theorem kafka_manager_settings:
  assumes "NewManager lib cfg = Inr m"
    and "sa_SASL_Mechanism (sarama_NewConfig lib) = None"
    and "sa_SASL_SCRAMGenerator (sarama_NewConfig lib) = None"
  shows "kc_Brokers cfg \<noteq> [] \<and> \<not> mg_closeOnce m \<and>
    sarama_NewSyncProducer lib (kc_Brokers cfg) (mg_baseConf m) = Inr (mg_producer m) \<and>
    sa_Producer_Retry_Max (mg_baseConf m) = max 3 (kc_MaxAttempts cfg) \<and>
    sa_Producer_RequiredAcks (mg_baseConf m) = parseRequiredAcks (kc_RequiredAcks cfg) \<and>
    sa_Producer_Return_Successes (mg_baseConf m) \<and> \<not> sa_Producer_Idempotent (mg_baseConf m) \<and>
    (kc_Username cfg = [] \<or> sa_SASL_Enable (mg_baseConf m)) \<and>
    sa_SASL_SCRAMGenerator (mg_baseConf m) =
      (case sa_SASL_Mechanism (mg_baseConf m) of
         Some SASLTypeSCRAMSHA256 \<Rightarrow> Some SHA256
       | Some SASLTypeSCRAMSHA512 \<Rightarrow> Some SHA512
       | _ \<Rightarrow> None)"
proof -
  from assms(1) have m: "kc_Brokers cfg \<noteq> []" "\<not> mg_closeOnce m"
    "mg_baseConf m = base_config (sarama_NewConfig lib) cfg"
    "sarama_NewSyncProducer lib (kc_Brokers cfg) (mg_baseConf m) = Inr (mg_producer m)"
    by (auto simp: NewManager_def Let_def split: if_splits sum.splits)
  show ?thesis
    using m base_config_fields [where b = "sarama_NewConfig lib" and cfg = cfg]
      base_config_mechanism [OF assms(2,3), of cfg]
    by (auto simp: max.commute)
qed

theorem kafka_settings_witness:
  "sa_Producer_Retry_Max (base_config (sarama_NewConfig sample_sarama) sample_kafka_cfg) = 3 \<and>
   sa_SASL_SCRAMGenerator (base_config (sarama_NewConfig sample_sarama) sample_kafka_cfg) = Some SHA512"
proof -
  let ?b = "base_config (sarama_NewConfig sample_sarama) sample_kafka_cfg"
  let ?m = "\<lparr>mg_cfg = sample_kafka_cfg, mg_producer = [], mg_baseConf = ?b,
    mg_publishObserver = None, mg_consumeObserver = None, mg_closeOnce = False\<rparr> ::
      (producer_message list, nat) Manager"
  have new: "NewManager sample_sarama sample_kafka_cfg = Inr ?m"
    by (simp add: NewManager_def sample_sarama_def sample_kafka_cfg_def Let_def)
  have lib: "sa_SASL_Mechanism (sarama_NewConfig sample_sarama) = None"
    "sa_SASL_SCRAMGenerator (sarama_NewConfig sample_sarama) = None"
    by (simp_all add: sample_sarama_def)
  have cfg: "kc_MaxAttempts sample_kafka_cfg = 1" "kc_Username sample_kafka_cfg = ''u''"
    "kc_SASLMechanism sample_kafka_cfg = '' scram-sha-512 ''"
    by (simp_all add: sample_kafka_cfg_def)
  have "ToUpper (TrimSpace '' scram-sha-512 '') = ''SCRAM-SHA-512''" by code_simp
  then have "sa_SASL_Mechanism ?b = Some SASLTypeSCRAMSHA512"
    by (simp add: base_config_def Let_def cfg)
  with kafka_manager_settings [OF new lib] show ?thesis
    by (simp only: Manager.simps) (simp add: cfg)
qed

text \<open>C40: Over gRPC the trace context is lost: on metadata whose keys are all in lower case, as gRPC
  delivers it, \<open>ExtractMetadata\<close> leaves the context as it was, but for the attribute
  \<open>x-trace-id\<close>, whatever \<open>traceparent\<close> holds.\<close>

theorem trace_context_lost_over_grpc:
  assumes "trace_documented lib" and "\<forall>k \<in> dom md. ToLower k = k"
  shows "ExtractMetadata lib ctx (Some md) =
    (case md ''x-trace-id'' of
       Some (tid # _) \<Rightarrow> tr_SetAttribute lib traceMetadataKey tid ctx
     | _ \<Rightarrow> ctx)"
  using extract_delivered [OF assms] by simp

theorem trace_context_lost_witness:
  "ExtractMetadata sample_trace [] (Some [''traceparent'' \<mapsto> [''t1'']]) = []"
proof -
  have "ToLower ''traceparent'' = ''traceparent''" by code_simp
  then show ?thesis
    using trace_context_lost_over_grpc [OF sample_trace_documented,
        where md = "[''traceparent'' \<mapsto> [''t1'']]" and ctx = "[]"] by simp
qed

end
